(* ===== verification/Worker_Prelude.thy ===== *)
theory Worker_Prelude
  imports Main "HOL-Library.Sublist"
begin

text \<open>
  The prelude of the development: the type of stateful, fallible computations that models
  the Python coroutines (\<open>try\<close>, \<open>except\<close>, \<open>finally\<close>, \<open>for\<close> loops), a compositional
  notion of invariant for them, and the list facts the components share.

  A coroutine of the worker reads and writes the process state and returns or raises.
  What it wrote before it raised stays written, so the state is returned in both cases.
\<close>

named_theorems comp_defs \<open>the sequencing combinators, unfolded\<close>
named_theorems keeps_intros \<open>compositional rules for invariants of computations\<close>

section \<open>Computations that can raise\<close>

type_synonym ('s, 'e, 'a) comp = "'s \<Rightarrow> ('e + 'a) \<times> 's"

definition retE :: "'a \<Rightarrow> ('s, 'e, 'a) comp" where
  "retE x s = (Inr x, s)"

definition raiseE :: "'e \<Rightarrow> ('s, 'e, 'a) comp" where
  "raiseE e s = (Inl e, s)"

definition getE :: "('s \<Rightarrow> 'a) \<Rightarrow> ('s, 'e, 'a) comp" where
  "getE f s = (Inr (f s), s)"

definition modifyE :: "('s \<Rightarrow> 's) \<Rightarrow> ('s, 'e, unit) comp" where
  "modifyE f s = (Inr (), f s)"

definition bindE :: "('s, 'e, 'a) comp \<Rightarrow> ('a \<Rightarrow> ('s, 'e, 'b) comp) \<Rightarrow> ('s, 'e, 'b) comp" where
  "bindE m f s = (case m s of (Inl e, t) \<Rightarrow> (Inl e, t) | (Inr x, t) \<Rightarrow> f x t)"

definition thenE :: "('s, 'e, 'a) comp \<Rightarrow> ('s, 'e, 'b) comp \<Rightarrow> ('s, 'e, 'b) comp" where
  "thenE m n = bindE m (\<lambda>_. n)"

text \<open>\<open>try m except e: h e\<close>; a handler re-raises by \<open>raiseE\<close>.\<close>

definition tryE :: "('s, 'e, 'a) comp \<Rightarrow> ('e \<Rightarrow> ('s, 'e, 'a) comp) \<Rightarrow> ('s, 'e, 'a) comp" where
  "tryE m h s = (case m s of (Inl e, t) \<Rightarrow> h e t | (Inr x, t) \<Rightarrow> (Inr x, t))"

text \<open>\<open>try m finally c\<close>: the clean-up runs in both cases, and its own exception replaces
  the outcome of the body.\<close>

definition finallyE :: "('s, 'e, 'a) comp \<Rightarrow> ('s, 'e, unit) comp \<Rightarrow> ('s, 'e, 'a) comp" where
  "finallyE m c s = (case m s of (r, t) \<Rightarrow> (case c t of (Inl e, u) \<Rightarrow> (Inl e, u) | (Inr _, u) \<Rightarrow> (r, u)))"

definition whenE :: "bool \<Rightarrow> ('s, 'e, unit) comp \<Rightarrow> ('s, 'e, unit) comp" where
  "whenE b m = (if b then m else retE ())"

fun forE :: "'a list \<Rightarrow> ('a \<Rightarrow> ('s, 'e, unit) comp) \<Rightarrow> ('s, 'e, unit) comp" where
  "forE [] f = retE ()"
| "forE (x # xs) f = thenE (f x) (forE xs f)"

definition liftE :: "('e + 'a) \<Rightarrow> ('s, 'e, 'a) comp" where
  "liftE r s = (r, s)"

declare retE_def [comp_defs] raiseE_def [comp_defs] getE_def [comp_defs] modifyE_def [comp_defs]
declare bindE_def [comp_defs] thenE_def [comp_defs] tryE_def [comp_defs] finallyE_def [comp_defs]
declare whenE_def [comp_defs] liftE_def [comp_defs]

lemma bindE_assoc: "bindE (bindE m f) g = bindE m (\<lambda>x. bindE (f x) g)"
  by (rule ext) (simp add: bindE_def split: prod.splits sum.splits)

lemma bindE_raise [simp]: "bindE (raiseE e) f = raiseE e"
  by (rule ext) (simp add: bindE_def raiseE_def)

lemma bindE_ret [simp]: "bindE (retE x) f = f x"
  by (rule ext) (simp add: bindE_def retE_def)

lemma thenE_raise [simp]: "thenE (raiseE e) n = raiseE e"
  by (simp add: thenE_def)

lemma thenE_ret [simp]: "thenE (retE x) n = n"
  by (simp add: thenE_def)

lemma run_getE: "bindE (getE f) g s = g (f s) s"
  and run_liftE: "bindE (liftE r) h s = (case r of Inl e \<Rightarrow> (Inl e, s) | Inr x \<Rightarrow> h x s)"
  and run_modifyE: "thenE (modifyE k) m s = m (k s)"
  by (simp_all add: bindE_def thenE_def getE_def modifyE_def liftE_def split: sum.split)

lemma forE_append: "forE (xs @ ys) f = thenE (forE xs f) (forE ys f)"
  by (induction xs) (simp_all add: thenE_def bindE_assoc)

section \<open>Invariants of computations\<close>

text \<open>\<open>keeps I m\<close>: whether it returns or raises, \<open>m\<close> leaves the invariant \<open>I\<close> true.\<close>

definition keeps :: "('s \<Rightarrow> bool) \<Rightarrow> ('s, 'e, 'a) comp \<Rightarrow> bool" where
  "keeps I m \<longleftrightarrow> (\<forall>s. I s \<longrightarrow> I (snd (m s)))"

lemma keepsD: "keeps I m \<Longrightarrow> I s \<Longrightarrow> I (snd (m s))"
  by (simp add: keeps_def)

lemma keepsI: "(\<And>s. I s \<Longrightarrow> I (snd (m s))) \<Longrightarrow> keeps I m"
  by (simp add: keeps_def)

lemma keeps_ret [keeps_intros]: "keeps I (retE x)"
  by (simp add: keeps_def retE_def)

lemma keeps_raise [keeps_intros]: "keeps I (raiseE e)"
  by (simp add: keeps_def raiseE_def)

lemma keeps_get [keeps_intros]: "keeps I (getE f)"
  by (simp add: keeps_def getE_def)

lemma keeps_lift [keeps_intros]: "keeps I (liftE r)"
  by (simp add: keeps_def liftE_def)

lemma keeps_modify: "(\<And>s. I s \<Longrightarrow> I (f s)) \<Longrightarrow> keeps I (modifyE f)"
  by (simp add: keeps_def modifyE_def)

lemma keeps_bind [keeps_intros]:
  assumes "keeps I m" and "\<And>x. keeps I (f x)"
  shows "keeps I (bindE m f)"
proof (rule keepsI)
  fix s assume "I s"
  with assms(1) have "I (snd (m s))" by (rule keepsD)
  with assms(2) show "I (snd (bindE m f s))"
    by (auto simp: bindE_def keeps_def split: prod.splits sum.splits)
qed

lemma keeps_then [keeps_intros]: "keeps I m \<Longrightarrow> keeps I n \<Longrightarrow> keeps I (thenE m n)"
  by (simp add: thenE_def keeps_bind)

lemma keeps_try [keeps_intros]:
  assumes "keeps I m" and "\<And>e. keeps I (h e)"
  shows "keeps I (tryE m h)"
proof (rule keepsI)
  fix s assume "I s"
  with assms(1) have "I (snd (m s))" by (rule keepsD)
  with assms(2) show "I (snd (tryE m h s))"
    by (auto simp: tryE_def keeps_def split: prod.splits sum.splits)
qed

lemma keeps_finally [keeps_intros]:
  assumes "keeps I m" and "keeps I c"
  shows "keeps I (finallyE m c)"
proof (rule keepsI)
  fix s assume "I s"
  with assms(1) have "I (snd (m s))" by (rule keepsD)
  with assms(2) have "I (snd (c (snd (m s))))" by (rule keepsD)
  then show "I (snd (finallyE m c s))"
    by (auto simp: finallyE_def split: prod.splits sum.splits)
qed

lemma keeps_when [keeps_intros]: "(b \<Longrightarrow> keeps I m) \<Longrightarrow> keeps I (whenE b m)"
  by (simp add: whenE_def keeps_ret)

lemma keeps_if [keeps_intros]: "(b \<Longrightarrow> keeps I m) \<Longrightarrow> (\<not> b \<Longrightarrow> keeps I n) \<Longrightarrow> keeps I (if b then m else n)"
  by simp

lemma keeps_for [keeps_intros]: "(\<And>x. x \<in> set xs \<Longrightarrow> keeps I (f x)) \<Longrightarrow> keeps I (forE xs f)"
  by (induction xs) (simp_all add: keeps_ret keeps_then)

lemma keeps_case_option [keeps_intros]:
  "(x = None \<Longrightarrow> keeps I m) \<Longrightarrow> (\<And>y. x = Some y \<Longrightarrow> keeps I (f y)) \<Longrightarrow>
   keeps I (case x of None \<Rightarrow> m | Some y \<Rightarrow> f y)"
  by (cases x) simp_all

text \<open>A quantity that a computation leaves alone, whatever its outcome.\<close>

definition preserves :: "('s \<Rightarrow> 'v) \<Rightarrow> ('s, 'e, 'a) comp \<Rightarrow> bool" where
  "preserves f m \<longleftrightarrow> (\<forall>v. keeps (\<lambda>s. f s = v) m)"

lemma preservesD: "preserves f m \<Longrightarrow> f (snd (m s)) = f s"
  by (auto simp: preserves_def keeps_def)

lemma preservesI: "(\<And>s. f (snd (m s)) = f s) \<Longrightarrow> preserves f m"
  by (auto simp: preserves_def keeps_def)

named_theorems preserves_intros \<open>compositional rules for preserves\<close>

lemma preserves_ret [preserves_intros]: "preserves f (retE x)"
  and preserves_raise [preserves_intros]: "preserves f (raiseE e)"
  and preserves_get [preserves_intros]: "preserves f (getE g)"
  and preserves_lift [preserves_intros]: "preserves f (liftE r)"
  by (simp_all add: preserves_def keeps_ret keeps_raise keeps_get keeps_lift)

lemma preserves_bind [preserves_intros]:
  "preserves f m \<Longrightarrow> (\<And>x. preserves f (h x)) \<Longrightarrow> preserves f (bindE m h)"
  by (simp add: preserves_def keeps_bind)

lemma preserves_then [preserves_intros]: "preserves f m \<Longrightarrow> preserves f n \<Longrightarrow> preserves f (thenE m n)"
  by (simp add: preserves_def keeps_then)

lemma preserves_try [preserves_intros]:
  "preserves f m \<Longrightarrow> (\<And>e. preserves f (h e)) \<Longrightarrow> preserves f (tryE m h)"
  by (simp add: preserves_def keeps_try)

lemma preserves_finally [preserves_intros]: "preserves f m \<Longrightarrow> preserves f c \<Longrightarrow> preserves f (finallyE m c)"
  by (simp add: preserves_def keeps_finally)

lemma preserves_if [preserves_intros]:
  "(b \<Longrightarrow> preserves f m) \<Longrightarrow> (\<not> b \<Longrightarrow> preserves f n) \<Longrightarrow> preserves f (if b then m else n)"
  by simp

lemma preserves_when [preserves_intros]: "(b \<Longrightarrow> preserves f m) \<Longrightarrow> preserves f (whenE b m)"
  by (simp add: whenE_def preserves_ret)

lemma preserves_option [preserves_intros]:
  "preserves f m \<Longrightarrow> (\<And>y. preserves f (h y)) \<Longrightarrow> preserves f (case x of None \<Rightarrow> m | Some y \<Rightarrow> h y)"
  by (cases x) simp_all

lemma preserves_sum [preserves_intros]:
  "(\<And>y. preserves f (g y)) \<Longrightarrow> (\<And>y. preserves f (h y)) \<Longrightarrow> preserves f (case x of Inl y \<Rightarrow> g y | Inr y \<Rightarrow> h y)"
  by (cases x) simp_all

lemma preserves_for [preserves_intros]: "(\<And>x. x \<in> set xs \<Longrightarrow> preserves f (h x)) \<Longrightarrow> preserves f (forE xs h)"
  by (induction xs) (simp_all add: preserves_ret preserves_then)

lemma preserves_modify: "(\<And>s. f (h s) = f s) \<Longrightarrow> preserves f (modifyE h)"
  by (rule preservesI) (simp add: modifyE_def)

lemma preserves_comp: "preserves f m \<Longrightarrow> preserves (\<lambda>s. h (f s)) m"
  by (rule preservesI) (simp add: preservesD)

text \<open>\<open>quiet m\<close>: the computation never raises.\<close>

definition quiet :: "('s, 'e, 'a) comp \<Rightarrow> bool" where
  "quiet m \<longleftrightarrow> (\<forall>s. \<exists>x. fst (m s) = Inr x)"

lemma quiet_try:
  assumes "\<And>e. quiet (h e)"
  shows "quiet (tryE m h)"
  using assms by (auto simp: quiet_def tryE_def split: prod.splits sum.splits)

section \<open>Running a computation step by step\<close>

lemma bindE_step: "m s = (Inr x, t) \<Longrightarrow> bindE m f s = f x t"
  and bindE_stop: "m s = (Inl e, t) \<Longrightarrow> bindE m f s = (Inl e, t)"
  and thenE_step: "m s = (Inr x, t) \<Longrightarrow> thenE m n s = n t"
  and thenE_stop: "m s = (Inl e, t) \<Longrightarrow> thenE m n s = (Inl e, t)"
  and tryE_ok: "m s = (Inr y, t) \<Longrightarrow> tryE m h s = (Inr y, t)"
  and tryE_catch: "m s = (Inl e, t) \<Longrightarrow> tryE m h s = h e t"
  and finallyE_run: "m s = (r, t) \<Longrightarrow> c t = (Inr (), u) \<Longrightarrow> finallyE m c s = (r, u)"
  by (simp_all add: bindE_def thenE_def tryE_def finallyE_def)

section \<open>Which exceptions a computation can raise\<close>

named_theorems raises_intros \<open>compositional rules for the exceptions a computation raises\<close>

definition raises :: "('e \<Rightarrow> bool) \<Rightarrow> ('s, 'e, 'a) comp \<Rightarrow> bool" where
  "raises P m \<longleftrightarrow> (\<forall>s e. fst (m s) = Inl e \<longrightarrow> P e)"

lemma raisesD: "raises P m \<Longrightarrow> m s = (Inl e, t) \<Longrightarrow> P e"
  by (metis fst_conv raises_def)

lemma raisesI: "(\<And>s e t. m s = (Inl e, t) \<Longrightarrow> P e) \<Longrightarrow> raises P m"
  by (metis prod.collapse raises_def)

lemma raises_ret [raises_intros]: "raises P (retE x)"
  and raises_get [raises_intros]: "raises P (getE f)"
  and raises_modify [raises_intros]: "raises P (modifyE h)"
  by (simp_all add: raises_def retE_def getE_def modifyE_def)

lemma raises_raise: "P e \<Longrightarrow> raises P (raiseE e)"
  by (simp add: raises_def raiseE_def)

lemma raises_bind [raises_intros]: "raises P m \<Longrightarrow> (\<And>x. raises P (f x)) \<Longrightarrow> raises P (bindE m f)"
  by (rule raisesI) (auto simp: bindE_def dest: raisesD split: prod.splits sum.splits)

lemma raises_then [raises_intros]: "raises P m \<Longrightarrow> raises P n \<Longrightarrow> raises P (thenE m n)"
  by (simp add: thenE_def raises_bind)

lemma raises_try:
  assumes "raises Q m" and "\<And>e. Q e \<Longrightarrow> raises P (h e)"
  shows "raises P (tryE m h)"
proof (rule raisesI)
  fix s e t assume "tryE m h s = (Inl e, t)"
  then obtain e' u where "m s = (Inl e', u)" "h e' u = (Inl e, t)"
    by (auto simp: tryE_def split: prod.splits sum.splits)
  then show "P e" using assms by (meson raisesD)
qed

lemma raises_finally [raises_intros]: "raises P m \<Longrightarrow> raises P c \<Longrightarrow> raises P (finallyE m c)"
  by (rule raisesI) (auto simp: finallyE_def dest: raisesD split: prod.splits sum.splits)

lemma raises_if [raises_intros]: "(b \<Longrightarrow> raises P m) \<Longrightarrow> (\<not> b \<Longrightarrow> raises P n) \<Longrightarrow> raises P (if b then m else n)"
  by simp

lemma raises_when [raises_intros]: "(b \<Longrightarrow> raises P m) \<Longrightarrow> raises P (whenE b m)"
  by (simp add: whenE_def raises_ret)

lemma raises_option [raises_intros]:
  "raises P m \<Longrightarrow> (\<And>y. raises P (f y)) \<Longrightarrow> raises P (case x of None \<Rightarrow> m | Some y \<Rightarrow> f y)"
  by (cases x) simp_all

lemma raises_for [raises_intros]: "(\<And>x. x \<in> set xs \<Longrightarrow> raises P (f x)) \<Longrightarrow> raises P (forE xs f)"
  by (induction xs) (simp_all add: raises_ret raises_then)

lemma raises_mono: "raises P m \<Longrightarrow> (\<And>e. P e \<Longrightarrow> Q e) \<Longrightarrow> raises Q m"
  by (auto simp: raises_def)

section \<open>What a computation returns\<close>

definition yields :: "('a \<Rightarrow> bool) \<Rightarrow> ('s, 'e, 'a) comp \<Rightarrow> bool" where
  "yields P m \<longleftrightarrow> (\<forall>s x t. m s = (Inr x, t) \<longrightarrow> P x)"

lemma yields_ret: "P x \<Longrightarrow> yields P (retE x)"
  by (simp add: yields_def retE_def)

lemma yields_raise: "yields P (raiseE e)"
  by (simp add: yields_def raiseE_def)

lemma yields_bind: "(\<And>x. yields P (f x)) \<Longrightarrow> yields P (bindE m f)"
  by (auto simp: yields_def bindE_def split: prod.splits sum.splits)

lemma yields_then: "yields P n \<Longrightarrow> yields P (thenE m n)"
  by (simp add: thenE_def yields_bind)

lemma bindE_cong:
  assumes "yields P m" and "\<And>x. P x \<Longrightarrow> f x = g x"
  shows "bindE m f = bindE m g"
proof (rule ext)
  fix s
  show "bindE m f s = bindE m g s"
  proof (cases "m s")
    case (Pair r t)
    then show ?thesis
    proof (cases r)
      case (Inr x)
      with Pair assms(1) have "P x" by (auto simp: yields_def)
      with Pair Inr show ?thesis using assms(2) by (simp add: bindE_step)
    qed (simp add: bindE_stop)
  qed
qed

section \<open>Lists\<close>

text \<open>The part of a list up to and including its first element with \<open>P\<close>: what a loop
  consumes that stops after such an element.\<close>

fun take_until :: "('a \<Rightarrow> bool) \<Rightarrow> 'a list \<Rightarrow> 'a list" where
  "take_until P [] = []"
| "take_until P (x # xs) = (if P x then [x] else x # take_until P xs)"

lemma take_until_none: "\<forall>x \<in> set xs. \<not> P x \<Longrightarrow> take_until P xs = xs"
  by (induction xs) auto

lemma take_until_append:
  "take_until P (xs @ ys) = (if \<exists>x \<in> set xs. P x then take_until P xs else xs @ take_until P ys)"
  by (induction xs) auto

lemma prefix_take_until: "prefix (take_until P xs) xs"
  by (induction xs) (auto simp: prefix_def)

lemma take_until_last: "\<exists>x \<in> set xs. P x \<Longrightarrow> take_until P xs \<noteq> [] \<and> P (last (take_until P xs))"
  by (induction xs) auto

text \<open>Replacing the rows of a table that satisfy a condition: \<open>UPDATE ... WHERE\<close>.\<close>

definition update_where :: "('a \<Rightarrow> bool) \<Rightarrow> ('a \<Rightarrow> 'a) \<Rightarrow> 'a list \<Rightarrow> 'a list" where
  "update_where P f xs = map (\<lambda>x. if P x then f x else x) xs"

lemma length_update_where [simp]: "length (update_where P f xs) = length xs"
  by (simp add: update_where_def)

lemma map_update_where:
  "(\<And>x. P x \<Longrightarrow> g (f x) = g x) \<Longrightarrow> map g (update_where P f xs) = map g xs"
  by (simp add: update_where_def)

lemma set_update_where: "set (update_where P f xs) = f ` {x \<in> set xs. P x} \<union> {x \<in> set xs. \<not> P x}"
  by (auto simp: update_where_def)

lemma find_update_where:
  assumes "\<And>x. P x \<Longrightarrow> Q (f x) = Q x"
  shows "find Q (update_where P f xs) = map_option (\<lambda>x. if P x then f x else x) (find Q xs)"
  using assms by (induction xs) (auto simp: update_where_def)

lemma update_where_Nil [simp]: "update_where P f [] = []"
  by (simp add: update_where_def)

lemma update_where_append [simp]: "update_where P f (xs @ ys) = update_where P f xs @ update_where P f ys"
  by (simp add: update_where_def)

lemma find_append: "find P (xs @ ys) = (case find P xs of None \<Rightarrow> find P ys | Some x \<Rightarrow> Some x)"
  by (induction xs) auto

lemma find_holds: "find P xs = Some x \<Longrightarrow> P x"
  by (induction xs) (auto split: if_splits)

lemma find_key_SomeD: "find (\<lambda>x. k x = v) xs = Some r \<Longrightarrow> k r = v \<and> r \<in> set xs"
  by (induction xs) (auto split: if_splits)

lemma find_key_None: "find (\<lambda>x. k x = v) xs = None \<longleftrightarrow> v \<notin> k ` set xs"
  by (auto simp: find_None_iff)

lemma find_key_unique:
  "distinct (map k xs) \<Longrightarrow> r \<in> set xs \<Longrightarrow> find (\<lambda>x. k x = k r) xs = Some r"
  by (induction xs) (auto simp: rev_image_eqI)

lemma find_and: "find P xs = Some x \<Longrightarrow> Q x \<Longrightarrow> find (\<lambda>y. P y \<and> Q y) xs = Some x"
  by (induction xs) (auto split: if_splits)

text \<open>Python's \<open>dict\<close> keeps insertion order: an assignment to a present key keeps its place.\<close>

fun dict_set :: "'k \<Rightarrow> 'v \<Rightarrow> ('k \<times> 'v) list \<Rightarrow> ('k \<times> 'v) list" where
  "dict_set k v [] = [(k, v)]"
| "dict_set k v ((a, b) # ps) = (if a = k then (k, v) # ps else (a, b) # dict_set k v ps)"

definition dict_pop :: "'k \<Rightarrow> ('k \<times> 'v) list \<Rightarrow> ('k \<times> 'v) list" where
  "dict_pop k ps = filter (\<lambda>p. fst p \<noteq> k) ps"

lemma map_of_dict_set [simp]: "map_of (dict_set k v ps) = (map_of ps)(k \<mapsto> v)"
  by (induction ps) auto

lemma map_of_dict_pop [simp]: "map_of (dict_pop k ps) = (map_of ps)(k := None)"
  by (induction ps) (auto simp: dict_pop_def fun_eq_iff)

lemma keys_dict_set: "fst ` set (dict_set k v ps) = insert k (fst ` set ps)"
proof (induction ps)
  case (Cons p ps)
  then show ?case by (cases p) (simp add: insert_commute)
qed simp

lemma distinct_dict_set: "distinct (map fst ps) \<Longrightarrow> distinct (map fst (dict_set k v ps))"
proof (induction ps)
  case (Cons p ps)
  have "set (map fst (dict_set k v ps)) = insert k (set (map fst ps))"
    using keys_dict_set [of k v ps] by simp
  with Cons show ?case by (cases p) auto
qed simp

lemma distinct_dict_pop: "distinct (map fst ps) \<Longrightarrow> distinct (map fst (dict_pop k ps))"
  by (simp add: dict_pop_def distinct_map_filter)

lemma length_dict_set: "length (dict_set k v ps) = (if k \<in> fst ` set ps then length ps else Suc (length ps))"
proof (induction ps)
  case (Cons p ps)
  then show ?case by (cases p) (simp split: if_splits)
qed simp

end
