(* ===== verification/Py_Strings.thy ===== *)
theory Py_Strings
  imports Worker_Prelude "HOL-Library.Char_ord"
begin

text \<open>
  The Python string operations the worker uses. A \<open>str\<close> is a list of characters; the case
  and white-space operations are those of ASCII, and a code point above 127 is carried as its
  UTF-8 bytes, which they leave alone. \<open>int(s)\<close> and \<open>str(n)\<close> are written out, and
  \<open>int(str(n)) = n\<close> is proved, because the event cursors travel as strings.
\<close>

section \<open>Case, white space, prefixes\<close>

definition is_upper :: "char \<Rightarrow> bool" where
  "is_upper c \<longleftrightarrow> 65 \<le> (of_char c :: nat) \<and> (of_char c :: nat) \<le> 90"

definition is_lower :: "char \<Rightarrow> bool" where
  "is_lower c \<longleftrightarrow> 97 \<le> (of_char c :: nat) \<and> (of_char c :: nat) \<le> 122"

definition is_digit :: "char \<Rightarrow> bool" where
  "is_digit c \<longleftrightarrow> 48 \<le> (of_char c :: nat) \<and> (of_char c :: nat) \<le> 57"

definition is_space :: "char \<Rightarrow> bool" where
  "is_space c \<longleftrightarrow> (let n = (of_char c :: nat) in (9 \<le> n \<and> n \<le> 13) \<or> (28 \<le> n \<and> n \<le> 32))"

definition lower_char :: "char \<Rightarrow> char" where
  "lower_char c = (if is_upper c then char_of ((of_char c :: nat) + 32) else c)"

definition upper_char :: "char \<Rightarrow> char" where
  "upper_char c = (if is_lower c then char_of ((of_char c :: nat) - 32) else c)"

definition str_lower :: "string \<Rightarrow> string" where
  "str_lower s = map lower_char s"

definition str_upper :: "string \<Rightarrow> string" where
  "str_upper s = map upper_char s"

definition lstrip :: "string \<Rightarrow> string" where
  "lstrip s = dropWhile is_space s"

definition str_strip :: "string \<Rightarrow> string" where
  "str_strip s = rev (dropWhile is_space (rev (dropWhile is_space s)))"

definition starts_with :: "string \<Rightarrow> string \<Rightarrow> bool" where
  "starts_with p s \<longleftrightarrow> take (length p) s = p"

definition ends_with :: "string \<Rightarrow> string \<Rightarrow> bool" where
  "ends_with p s \<longleftrightarrow> starts_with (rev p) (rev s)"

lemma length_str_lower [simp]: "length (str_lower s) = length s"
  by (simp add: str_lower_def)

lemma lower_char_idem [simp]: "lower_char (lower_char c) = lower_char c"
  by (simp add: lower_char_def is_upper_def)

lemma str_lower_idem [simp]: "str_lower (str_lower s) = str_lower s"
  by (simp add: str_lower_def)

lemma starts_with_append [simp]: "starts_with p (p @ s)"
  by (simp add: starts_with_def)

lemma starts_with_iff: "starts_with p s \<longleftrightarrow> (\<exists>t. s = p @ t)"
  unfolding starts_with_def by (metis append_take_drop_id append_eq_conv_conj)

lemma is_space_lower [simp]: "is_space (lower_char c) = is_space c"
  by (simp add: lower_char_def is_space_def is_upper_def Let_def)

lemma dropWhile_map_lower: "dropWhile is_space (map lower_char s) = map lower_char (dropWhile is_space s)"
  by (induction s) simp_all

lemma str_strip_lower: "str_strip (str_lower s) = str_lower (str_strip s)"
  by (simp add: str_strip_def str_lower_def rev_map dropWhile_map_lower)

lemma dropWhile_rev_hd:
  "dropWhile P s = s \<Longrightarrow> dropWhile P (rev (dropWhile P (rev s))) = rev (dropWhile P (rev s))"
proof (induction s rule: rev_induct)
  case (snoc x xs)
  show ?case
  proof (cases "P x")
    case True
    from snoc.prems have "dropWhile P xs = xs"
      by (metis append_Nil2 append_is_Nil_conv dropWhile_append dropWhile_eq_self_iff hd_append
          not_Cons_self2 True list.sel(1))
    with snoc.IH True show ?thesis by simp
  next
    case False
    with snoc.prems show ?thesis by simp
  qed
qed simp

lemma str_strip_idem [simp]: "str_strip (str_strip s) = str_strip s"
proof -
  have "dropWhile is_space (dropWhile is_space s) = dropWhile is_space s" by simp
  then have "dropWhile is_space (rev (dropWhile is_space (rev (dropWhile is_space s))))
      = rev (dropWhile is_space (rev (dropWhile is_space s)))"
    by (rule dropWhile_rev_hd)
  then show ?thesis by (simp add: str_strip_def)
qed

section \<open>Splitting\<close>

text \<open>\<open>s.split(c)\<close>, \<open>s.split(c, 1)\<close> and \<open>s.rsplit(c, 1)\<close> for a one-character separator.\<close>

fun str_split :: "char \<Rightarrow> string \<Rightarrow> string list" where
  "str_split c [] = [[]]"
| "str_split c (x # xs) =
     (if x = c then [] # str_split c xs
      else (case str_split c xs of [] \<Rightarrow> [[x]] | y # ys \<Rightarrow> (x # y) # ys))"

definition str_split1 :: "char \<Rightarrow> string \<Rightarrow> string \<times> string" where
  "str_split1 c s = (takeWhile (\<lambda>x. x \<noteq> c) s, drop 1 (dropWhile (\<lambda>x. x \<noteq> c) s))"

definition str_rsplit1 :: "char \<Rightarrow> string \<Rightarrow> string \<times> string" where
  "str_rsplit1 c s = (case str_split1 c (rev s) of (b, a) \<Rightarrow> (rev a, rev b))"

definition str_contains :: "char \<Rightarrow> string \<Rightarrow> bool" where
  "str_contains c s \<longleftrightarrow> c \<in> set s"

lemma dropWhile_to: "c \<in> set s \<Longrightarrow> \<exists>d. dropWhile (\<lambda>x. x \<noteq> c) s = c # d"
proof (induction s)
  case (Cons x s)
  then show ?case by (cases "x = c") simp_all
qed simp

lemma str_split1_join: "str_contains c s \<Longrightarrow> str_split1 c s = (a, b) \<Longrightarrow> s = a @ c # b"
proof -
  assume c: "str_contains c s" and eq: "str_split1 c s = (a, b)"
  from c obtain d where d: "dropWhile (\<lambda>x. x \<noteq> c) s = c # d"
    using dropWhile_to [of c s] by (auto simp: str_contains_def)
  from takeWhile_dropWhile_id [of "\<lambda>x. x \<noteq> c" s] d eq show ?thesis
    by (simp add: str_split1_def)
qed

lemma str_split1_first: "str_split1 c s = (a, b) \<Longrightarrow> c \<notin> set a"
  by (auto simp: str_split1_def dest: set_takeWhileD)

fun str_join :: "string \<Rightarrow> string list \<Rightarrow> string" where
  "str_join sep [] = []"
| "str_join sep [s] = s"
| "str_join sep (s # t # ss) = s @ sep @ str_join sep (t # ss)"

lemma str_join_empty: "str_join [] ss = concat ss"
  by (induction "[] :: string" ss rule: str_join.induct) simp_all

section \<open>Integers and their decimal text\<close>

definition digit_char :: "nat \<Rightarrow> char" where
  "digit_char d = char_of (48 + d)"

definition digit_val :: "char \<Rightarrow> nat" where
  "digit_val c = of_char c - 48"

fun show_nat :: "nat \<Rightarrow> string" where
  "show_nat n = (if n < 10 then [digit_char n] else show_nat (n div 10) @ [digit_char (n mod 10)])"

declare show_nat.simps [simp del]

definition show_int :: "int \<Rightarrow> string" where
  "show_int n = (if n < 0 then CHR ''-'' # show_nat (nat (- n)) else show_nat (nat n))"

definition read_digits :: "nat \<Rightarrow> string \<Rightarrow> nat" where
  "read_digits acc ds = foldl (\<lambda>a c. 10 * a + digit_val c) acc ds"

text \<open>\<open>int(s)\<close> strips white space, takes one sign, and allows single underscores between
  digits; anything else is a \<open>ValueError\<close>, here \<open>None\<close>.\<close>

fun digits_ok :: "string \<Rightarrow> bool" where
  "digits_ok [] = False"
| "digits_ok [c] = is_digit c"
| "digits_ok (c # d # ds) =
     (is_digit c \<and> (if d = CHR ''_'' then digits_ok ds else digits_ok (d # ds)))"

definition py_nat :: "string \<Rightarrow> nat option" where
  "py_nat s = (if digits_ok s then Some (read_digits 0 (filter is_digit s)) else None)"

definition py_int :: "string \<Rightarrow> int option" where
  "py_int s =
     (case str_strip s of
        [] \<Rightarrow> None
      | c # cs \<Rightarrow>
          if c = CHR ''-'' then map_option (\<lambda>n. - int n) (py_nat cs)
          else if c = CHR ''+'' then map_option int (py_nat cs)
          else map_option int (py_nat (c # cs)))"

lemma of_char_digit_char [simp]: "d < 10 \<Longrightarrow> of_char (digit_char d) = (48 + d :: nat)"
  by (simp add: digit_char_def)

lemma is_digit_digit_char [simp]: "d < 10 \<Longrightarrow> is_digit (digit_char d)"
  by (simp add: is_digit_def)

lemma digit_val_digit_char [simp]: "d < 10 \<Longrightarrow> digit_val (digit_char d) = d"
  by (simp add: digit_val_def)

lemma show_nat_digits: "\<forall>c \<in> set (show_nat n). is_digit c"
proof (induction n rule: show_nat.induct)
  case (1 n)
  then show ?case by (subst show_nat.simps) auto
qed

lemma show_nat_nonempty [simp]: "show_nat n \<noteq> []"
  by (subst show_nat.simps) simp

lemma read_digits_append: "read_digits a (xs @ ys) = read_digits (read_digits a xs) ys"
  by (simp add: read_digits_def)

lemma read_digits_show_nat: "read_digits 0 (show_nat n) = n"
proof (induction n rule: show_nat.induct)
  case (1 n)
  show ?case
  proof (cases "n < 10")
    case True
    then show ?thesis by (subst show_nat.simps) (simp add: read_digits_def)
  next
    case False
    with 1 have "read_digits 0 (show_nat (n div 10)) = n div 10" by simp
    with False show ?thesis
      by (subst show_nat.simps) (simp add: read_digits_append, simp add: read_digits_def)
  qed
qed

lemma not_digit_underscore: "is_digit c \<Longrightarrow> c \<noteq> CHR ''_''"
  by (auto simp: is_digit_def)

lemma digits_ok_all: "ds \<noteq> [] \<Longrightarrow> \<forall>c \<in> set ds. is_digit c \<Longrightarrow> digits_ok ds"
  by (induction ds rule: digits_ok.induct) (auto dest: not_digit_underscore)

lemma py_nat_show_nat: "py_nat (show_nat n) = Some n"
proof -
  have "filter is_digit (show_nat n) = show_nat n"
    using show_nat_digits by (simp add: filter_id_conv)
  then show ?thesis
    using digits_ok_all [OF show_nat_nonempty show_nat_digits]
    by (simp add: py_nat_def read_digits_show_nat)
qed

lemma is_digit_not_space: "is_digit c \<Longrightarrow> \<not> is_space c"
  by (auto simp: is_digit_def is_space_def Let_def)

lemma minus_not_space: "\<not> is_space (CHR ''-'')"
  by (simp add: is_space_def Let_def)

lemma str_strip_no_space: "\<forall>c \<in> set s. \<not> is_space c \<Longrightarrow> str_strip s = s"
  by (simp add: str_strip_def dropWhile_eq_self_iff)
     (metis dropWhile_eq_self_iff hd_in_set rev_is_Nil_conv rev_rev_ident set_rev)

lemma is_digit_not_sign: "is_digit c \<Longrightarrow> c \<noteq> CHR ''-'' \<and> c \<noteq> CHR ''+''"
  by (auto simp: is_digit_def)

theorem py_int_show_int: "py_int (show_int n) = Some n"
proof (cases "n < 0")
  case True
  have "\<forall>c \<in> set (CHR ''-'' # show_nat (nat (- n))). \<not> is_space c"
    using show_nat_digits [of "nat (- n)"] is_digit_not_space by (auto simp: minus_not_space)
  with True show ?thesis
    by (simp add: py_int_def show_int_def str_strip_no_space py_nat_show_nat)
next
  case False
  obtain c cs where s: "show_nat (nat n) = c # cs" by (meson neq_Nil_conv show_nat_nonempty)
  have d: "\<forall>c \<in> set (show_nat (nat n)). is_digit c" by (rule show_nat_digits)
  then have "str_strip (show_nat (nat n)) = show_nat (nat n)"
    by (intro str_strip_no_space) (auto simp: is_digit_not_space)
  moreover from d s have "c \<noteq> CHR ''-'' \<and> c \<noteq> CHR ''+''"
    by (simp add: is_digit_not_sign)
  ultimately show ?thesis
    using False s py_nat_show_nat [of "nat n"] by (simp add: py_int_def show_int_def)
qed

lemma show_int_inj: "show_int m = show_int n \<Longrightarrow> m = n"
  by (metis option.inject py_int_show_int)

end
