(* ===== verification/Py_Json.thy ===== *)
theory Py_Json
  imports Py_Strings Complex_Main
begin

text \<open>
  The JSON values that opencode sends and the worker stores, as Python sees them after
  \<open>json.loads\<close>: dictionaries are association lists in insertion order. \<open>isinstance\<close>
  tests are pattern matches, \<open>a or b\<close> is \<open>py_or\<close>, \<open>d.get(k, x)\<close> is \<open>dict_get\<close>.

  A TEXT column that holds JSON is a \<open>json_text\<close>: either the text some JSON value
  serialises to, or a text that \<open>json.loads\<close> refuses.
\<close>

datatype json =
    JNull
  | JBool bool
  | JInt int
  | JFloat real
  | JStr string
  | JList "json list"
  | JObj "(string \<times> json) list"

datatype json_text = JText json | NotJson string

text \<open>An environment variable: a plain text, or the text \<open>json.dumps\<close> makes of a value.\<close>

datatype env_value = Env_text string | Env_json json

definition json_dumps :: "json \<Rightarrow> json_text" where
  "json_dumps v = JText v"

definition json_loads :: "json_text \<Rightarrow> json option" where
  "json_loads t = (case t of JText v \<Rightarrow> Some v | NotJson _ \<Rightarrow> None)"

lemma json_loads_dumps [simp]: "json_loads (json_dumps v) = Some v"
  by (simp add: json_loads_def json_dumps_def)

fun py_truthy :: "json \<Rightarrow> bool" where
  "py_truthy JNull = False"
| "py_truthy (JBool b) = b"
| "py_truthy (JInt n) = (n \<noteq> 0)"
| "py_truthy (JFloat r) = (r \<noteq> 0)"
| "py_truthy (JStr s) = (s \<noteq> [])"
| "py_truthy (JList xs) = (xs \<noteq> [])"
| "py_truthy (JObj kvs) = (kvs \<noteq> [])"

definition py_or :: "json \<Rightarrow> json \<Rightarrow> json" where
  "py_or a b = (if py_truthy a then a else b)"

definition dict_get :: "(string \<times> json) list \<Rightarrow> string \<Rightarrow> json \<Rightarrow> json" where
  "dict_get d k dflt = (case map_of d k of None \<Rightarrow> dflt | Some v \<Rightarrow> v)"

fun is_dict :: "json \<Rightarrow> bool" where
  "is_dict (JObj _) = True"
| "is_dict _ = False"

fun obj_of :: "json \<Rightarrow> (string \<times> json) list" where
  "obj_of (JObj kvs) = kvs"
| "obj_of _ = []"

fun str_of :: "json \<Rightarrow> string" where
  "str_of (JStr s) = s"
| "str_of _ = []"

lemma py_or_simps [simp]:
  "py_or JNull b = b"
  "py_or (JStr (c # s)) b = JStr (c # s)"
  "py_or (JStr []) b = b"
  by (simp_all add: py_or_def)

lemma dict_get_Nil [simp]: "dict_get [] k x = x"
  by (simp add: dict_get_def)

lemma dict_get_Cons [simp]: "dict_get ((a, v) # d) k x = (if a = k then v else dict_get d k x)"
  by (simp add: dict_get_def)

lemma py_truthy_JStr_iff: "py_truthy (JStr s) \<longleftrightarrow> s \<noteq> []"
  by simp

section \<open>Floats read from text\<close>

text \<open>\<open>float(s)\<close> of a finite decimal: a sign, digits with an optional point, an optional
  exponent. The value is the exact decimal; the rounding to 53 bits is not modelled.\<close>

definition digits_opt :: "string \<Rightarrow> bool" where
  "digits_opt s \<longleftrightarrow> s = [] \<or> digits_ok s"

definition py_mantissa :: "string \<Rightarrow> real option" where
  "py_mantissa s =
     (case str_split1 CHR ''.'' s of
        (a, b) \<Rightarrow> if (a = [] \<and> b = []) \<or> \<not> digits_opt a \<or> \<not> digits_opt b then None
                 else Some (real (read_digits 0 (filter is_digit a)) +
                            real (read_digits 0 (filter is_digit b)) / 10 ^ length (filter is_digit b)))"

definition py_unsigned_float :: "string \<Rightarrow> real option" where
  "py_unsigned_float s =
     (case str_split1 CHR ''e'' (str_lower s) of
        (m, e) \<Rightarrow>
          (case py_mantissa m of None \<Rightarrow> None
           | Some r \<Rightarrow>
               if \<not> str_contains CHR ''e'' (str_lower s) then Some r
               else if e = [] \<or> is_space (hd e) \<or> is_space (last e) then None
               else (case py_int e of None \<Rightarrow> None
                     | Some n \<Rightarrow> Some (if n \<ge> 0 then r * 10 ^ nat n else r / 10 ^ nat (- n)))))"

definition py_float :: "string \<Rightarrow> real option" where
  "py_float s =
     (case str_strip s of
        [] \<Rightarrow> None
      | c # cs \<Rightarrow>
          if c = CHR ''-'' then map_option uminus (py_unsigned_float cs)
          else if c = CHR ''+'' then py_unsigned_float cs
          else py_unsigned_float (c # cs))"

definition py_trunc :: "real \<Rightarrow> int" where
  "py_trunc r = (if r \<ge> 0 then \<lfloor>r\<rfloor> else \<lceil>r\<rceil>)"

end
