(* ===== verification/Contract.thy ===== *)
theory Contract
  imports Py_Json
begin

text \<open>
  The contract schemas of \<open>src/worker/contract\<close>: task modes and states, events, decisions,
  artifacts, the request and response bodies with their pydantic defaults, and the exceptions
  a task can end with. Every \<open>str\<close> enum has its \<open>value\<close> and the lookup by value that
  \<open>TaskStatus(s)\<close> performs; the lookup inverts the value.
\<close>

type_synonym timestamp = real

named_theorems enum_values \<open>values of the string enums\<close>

definition enum_of :: "('a \<Rightarrow> string) \<Rightarrow> 'a list \<Rightarrow> string \<Rightarrow> 'a option" where
  "enum_of val xs s = find (\<lambda>x. val x = s) xs"

lemma enum_of_value: "distinct (map val xs) \<Longrightarrow> x \<in> set xs \<Longrightarrow> enum_of val xs (val x) = Some x"
  by (simp add: enum_of_def find_key_unique)

lemma enum_of_Some: "enum_of val xs s = Some x \<Longrightarrow> val x = s"
  by (auto simp: enum_of_def dest: find_key_SomeD)

section \<open>Tasks\<close>

datatype task_mode = M_plan_first | M_direct_execute

fun task_mode_value :: "task_mode \<Rightarrow> string" where
  "task_mode_value M_plan_first = ''plan_first''"
| "task_mode_value M_direct_execute = ''direct_execute''"

definition task_mode_of :: "string \<Rightarrow> task_mode option" where
  "task_mode_of = enum_of task_mode_value [M_plan_first, M_direct_execute]"

datatype task_status =
    S_pending | S_queued | S_preparing_workspace | S_starting_container | S_starting_opencode
  | S_planning | S_awaiting_human | S_revising | S_executing | S_collecting_artifacts
  | S_completed | S_failed | S_aborted | S_timed_out

fun task_status_value :: "task_status \<Rightarrow> string" where
  "task_status_value S_pending = ''pending''"
| "task_status_value S_queued = ''queued''"
| "task_status_value S_preparing_workspace = ''preparing_workspace''"
| "task_status_value S_starting_container = ''starting_container''"
| "task_status_value S_starting_opencode = ''starting_opencode''"
| "task_status_value S_planning = ''planning''"
| "task_status_value S_awaiting_human = ''awaiting_human''"
| "task_status_value S_revising = ''revising''"
| "task_status_value S_executing = ''executing''"
| "task_status_value S_collecting_artifacts = ''collecting_artifacts''"
| "task_status_value S_completed = ''completed''"
| "task_status_value S_failed = ''failed''"
| "task_status_value S_aborted = ''aborted''"
| "task_status_value S_timed_out = ''timed_out''"

definition all_task_status :: "task_status list" where
  "all_task_status =
     [S_pending, S_queued, S_preparing_workspace, S_starting_container, S_starting_opencode,
      S_planning, S_awaiting_human, S_revising, S_executing, S_collecting_artifacts,
      S_completed, S_failed, S_aborted, S_timed_out]"

definition task_status_of :: "string \<Rightarrow> task_status option" where
  "task_status_of = enum_of task_status_value all_task_status"

definition TERMINAL_STATUSES :: "task_status set" where
  "TERMINAL_STATUSES = {S_completed, S_failed, S_aborted, S_timed_out}"

text \<open>The states in the order the life cycle lists them; the four terminal ones come last.\<close>

fun status_rank :: "task_status \<Rightarrow> nat" where
  "status_rank S_pending = 0"
| "status_rank S_queued = 1"
| "status_rank S_preparing_workspace = 2"
| "status_rank S_starting_container = 3"
| "status_rank S_starting_opencode = 4"
| "status_rank S_planning = 5"
| "status_rank S_awaiting_human = 6"
| "status_rank S_revising = 7"
| "status_rank S_executing = 8"
| "status_rank S_collecting_artifacts = 9"
| "status_rank S_completed = 10"
| "status_rank S_failed = 11"
| "status_rank S_aborted = 12"
| "status_rank S_timed_out = 13"

lemma status_rank_inj: "status_rank s = status_rank t \<Longrightarrow> s = t"
  by (cases s; cases t; simp)

instantiation task_status :: linorder
begin

definition less_eq_task_status :: "task_status \<Rightarrow> task_status \<Rightarrow> bool" where
  "less_eq_task_status s t \<longleftrightarrow> status_rank s \<le> status_rank t"

definition less_task_status :: "task_status \<Rightarrow> task_status \<Rightarrow> bool" where
  "less_task_status s t \<longleftrightarrow> status_rank s < status_rank t"

instance
  by standard (auto simp: less_eq_task_status_def less_task_status_def dest: status_rank_inj)

end

lemma terminal_iff_rank: "s \<in> TERMINAL_STATUSES \<longleftrightarrow> S_completed \<le> s"
  by (cases s) (simp_all add: TERMINAL_STATUSES_def less_eq_task_status_def)

lemma all_task_status_complete [simp]: "s \<in> set all_task_status"
  by (cases s) (simp_all add: all_task_status_def)

lemma task_status_of_value [enum_values, simp]: "task_status_of (task_status_value s) = Some s"
  unfolding task_status_of_def by (rule enum_of_value) (simp_all add: all_task_status_def, cases s, simp_all)

lemma task_status_of_Some: "task_status_of s = Some t \<Longrightarrow> task_status_value t = s"
  unfolding task_status_of_def by (rule enum_of_Some)

lemma task_status_value_inj [simp]: "task_status_value s = task_status_value t \<longleftrightarrow> s = t"
  by (metis option.inject task_status_of_value)

lemma task_mode_of_value [enum_values, simp]: "task_mode_of (task_mode_value m) = Some m"
  by (cases m) (simp_all add: task_mode_of_def enum_of_def)

section \<open>Requests\<close>

record message =
  msg_role :: string
  msg_content :: string

record git_spec =
  git_url :: string
  git_sha :: string
  git_subpath :: "string option"

record workspace_spec =
  ws_kind :: string
  ws_tarball_url :: "string option"
  ws_tarball_inline_b64 :: "string option"
  ws_git :: "git_spec option"
  ws_local_path :: "string option"

definition default_workspace :: workspace_spec where
  "default_workspace = \<lparr>ws_kind = ''empty'', ws_tarball_url = None, ws_tarball_inline_b64 = None,
     ws_git = None, ws_local_path = None\<rparr>"

datatype permission_template = P_plan_first_default | P_direct_execute_default | P_custom

fun permission_template_value :: "permission_template \<Rightarrow> string" where
  "permission_template_value P_plan_first_default = ''plan_first_default''"
| "permission_template_value P_direct_execute_default = ''direct_execute_default''"
| "permission_template_value P_custom = ''custom''"

record interceptor_config =
  icfg_name :: string
  icfg_options :: "(string \<times> json) list"

record opencode_profile =
  prof_model :: string
  prof_permission_template :: permission_template
  prof_permission_overrides :: "(string \<times> json) list"
  prof_providers :: "string list"
  prof_provider_extra_config :: "(string \<times> (string \<times> json) list) list"
  prof_interceptors :: "interceptor_config list"

definition default_profile :: opencode_profile where
  "default_profile = \<lparr>prof_model = ''anthropic/claude-opus-4-5'',
     prof_permission_template = P_plan_first_default, prof_permission_overrides = [],
     prof_providers = [], prof_provider_extra_config = [], prof_interceptors = []\<rparr>"

record env_policy =
  env_provider_keys :: "string list"
  env_extra_env :: "(string \<times> string) list"

definition default_env_policy :: env_policy where
  "default_env_policy = \<lparr>env_provider_keys = [], env_extra_env = []\<rparr>"

record resource_limits =
  lim_cpu :: string
  lim_memory :: string
  lim_pids :: int
  lim_timeout_sec :: int

definition default_limits :: resource_limits where
  "default_limits = \<lparr>lim_cpu = ''2'', lim_memory = ''4Gi'', lim_pids = 512, lim_timeout_sec = 1800\<rparr>"

record hitl_policy =
  hitl_decision_timeout_sec :: int
  hitl_on_timeout :: string
  hitl_auto_approve :: "string list"

definition default_hitl :: hitl_policy where
  "default_hitl = \<lparr>hitl_decision_timeout_sec = 600, hitl_on_timeout = ''abort'', hitl_auto_approve = []\<rparr>"

record broker_policy =
  bp_allow_egress_hosts :: "string list"
  bp_mcp_servers :: "json list"

definition default_broker_policy :: broker_policy where
  "default_broker_policy = \<lparr>bp_allow_egress_hosts = [], bp_mcp_servers = []\<rparr>"

record task_metadata =
  meta_trace_id :: "string option"
  meta_tenant_hint :: "string option"
  meta_extra :: "(string \<times> json) list"

definition default_metadata :: task_metadata where
  "default_metadata = \<lparr>meta_trace_id = None, meta_tenant_hint = None, meta_extra = []\<rparr>"

record task_request =
  rq_task_id :: string
  rq_mode :: task_mode
  rq_messages :: "message list"
  rq_workspace :: workspace_spec
  rq_profile :: opencode_profile
  rq_env_policy :: env_policy
  rq_limits :: resource_limits
  rq_hitl :: hitl_policy
  rq_broker :: broker_policy
  rq_metadata :: task_metadata

definition minimal_request :: "string \<Rightarrow> task_mode \<Rightarrow> message list \<Rightarrow> task_request" where
  "minimal_request tid mode msgs = \<lparr>rq_task_id = tid, rq_mode = mode, rq_messages = msgs,
     rq_workspace = default_workspace, rq_profile = default_profile,
     rq_env_policy = default_env_policy, rq_limits = default_limits, rq_hitl = default_hitl,
     rq_broker = default_broker_policy, rq_metadata = default_metadata\<rparr>"

record task_response =
  rs_task_id :: string
  rs_status :: task_status
  rs_mode :: task_mode
  rs_created_at :: timestamp
  rs_updated_at :: timestamp
  rs_completed_at :: "timestamp option"
  rs_container_id :: "string option"
  rs_session_id :: "string option"

section \<open>Events\<close>

datatype event_kind =
    K_task_created | K_task_queued | K_task_started | K_container_started | K_opencode_ready
  | K_assistant_delta | K_tool_call_started | K_tool_call_finished | K_plan_ready
  | K_hitl_required | K_hitl_timeout | K_decision_received | K_execution_started
  | K_artifact_ready | K_task_completed | K_task_failed | K_task_aborted | K_task_timed_out
  | K_mode_escalation_suggested | K_heartbeat

fun event_kind_value :: "event_kind \<Rightarrow> string" where
  "event_kind_value K_task_created = ''task_created''"
| "event_kind_value K_task_queued = ''task_queued''"
| "event_kind_value K_task_started = ''task_started''"
| "event_kind_value K_container_started = ''container_started''"
| "event_kind_value K_opencode_ready = ''opencode_ready''"
| "event_kind_value K_assistant_delta = ''assistant_delta''"
| "event_kind_value K_tool_call_started = ''tool_call_started''"
| "event_kind_value K_tool_call_finished = ''tool_call_finished''"
| "event_kind_value K_plan_ready = ''plan_ready''"
| "event_kind_value K_hitl_required = ''hitl_required''"
| "event_kind_value K_hitl_timeout = ''hitl_timeout''"
| "event_kind_value K_decision_received = ''decision_received''"
| "event_kind_value K_execution_started = ''execution_started''"
| "event_kind_value K_artifact_ready = ''artifact_ready''"
| "event_kind_value K_task_completed = ''task_completed''"
| "event_kind_value K_task_failed = ''task_failed''"
| "event_kind_value K_task_aborted = ''task_aborted''"
| "event_kind_value K_task_timed_out = ''task_timed_out''"
| "event_kind_value K_mode_escalation_suggested = ''mode_escalation_suggested''"
| "event_kind_value K_heartbeat = ''heartbeat''"

definition all_event_kinds :: "event_kind list" where
  "all_event_kinds =
     [K_task_created, K_task_queued, K_task_started, K_container_started, K_opencode_ready,
      K_assistant_delta, K_tool_call_started, K_tool_call_finished, K_plan_ready,
      K_hitl_required, K_hitl_timeout, K_decision_received, K_execution_started,
      K_artifact_ready, K_task_completed, K_task_failed, K_task_aborted, K_task_timed_out,
      K_mode_escalation_suggested, K_heartbeat]"

definition event_kind_of :: "string \<Rightarrow> event_kind option" where
  "event_kind_of = enum_of event_kind_value all_event_kinds"

definition TERMINAL_EVENT_KINDS :: "event_kind set" where
  "TERMINAL_EVENT_KINDS = {K_task_completed, K_task_failed, K_task_aborted, K_task_timed_out}"

lemma event_kind_of_value [enum_values, simp]: "event_kind_of (event_kind_value k) = Some k"
  unfolding event_kind_of_def by (rule enum_of_value) (simp_all add: all_event_kinds_def, cases k, simp_all)

lemma event_kind_of_Some: "event_kind_of s = Some k \<Longrightarrow> event_kind_value k = s"
  unfolding event_kind_of_def by (rule enum_of_Some)

lemma event_kind_value_inj [simp]: "event_kind_value j = event_kind_value k \<longleftrightarrow> j = k"
  by (metis event_kind_of_value option.inject)

record task_event =
  ev_event_id :: int
  ev_task_id :: string
  ev_ts :: timestamp
  ev_kind :: event_kind
  ev_payload :: json
  ev_cursor :: int

text \<open>\<open>TaskEvent._fill_defaults\<close>: a zero time stamp becomes the current time, a zero cursor
  the event id.\<close>

definition fill_defaults :: "timestamp \<Rightarrow> task_event \<Rightarrow> task_event" where
  "fill_defaults now ev =
     (let ev1 = (if ev_ts ev = 0 then ev\<lparr>ev_ts := now\<rparr> else ev)
      in if ev_cursor ev1 = 0 then ev1\<lparr>ev_cursor := ev_event_id ev1\<rparr> else ev1)"

section \<open>Decisions\<close>

datatype decision_kind =
    DK_plan_approval | DK_tool_permission | DK_file_write | DK_broker_egress
  | DK_continue_long_task | DK_custom

fun decision_kind_value :: "decision_kind \<Rightarrow> string" where
  "decision_kind_value DK_plan_approval = ''plan_approval''"
| "decision_kind_value DK_tool_permission = ''tool_permission''"
| "decision_kind_value DK_file_write = ''file_write''"
| "decision_kind_value DK_broker_egress = ''broker_egress''"
| "decision_kind_value DK_continue_long_task = ''continue_long_task''"
| "decision_kind_value DK_custom = ''custom''"

datatype decision_choice = C_approve | C_reject | C_revise | C_abort

fun decision_choice_value :: "decision_choice \<Rightarrow> string" where
  "decision_choice_value C_approve = ''approve''"
| "decision_choice_value C_reject = ''reject''"
| "decision_choice_value C_revise = ''revise''"
| "decision_choice_value C_abort = ''abort''"

lemma decision_choice_value_inj [simp]:
  "decision_choice_value a = decision_choice_value b \<longleftrightarrow> a = b"
  by (cases a; cases b; simp)

record decision_request =
  dq_decision_id :: string
  dq_kind :: decision_kind
  dq_summary :: string
  dq_options :: "decision_choice list"
  dq_default_on_timeout :: decision_choice
  dq_expires_at :: "string option"
  dq_ctx :: "(string \<times> json) list"

record decision_response =
  dp_decision_id :: string
  dp_choice :: decision_choice
  dp_feedback :: "string option"
  dp_patch :: "json option"
  dp_idempotency_key :: "string option"

record pending_decision =
  pd_decision_id :: string
  pd_task_id :: string
  pd_kind :: decision_kind
  pd_status :: string
  pd_request :: decision_request
  pd_response :: "decision_response option"
  pd_created_at :: timestamp
  pd_resolved_at :: "timestamp option"

section \<open>Artifacts\<close>

datatype artifact_type =
    A_workspace_snapshot | A_diff | A_plan | A_log | A_stdout | A_stderr
  | A_transcript | A_report | A_custom

fun artifact_type_value :: "artifact_type \<Rightarrow> string" where
  "artifact_type_value A_workspace_snapshot = ''workspace_snapshot''"
| "artifact_type_value A_diff = ''diff''"
| "artifact_type_value A_plan = ''plan''"
| "artifact_type_value A_log = ''log''"
| "artifact_type_value A_stdout = ''stdout''"
| "artifact_type_value A_stderr = ''stderr''"
| "artifact_type_value A_transcript = ''transcript''"
| "artifact_type_value A_report = ''report''"
| "artifact_type_value A_custom = ''custom''"

definition all_artifact_types :: "artifact_type list" where
  "all_artifact_types =
     [A_workspace_snapshot, A_diff, A_plan, A_log, A_stdout, A_stderr, A_transcript, A_report, A_custom]"

definition artifact_type_of :: "string \<Rightarrow> artifact_type option" where
  "artifact_type_of = enum_of artifact_type_value all_artifact_types"

lemma artifact_type_of_value [enum_values, simp]: "artifact_type_of (artifact_type_value t) = Some t"
  unfolding artifact_type_of_def by (rule enum_of_value) (simp_all add: all_artifact_types_def, cases t, simp_all)

record artifact =
  art_id :: string
  art_task_id :: string
  art_type :: artifact_type
  art_filename :: string
  art_size :: "int option"
  art_created_at :: timestamp
  art_expires_at :: "timestamp option"
  art_download_url :: "string option"
  art_metadata :: "(string \<times> json) list"

section \<open>Exceptions\<close>

text \<open>
  The exceptions the worker raises or catches. \<open>CancelledError\<close> is a \<open>BaseException\<close>:
  \<open>except Exception\<close> does not catch it. \<open>HTTPException\<close> carries its status code;
  \<open>OtherError\<close> is an exception of a library, by class name and message.
\<close>

datatype exn =
    TaskTimedOutError int string
  | TaskAbortedError string string "string option"
  | RuntimeError string
  | ValueError string
  | KeyError string
  | TypeError string
  | AttributeError string
  | PermissionError string
  | OSError string
  | IntegrityError string
  | OperationalError string
  | HTTPException nat string
  | TimeoutError
  | CancelledError
  | OtherError string string

definition task_timed_out_error :: "int \<Rightarrow> string option \<Rightarrow> exn" where
  "task_timed_out_error t m =
     TaskTimedOutError t (case m of Some s \<Rightarrow> s | None \<Rightarrow> ''task timed out after '' @ show_int t @ ''s'')"

definition task_aborted_error :: "string \<Rightarrow> string option \<Rightarrow> string option \<Rightarrow> exn" where
  "task_aborted_error reason m did =
     TaskAbortedError reason
       (case m of Some s \<Rightarrow> s | None \<Rightarrow> ''task aborted (reason='' @ reason @ '')'') did"

fun is_Exception :: "exn \<Rightarrow> bool" where
  "is_Exception CancelledError = False"
| "is_Exception _ = True"

fun exn_name :: "exn \<Rightarrow> string" where
  "exn_name (TaskTimedOutError _ _) = ''TaskTimedOutError''"
| "exn_name (TaskAbortedError _ _ _) = ''TaskAbortedError''"
| "exn_name (RuntimeError _) = ''RuntimeError''"
| "exn_name (ValueError _) = ''ValueError''"
| "exn_name (KeyError _) = ''KeyError''"
| "exn_name (TypeError _) = ''TypeError''"
| "exn_name (AttributeError _) = ''AttributeError''"
| "exn_name (PermissionError _) = ''PermissionError''"
| "exn_name (OSError _) = ''OSError''"
| "exn_name (IntegrityError _) = ''IntegrityError''"
| "exn_name (OperationalError _) = ''OperationalError''"
| "exn_name (HTTPException _ _) = ''HTTPException''"
| "exn_name TimeoutError = ''TimeoutError''"
| "exn_name CancelledError = ''CancelledError''"
| "exn_name (OtherError c _) = c"

fun exn_str :: "exn \<Rightarrow> string" where
  "exn_str (TaskTimedOutError _ m) = m"
| "exn_str (TaskAbortedError _ m _) = m"
| "exn_str (RuntimeError m) = m"
| "exn_str (ValueError m) = m"
| "exn_str (KeyError m) = m"
| "exn_str (TypeError m) = m"
| "exn_str (AttributeError m) = m"
| "exn_str (PermissionError m) = m"
| "exn_str (OSError m) = m"
| "exn_str (IntegrityError m) = m"
| "exn_str (OperationalError m) = m"
| "exn_str (HTTPException _ m) = m"
| "exn_str TimeoutError = []"
| "exn_str CancelledError = []"
| "exn_str (OtherError _ m) = m"

end
