(* ===== verification/Event_Bus.thy ===== *)
theory Event_Bus
  imports Worker_Prelude
begin

text \<open>
  The wake-up bus of \<open>src/worker/orchestrator/event_bus.py\<close>. Buses and the subscribers'
  \<open>asyncio.Event\<close> objects are shared mutable objects, so they live in a store: a bus is an
  index into \<open>bus_objs\<close> (its list of subscribers), an event an index into \<open>bus_flags\<close>
  (whether it is set). The registry \<open>_buses\<close> maps task ids to bus references; a discarded
  bus keeps its subscribers but is no longer registered.
\<close>

type_synonym bus_ref = nat
type_synonym event_ref = nat

record bus_store =
  bus_registry :: "(string \<times> bus_ref) list"
  bus_objs :: "event_ref list list"
  bus_flags :: "bool list"

definition init_buses :: bus_store where
  "init_buses = \<lparr>bus_registry = [], bus_objs = [], bus_flags = []\<rparr>"

section \<open>TaskEventBus\<close>

definition subscribe :: "bus_ref \<Rightarrow> bus_store \<Rightarrow> event_ref \<times> bus_store" where
  "subscribe b s =
     (let e = length (bus_flags s)
      in (e, s\<lparr>bus_flags := bus_flags s @ [False],
               bus_objs := (bus_objs s)[b := bus_objs s ! b @ [e]]\<rparr>))"

text \<open>\<open>list.remove\<close> drops the first occurrence; a missing subscriber is ignored.\<close>

definition unsubscribe :: "bus_ref \<Rightarrow> event_ref \<Rightarrow> bus_store \<Rightarrow> bus_store" where
  "unsubscribe b e s = s\<lparr>bus_objs := (bus_objs s)[b := remove1 e (bus_objs s ! b)]\<rparr>"

definition set_flag :: "event_ref \<Rightarrow> bool list \<Rightarrow> bool list" where
  "set_flag e fs = fs[e := True]"

definition bus_notify :: "bus_ref \<Rightarrow> bus_store \<Rightarrow> bus_store" where
  "bus_notify b s = s\<lparr>bus_flags := fold set_flag (bus_objs s ! b) (bus_flags s)\<rparr>"

definition subscriber_count :: "bus_ref \<Rightarrow> bus_store \<Rightarrow> nat" where
  "subscriber_count b s = length (bus_objs s ! b)"

section \<open>The registry\<close>

definition get_bus :: "string \<Rightarrow> bus_store \<Rightarrow> bus_ref \<times> bus_store" where
  "get_bus tid s =
     (case map_of (bus_registry s) tid of
        Some b \<Rightarrow> (b, s)
      | None \<Rightarrow> (let b = length (bus_objs s)
                 in (b, s\<lparr>bus_objs := bus_objs s @ [[]],
                          bus_registry := dict_set tid b (bus_registry s)\<rparr>)))"

definition notify :: "string \<Rightarrow> bus_store \<Rightarrow> bus_store" where
  "notify tid s =
     (case map_of (bus_registry s) tid of None \<Rightarrow> s | Some b \<Rightarrow> bus_notify b s)"

definition discard :: "string \<Rightarrow> bus_store \<Rightarrow> bus_store" where
  "discard tid s = s\<lparr>bus_registry := dict_pop tid (bus_registry s)\<rparr>"

definition active_bus_count :: "bus_store \<Rightarrow> nat" where
  "active_bus_count s = length (bus_registry s)"

text \<open>The two operations of \<open>asyncio.Event\<close> a subscriber uses.\<close>

definition event_is_set :: "event_ref \<Rightarrow> bus_store \<Rightarrow> bool" where
  "event_is_set e s = bus_flags s ! e"

definition event_clear :: "event_ref \<Rightarrow> bus_store \<Rightarrow> bus_store" where
  "event_clear e s = s\<lparr>bus_flags := (bus_flags s)[e := False]\<rparr>"

section \<open>Well-formed stores\<close>

text \<open>References are in range, task ids are registered once and for distinct buses, and
  no event is subscribed to two buses or twice to one.\<close>

definition bus_ok :: "bus_store \<Rightarrow> bool" where
  "bus_ok s \<longleftrightarrow>
     distinct (map fst (bus_registry s)) \<and> distinct (map snd (bus_registry s)) \<and>
     (\<forall>b \<in> snd ` set (bus_registry s). b < length (bus_objs s)) \<and>
     (\<forall>e \<in> set (concat (bus_objs s)). e < length (bus_flags s)) \<and>
     distinct (concat (bus_objs s))"

lemma length_set_flag [simp]: "length (set_flag a fs) = length fs"
  by (simp add: set_flag_def)

lemma nth_set_flag: "e < length fs \<Longrightarrow> set_flag a fs ! e = (fs ! e \<or> e = a)"
  by (cases "a = e") (simp_all add: set_flag_def)

lemma length_fold_set_flag [simp]: "length (fold set_flag es fs) = length fs"
  by (induction es arbitrary: fs) simp_all

lemma nth_fold_set_flag:
  "e < length fs \<Longrightarrow> fold set_flag es fs ! e = (fs ! e \<or> e \<in> set es)"
proof (induction es arbitrary: fs)
  case (Cons a es)
  then show ?case by (auto simp: nth_set_flag)
qed simp

lemma bus_ok_init: "bus_ok init_buses"
  by (simp add: bus_ok_def init_buses_def)

lemma in_concat_nth: "b < length xss \<Longrightarrow> set (xss ! b) \<subseteq> set (concat xss)"
  by (auto intro: nth_mem)

lemma concat_update_split:
  "b < length xss \<Longrightarrow> concat (xss[b := ys]) = concat (take b xss) @ ys @ concat (drop (Suc b) xss)"
  by (simp add: upd_conv_take_nth_drop)

lemma concat_split:
  "b < length xss \<Longrightarrow> concat xss = concat (take b xss) @ xss ! b @ concat (drop (Suc b) xss)"
  by (subst id_take_nth_drop [of b xss]) simp_all

lemma bus_ok_subscribe:
  assumes "bus_ok s" and b: "b < length (bus_objs s)"
  shows "bus_ok (snd (subscribe b s))"
proof -
  let ?e = "length (bus_flags s)"
  have range: "\<forall>e \<in> set (concat (bus_objs s)). e < ?e" and dist: "distinct (concat (bus_objs s))"
    using assms(1) by (simp_all add: bus_ok_def)
  have fresh: "?e \<notin> set (concat (bus_objs s))" using range by blast
  have split: "concat ((bus_objs s)[b := bus_objs s ! b @ [?e]]) =
      concat (take b (bus_objs s)) @ (bus_objs s ! b @ [?e]) @ concat (drop (Suc b) (bus_objs s))"
    using b by (rule concat_update_split)
  have old: "concat (bus_objs s) =
      concat (take b (bus_objs s)) @ bus_objs s ! b @ concat (drop (Suc b) (bus_objs s))"
    using b by (rule concat_split)
  have "distinct (concat ((bus_objs s)[b := bus_objs s ! b @ [?e]]))"
    unfolding split using dist fresh unfolding old by auto
  moreover have "\<forall>e \<in> set (concat ((bus_objs s)[b := bus_objs s ! b @ [?e]])). e < Suc ?e"
    unfolding split using range unfolding old by (auto simp: less_Suc_eq)
  ultimately show ?thesis using assms(1) by (simp add: bus_ok_def subscribe_def Let_def)
qed

lemma bus_ok_unsubscribe:
  assumes "bus_ok s" and b: "b < length (bus_objs s)"
  shows "bus_ok (unsubscribe b e s)"
proof -
  let ?n = "remove1 e (bus_objs s ! b)"
  have split: "concat ((bus_objs s)[b := ?n]) =
      concat (take b (bus_objs s)) @ ?n @ concat (drop (Suc b) (bus_objs s))"
    using b by (rule concat_update_split)
  have old: "concat (bus_objs s) =
      concat (take b (bus_objs s)) @ bus_objs s ! b @ concat (drop (Suc b) (bus_objs s))"
    using b by (rule concat_split)
  have sub: "set ?n \<subseteq> set (bus_objs s ! b)" by (rule set_remove1_subset)
  have "distinct (concat (bus_objs s))" using assms(1) by (simp add: bus_ok_def)
  then have "distinct (concat ((bus_objs s)[b := ?n]))"
    unfolding split unfolding old using sub by (auto simp: distinct_remove1)
  moreover have "set (concat ((bus_objs s)[b := ?n])) \<subseteq> set (concat (bus_objs s))"
    unfolding split old using sub by auto
  ultimately show ?thesis using assms(1) by (auto simp: bus_ok_def unsubscribe_def)
qed

lemma bus_ok_get_bus:
  assumes "bus_ok s"
  shows "bus_ok (snd (get_bus tid s))" and "fst (get_bus tid s) < length (bus_objs (snd (get_bus tid s)))"
    and "map_of (bus_registry (snd (get_bus tid s))) tid = Some (fst (get_bus tid s))"
proof -
  have new: "dict_set tid b ps = ps @ [(tid, b)]" if "map_of ps tid = None" for b and ps :: "(string \<times> bus_ref) list"
    using that by (induction ps) (auto split: if_splits)
  show "bus_ok (snd (get_bus tid s))"
  proof (cases "map_of (bus_registry s) tid")
    case None
    then have "tid \<notin> fst ` set (bus_registry s)" by (simp add: map_of_eq_None_iff)
    with assms None show ?thesis
      by (fastforce simp: get_bus_def bus_ok_def Let_def new less_Suc_eq)
  qed (simp add: get_bus_def assms)
  show "fst (get_bus tid s) < length (bus_objs (snd (get_bus tid s)))"
    using assms by (auto simp: get_bus_def bus_ok_def Let_def dest!: map_of_SomeD split: option.splits)
  show "map_of (bus_registry (snd (get_bus tid s))) tid = Some (fst (get_bus tid s))"
    by (simp add: get_bus_def Let_def split: option.splits)
qed

lemma bus_ok_notify: "bus_ok s \<Longrightarrow> bus_ok (notify tid s)"
  by (simp add: bus_ok_def notify_def bus_notify_def split: option.splits)

lemma bus_ok_discard: "bus_ok s \<Longrightarrow> bus_ok (discard tid s)"
  by (auto simp: bus_ok_def discard_def dict_pop_def distinct_map_filter)

lemma bus_ok_clear: "bus_ok s \<Longrightarrow> bus_ok (event_clear e s)"
  by (simp add: bus_ok_def event_clear_def)

section \<open>Who is woken\<close>

definition subscribed :: "string \<Rightarrow> event_ref \<Rightarrow> bus_store \<Rightarrow> bool" where
  "subscribed tid e s \<longleftrightarrow> (case map_of (bus_registry s) tid of None \<Rightarrow> False | Some b \<Rightarrow> e \<in> set (bus_objs s ! b))"

lemma notify_flags:
  assumes "e < length (bus_flags s)"
  shows "event_is_set e (notify tid s) \<longleftrightarrow> event_is_set e s \<or> subscribed tid e s"
  using assms by (auto simp: event_is_set_def notify_def bus_notify_def subscribed_def nth_fold_set_flag split: option.splits)

lemma subscribed_in_range:
  assumes ok: "bus_ok s" and sub: "subscribed tid e s"
  shows "e < length (bus_flags s)"
proof -
  obtain b where b: "map_of (bus_registry s) tid = Some b" "e \<in> set (bus_objs s ! b)"
    using sub by (auto simp: subscribed_def split: option.splits)
  have "(tid, b) \<in> set (bus_registry s)" using b(1) by (rule map_of_SomeD)
  then have "b < length (bus_objs s)" using ok unfolding bus_ok_def by force
  then have "e \<in> set (concat (bus_objs s))" using in_concat_nth b(2) by blast
  then show ?thesis using ok unfolding bus_ok_def by blast
qed

lemma subscribed_subscribe:
  assumes "bus_ok s" and "map_of (bus_registry s) tid = Some b"
  shows "subscribed tid (fst (subscribe b s)) (snd (subscribe b s))"
    and "\<not> event_is_set (fst (subscribe b s)) (snd (subscribe b s))"
proof -
  have "b < length (bus_objs s)" using assms by (auto simp: bus_ok_def dest!: map_of_SomeD)
  with assms(2) show "subscribed tid (fst (subscribe b s)) (snd (subscribe b s))"
    by (simp add: subscribed_def subscribe_def Let_def)
  show "\<not> event_is_set (fst (subscribe b s)) (snd (subscribe b s))"
    by (simp add: event_is_set_def subscribe_def Let_def)
qed

lemma subscribed_discard [simp]: "\<not> subscribed tid e (discard tid s)"
  by (simp add: subscribed_def discard_def)

end
