(* ===== verification/Metrics.thy ===== *)
theory Metrics
  imports Py_Strings Complex_Main "HOL-Library.Char_ord" "HOL-Library.List_Lexorder"
begin

text \<open>
  The in-process metrics of \<open>src/worker/observability/metrics.py\<close>: four labelled counters,
  the gauge of active tasks and three summaries, the helpers that change them, and the
  Prometheus text they render to. A \<open>defaultdict(int)\<close> is an association list in
  insertion order whose absent keys read as zero.
\<close>

record metrics =
  mt_task_count :: "(string \<times> int) list"
  mt_abort_count :: "(string \<times> int) list"
  mt_token_usage :: "(string \<times> int) list"
  mt_gc_deleted :: "(string \<times> int) list"
  mt_active :: int
  mt_task_duration :: "real \<times> int"
  mt_hitl_wait :: "real \<times> int"
  mt_container_start :: "real \<times> int"

definition init_metrics :: metrics where
  "init_metrics = \<lparr>mt_task_count = [], mt_abort_count = [], mt_token_usage = [],
     mt_gc_deleted = [], mt_active = 0, mt_task_duration = (0, 0), mt_hitl_wait = (0, 0),
     mt_container_start = (0, 0)\<rparr>"

fun counter_add :: "string \<Rightarrow> int \<Rightarrow> (string \<times> int) list \<Rightarrow> (string \<times> int) list" where
  "counter_add k n [] = [(k, n)]"
| "counter_add k n ((l, v) # c) = (if l = k then (l, v + n) # c else (l, v) # counter_add k n c)"

definition counter_get :: "(string \<times> int) list \<Rightarrow> string \<Rightarrow> int" where
  "counter_get c k = (case map_of c k of None \<Rightarrow> 0 | Some v \<Rightarrow> v)"

definition observe :: "real \<Rightarrow> real \<times> int \<Rightarrow> real \<times> int" where
  "observe x s = (fst s + x, snd s + 1)"

definition inc_task_count :: "string \<Rightarrow> metrics \<Rightarrow> metrics" where
  "inc_task_count status m = m\<lparr>mt_task_count := counter_add status 1 (mt_task_count m)\<rparr>"

definition inc_abort_count :: "string \<Rightarrow> metrics \<Rightarrow> metrics" where
  "inc_abort_count reason m = m\<lparr>mt_abort_count := counter_add reason 1 (mt_abort_count m)\<rparr>"

definition add_token_usage :: "string \<Rightarrow> int \<Rightarrow> metrics \<Rightarrow> metrics" where
  "add_token_usage direction n m = m\<lparr>mt_token_usage := counter_add direction n (mt_token_usage m)\<rparr>"

definition inc_artifact_gc_deleted :: "string \<Rightarrow> metrics \<Rightarrow> metrics" where
  "inc_artifact_gc_deleted result m = m\<lparr>mt_gc_deleted := counter_add result 1 (mt_gc_deleted m)\<rparr>"

definition set_active_tasks :: "int \<Rightarrow> metrics \<Rightarrow> metrics" where
  "set_active_tasks n m = m\<lparr>mt_active := max 0 n\<rparr>"

definition inc_active_tasks :: "metrics \<Rightarrow> metrics" where
  "inc_active_tasks m = m\<lparr>mt_active := mt_active m + 1\<rparr>"

definition dec_active_tasks :: "metrics \<Rightarrow> metrics" where
  "dec_active_tasks m = m\<lparr>mt_active := max 0 (mt_active m - 1)\<rparr>"

definition observe_task_duration :: "real \<Rightarrow> metrics \<Rightarrow> metrics" where
  "observe_task_duration secs m = m\<lparr>mt_task_duration := observe secs (mt_task_duration m)\<rparr>"

definition observe_hitl_wait :: "real \<Rightarrow> metrics \<Rightarrow> metrics" where
  "observe_hitl_wait secs m = m\<lparr>mt_hitl_wait := observe secs (mt_hitl_wait m)\<rparr>"

definition observe_container_start :: "real \<Rightarrow> metrics \<Rightarrow> metrics" where
  "observe_container_start ms m = m\<lparr>mt_container_start := observe ms (mt_container_start m)\<rparr>"

section \<open>The Prometheus text\<close>

text \<open>Python's \<open>f"{x:.6f}"\<close>: six decimals, ties to even, the sign kept.\<close>

definition round_half_even :: "real \<Rightarrow> int" where
  "round_half_even x =
     (let f = \<lfloor>x\<rfloor>; d = x - of_int f
      in if d < 1/2 then f else if d > 1/2 then f + 1 else if even f then f else f + 1)"

definition pad_left :: "nat \<Rightarrow> char \<Rightarrow> string \<Rightarrow> string" where
  "pad_left n c s = replicate (n - length s) c @ s"

definition fmt6 :: "real \<Rightarrow> string" where
  "fmt6 x = (let n = round_half_even (\<bar>x\<bar> * 1000000)
             in (if x < 0 then ''-'' else []) @ show_int (n div 1000000) @ ''.'' @
                pad_left 6 CHR ''0'' (show_int (n mod 1000000)))"

definition counter_lines :: "string \<Rightarrow> string \<Rightarrow> (string \<times> int) list \<Rightarrow> string list" where
  "counter_lines name descr lv =
     [''# HELP '' @ name @ '' '' @ descr, ''# TYPE '' @ name @ '' counter''] @
     map (\<lambda>(l, v). name @ ''{'' @ l @ ''} '' @ show_int v) (sort_key fst lv)"

definition gauge_lines :: "string \<Rightarrow> string \<Rightarrow> int \<Rightarrow> string list" where
  "gauge_lines name descr v =
     [''# HELP '' @ name @ '' '' @ descr, ''# TYPE '' @ name @ '' gauge'', name @ '' '' @ show_int v]"

definition summary_lines :: "string \<Rightarrow> string \<Rightarrow> real \<times> int \<Rightarrow> string list" where
  "summary_lines name descr s =
     [''# HELP '' @ name @ '' '' @ descr, ''# TYPE '' @ name @ '' summary'',
      name @ ''_sum '' @ fmt6 (fst s), name @ ''_count '' @ show_int (snd s)]"

definition labelled :: "string \<Rightarrow> (string \<times> int) list \<Rightarrow> (string \<times> int) list" where
  "labelled key c = map (\<lambda>(k, v). (key @ ''=\"'' @ k @ ''\"'', v)) c"

definition prometheus_lines :: "metrics \<Rightarrow> string list" where
  "prometheus_lines m =
     counter_lines ''worker_task_count_total'' ''Total tasks by terminal status.''
       (labelled ''status'' (mt_task_count m)) @
     counter_lines ''worker_abort_count_total'' ''Total task aborts by reason.''
       (labelled ''reason'' (mt_abort_count m)) @
     counter_lines ''worker_token_usage_total'' ''Total LLM tokens used.''
       (labelled ''direction'' (mt_token_usage m)) @
     counter_lines ''worker_artifact_gc_deleted_total'' ''Artifacts deleted by GC, by result.''
       (labelled ''result'' (mt_gc_deleted m)) @
     gauge_lines ''worker_active_tasks'' ''Current number of active (non-terminal) tasks.'' (mt_active m) @
     summary_lines ''worker_task_duration_seconds'' ''Task completion duration in seconds.''
       (mt_task_duration m) @
     summary_lines ''worker_hitl_wait_seconds'' ''HITL decision wait time in seconds.'' (mt_hitl_wait m) @
     summary_lines ''worker_container_start_ms'' ''Container start latency in milliseconds.''
       (mt_container_start m)"

definition render_prometheus :: "metrics \<Rightarrow> string" where
  "render_prometheus m = str_join [CHR 0x0A] (prometheus_lines m) @ [CHR 0x0A]"

section \<open>Counters count, the gauge stays non-negative\<close>

lemma map_of_counter_add: "map_of (counter_add k n c) = (map_of c)(k \<mapsto> counter_get c k + n)"
  by (induction k n c rule: counter_add.induct) (auto simp: counter_get_def)

lemma counter_get_add [simp]:
  "counter_get (counter_add k n c) j = (if j = k then counter_get c j + n else counter_get c j)"
  unfolding counter_get_def [of "counter_add k n c"] map_of_counter_add by (simp add: counter_get_def)

lemma keys_counter_add: "fst ` set (counter_add k n c) = insert k (fst ` set c)"
  by (induction k n c rule: counter_add.induct) auto

lemma distinct_counter_add: "distinct (map fst c) \<Longrightarrow> distinct (map fst (counter_add k n c))"
proof (induction k n c rule: counter_add.induct)
  case (2 k n l v c)
  have "set (map fst (counter_add k n c)) = insert k (set (map fst c))"
    using keys_counter_add [of k n c] by simp
  with 2 show ?case by auto
qed simp

definition metrics_ok :: "metrics \<Rightarrow> bool" where
  "metrics_ok m \<longleftrightarrow> 0 \<le> mt_active m \<and>
     distinct (map fst (mt_task_count m)) \<and> distinct (map fst (mt_abort_count m)) \<and>
     distinct (map fst (mt_token_usage m)) \<and> distinct (map fst (mt_gc_deleted m))"

named_theorems metric_defs \<open>the metric helpers, unfolded\<close>

declare inc_task_count_def [metric_defs] inc_abort_count_def [metric_defs] add_token_usage_def [metric_defs]
declare inc_artifact_gc_deleted_def [metric_defs] set_active_tasks_def [metric_defs]
declare inc_active_tasks_def [metric_defs] dec_active_tasks_def [metric_defs]
declare observe_task_duration_def [metric_defs] observe_hitl_wait_def [metric_defs]
declare observe_container_start_def [metric_defs] observe_def [metric_defs]

lemma metrics_ok_init: "metrics_ok init_metrics"
  by (simp add: metrics_ok_def init_metrics_def)

lemma metrics_ok_steps:
  assumes "metrics_ok m"
  shows "metrics_ok (inc_task_count s m)" "metrics_ok (inc_abort_count s m)"
    "metrics_ok (add_token_usage s n m)" "metrics_ok (inc_artifact_gc_deleted s m)"
    "metrics_ok (set_active_tasks n m)" "metrics_ok (inc_active_tasks m)"
    "metrics_ok (dec_active_tasks m)" "metrics_ok (observe_task_duration x m)"
    "metrics_ok (observe_hitl_wait x m)" "metrics_ok (observe_container_start x m)"
  using assms by (simp_all add: metrics_ok_def metric_defs distinct_counter_add)

lemma active_bracket: "0 \<le> mt_active m \<Longrightarrow> dec_active_tasks (inc_active_tasks m) = m"
  by (simp add: metric_defs)

section \<open>Every counter is exported with its value\<close>

lemma counter_line_in:
  assumes "(k, v) \<in> set c"
  shows "name @ ''{'' @ (key @ ''=\"'' @ k @ ''\"'') @ ''} '' @ show_int v
           \<in> set (counter_lines name descr (labelled key c))"
proof -
  have "(key @ ''=\"'' @ k @ ''\"'', v) \<in> set (sort_key fst (labelled key c))"
    using assms by (auto simp: labelled_def intro!: image_eqI [where x = "(k, v)"])
  then have "(\<lambda>(l, v). name @ ''{'' @ l @ ''} '' @ show_int v) (key @ ''=\"'' @ k @ ''\"'', v)
      \<in> set (map (\<lambda>(l, v). name @ ''{'' @ l @ ''} '' @ show_int v) (sort_key fst (labelled key c)))"
    unfolding set_map by (rule imageI)
  then show ?thesis unfolding counter_lines_def set_append by (intro UnI2) simp
qed

lemma length_prometheus_lines:
  "length (prometheus_lines m) =
     23 + length (mt_task_count m) + length (mt_abort_count m) + length (mt_token_usage m) +
     length (mt_gc_deleted m)"
  by (simp add: prometheus_lines_def counter_lines_def gauge_lines_def summary_lines_def labelled_def)

end
