(* ===== verification/World.thy ===== *)
theory World
  imports Contract Event_Bus Metrics
begin

text \<open>
  The state of the worker process and of its SQLite database (\<open>src/worker/storage/db.py\<close>).
  The four tables are lists of rows in insertion order; a column keeps the text SQLite keeps,
  except that a JSON column written with \<open>model_dump_json\<close> holds the model it encodes.

  Two oracles stand for what the process cannot control: \<open>w_faults\<close> says for each coming
  statement whether SQLite refuses it (a full disk, a lock held beyond \<open>busy_timeout\<close>), with
  \<open>[]\<close> for no more faults, and \<open>w_uuid\<close> is the source of \<open>uuid4\<close>. The clock moves only
  when a coroutine sleeps or the environment runs.
\<close>

section \<open>Rows and tables\<close>

record task_row =
  tr_id :: string
  tr_status :: string
  tr_mode :: string
  tr_request :: task_request
  tr_container_id :: "string option"
  tr_session_id :: "string option"
  tr_created_at :: timestamp
  tr_updated_at :: timestamp
  tr_completed_at :: "timestamp option"

record event_row =
  er_event_id :: int
  er_task_id :: string
  er_kind :: string
  er_payload :: json_text
  er_ts :: timestamp

record decision_row =
  dr_id :: string
  dr_task_id :: string
  dr_kind :: string
  dr_status :: string
  dr_request :: decision_request
  dr_response :: "decision_response option"
  dr_idempotency_key :: "string option"
  dr_created_at :: timestamp
  dr_resolved_at :: "timestamp option"

record artifact_row =
  ar_id :: string
  ar_task_id :: string
  ar_type :: string
  ar_filename :: string
  ar_file_path :: "string option"
  ar_size :: "int option"
  ar_created_at :: timestamp
  ar_expires_at :: "timestamp option"
  ar_metadata :: json_text

text \<open>\<open>db_foreign_keys\<close> is SQLite's \<open>PRAGMA foreign_keys\<close>, off in every new connection.\<close>

record db =
  db_tasks :: "task_row list"
  db_events :: "event_row list"
  db_decisions :: "decision_row list"
  db_artifacts :: "artifact_row list"
  db_foreign_keys :: bool

definition empty_db :: db where
  "empty_db = \<lparr>db_tasks = [], db_events = [], db_decisions = [], db_artifacts = [],
     db_foreign_keys = False\<rparr>"

section \<open>The process\<close>

text \<open>\<open>_event_locks\<close>: the lock object registered for each task id.\<close>

record lock_table =
  lk_registry :: "(string \<times> nat) list"
  lk_next :: nat

type_synonym file_path = "string list"

record world =
  w_connected :: bool
  w_db :: db
  w_clock :: timestamp
  w_faults :: "bool list"
  w_uuid :: "nat \<Rightarrow> string"
  w_uuid_next :: nat
  w_locks :: lock_table
  w_buses :: bus_store
  w_metrics :: metrics
  w_queue :: "string list"
  w_policies :: "(string \<times> string list) list"
  w_files :: "(file_path \<times> json) list"

type_synonym 'a io = "(world, exn, 'a) comp"

definition init_world :: world where
  "init_world = \<lparr>w_connected = False, w_db = empty_db, w_clock = 0, w_faults = [],
     w_uuid = (\<lambda>n. ''u'' @ show_nat n), w_uuid_next = 0,
     w_locks = \<lparr>lk_registry = [], lk_next = 0\<rparr>, w_buses = init_buses, w_metrics = init_metrics,
     w_queue = [], w_policies = [], w_files = []\<rparr>"

definition time_now :: "timestamp io" where
  "time_now = getE w_clock"

definition uuid4 :: "string io" where
  "uuid4 w = (Inr (w_uuid w (w_uuid_next w)), w\<lparr>w_uuid_next := Suc (w_uuid_next w)\<rparr>)"

definition sleep :: "real \<Rightarrow> unit io" where
  "sleep d = modifyE (\<lambda>w. w\<lparr>w_clock := w_clock w + d\<rparr>)"

definition metric :: "(metrics \<Rightarrow> metrics) \<Rightarrow> unit io" where
  "metric f = modifyE (\<lambda>w. w\<lparr>w_metrics := f (w_metrics w)\<rparr>)"

definition with_buses :: "(bus_store \<Rightarrow> bus_store) \<Rightarrow> unit io" where
  "with_buses f = modifyE (\<lambda>w. w\<lparr>w_buses := f (w_buses w)\<rparr>)"

definition update_db :: "(db \<Rightarrow> db) \<Rightarrow> unit io" where
  "update_db f = modifyE (\<lambda>w. w\<lparr>w_db := f (w_db w)\<rparr>)"

section \<open>The connection\<close>

text \<open>One statement with its commit: SQLite may refuse it, and then nothing is written.\<close>

definition statement :: "unit io" where
  "statement w =
     (case w_faults w of
        [] \<Rightarrow> (Inr (), w)
      | f # fs \<Rightarrow> (if f then (Inl (OperationalError ''database is locked''), w\<lparr>w_faults := fs\<rparr>)
                   else (Inr (), w\<lparr>w_faults := fs\<rparr>)))"

definition select :: "(db \<Rightarrow> 'a) \<Rightarrow> 'a io" where
  "select q = thenE statement (getE (\<lambda>w. q (w_db w)))"

text \<open>\<open>init_db\<close> issues the WAL pragmas and the DDL and keeps the tables it finds; it does not
  turn \<open>foreign_keys\<close> on. \<open>_migrate_artifacts_metadata\<close> only adds a column with the default
  that every row of the model already has.\<close>

definition init_db :: "unit io" where
  "init_db = thenE statement (modifyE (\<lambda>w. w\<lparr>w_connected := True,
     w_db := (w_db w)\<lparr>db_foreign_keys := False\<rparr>\<rparr>))"

definition close_db :: "unit io" where
  "close_db = modifyE (\<lambda>w. w\<lparr>w_connected := False\<rparr>)"

definition get_db :: "unit io" where
  "get_db w = (if w_connected w then retE () w
               else raiseE (RuntimeError ''database not initialised: call init_db() first'') w)"

section \<open>Which part of the state an operation touches\<close>

lemma time_now_run [simp]: "time_now w = (Inr (w_clock w), w)"
  by (simp add: time_now_def getE_def)

lemma uuid4_run: "uuid4 w = (Inr (w_uuid w (w_uuid_next w)), w\<lparr>w_uuid_next := Suc (w_uuid_next w)\<rparr>)"
  by (simp add: uuid4_def)

lemma statement_ok [simp]: "w_faults w = [] \<Longrightarrow> statement w = (Inr (), w)"
  by (simp add: statement_def)

lemma select_ok [simp]: "w_faults w = [] \<Longrightarrow> select q w = (Inr (q (w_db w)), w)"
  by (simp add: select_def comp_defs)

lemma get_db_ok [simp]: "w_connected w \<Longrightarrow> get_db w = (Inr (), w)"
  by (simp add: get_db_def comp_defs)

text \<open>A change of the state that the tables cannot see.\<close>

definition db_blind :: "(world \<Rightarrow> world) \<Rightarrow> bool" where
  "db_blind f \<longleftrightarrow> (\<forall>w. w_db (f w) = w_db w)"

lemma keeps_db_statement [keeps_intros]: "keeps (\<lambda>w. P (w_db w)) statement"
  by (rule keepsI) (simp add: statement_def split: list.splits)

lemma keeps_db_select [keeps_intros]: "keeps (\<lambda>w. P (w_db w)) (select q)"
  unfolding select_def by (intro keeps_intros)

lemma keeps_db_get_db [keeps_intros]: "keeps (\<lambda>w. P (w_db w)) get_db"
  by (rule keepsI) (simp add: get_db_def comp_defs)

lemma keeps_db_time [keeps_intros]: "keeps (\<lambda>w. P (w_db w)) time_now"
  by (rule keepsI) simp

lemma keeps_db_uuid [keeps_intros]: "keeps (\<lambda>w. P (w_db w)) uuid4"
  by (rule keepsI) (simp add: uuid4_def)

lemma keeps_db_sleep [keeps_intros]: "keeps (\<lambda>w. P (w_db w)) (sleep d)"
  unfolding sleep_def by (rule keeps_modify) simp

lemma keeps_db_metric [keeps_intros]: "keeps (\<lambda>w. P (w_db w)) (metric f)"
  unfolding metric_def by (rule keeps_modify) simp

lemma keeps_db_buses [keeps_intros]: "keeps (\<lambda>w. P (w_db w)) (with_buses f)"
  unfolding with_buses_def by (rule keeps_modify) simp

lemma keeps_db_update: "(\<And>d. P d \<Longrightarrow> P (f d)) \<Longrightarrow> keeps (\<lambda>w. P (w_db w)) (update_db f)"
  unfolding update_db_def by (rule keeps_modify) simp

end
