(* ===== verification/Repo.thy ===== *)
theory Repo
  imports World
begin

text \<open>
  The repository layer \<open>src/worker/storage/repo.py\<close>: one computation per function, in the
  order of the file. Constraint violations raise \<open>IntegrityError\<close>, a column whose text is no
  longer a value of its enum raises \<open>ValueError\<close> when the row is read.
\<close>

named_theorems repo_defs \<open>the repository's functions, unfolded\<close>

section \<open>Tasks\<close>

definition task_exists :: "string \<Rightarrow> db \<Rightarrow> bool" where
  "task_exists tid d \<longleftrightarrow> tid \<in> tr_id ` set (db_tasks d)"

definition find_task :: "string \<Rightarrow> db \<Rightarrow> task_row option" where
  "find_task tid d = find (\<lambda>r. tr_id r = tid) (db_tasks d)"

text \<open>\<open>REFERENCES tasks(id)\<close> binds only while \<open>foreign_keys\<close> is on.\<close>

definition fk_ok :: "string \<Rightarrow> db \<Rightarrow> bool" where
  "fk_ok tid d \<longleftrightarrow> (db_foreign_keys d \<longrightarrow> task_exists tid d)"

definition insert_task :: "task_request \<Rightarrow> task_status \<Rightarrow> task_response io" where
  "insert_task request status =
     bindE time_now (\<lambda>now.
     thenE statement (
     bindE (getE (\<lambda>w. task_exists (rq_task_id request) (w_db w))) (\<lambda>dup.
     if dup then raiseE (IntegrityError ''UNIQUE constraint failed: tasks.id'')
     else thenE (update_db (\<lambda>d. d\<lparr>db_tasks := db_tasks d @
            [\<lparr>tr_id = rq_task_id request, tr_status = task_status_value status,
              tr_mode = task_mode_value (rq_mode request), tr_request = request,
              tr_container_id = None, tr_session_id = None, tr_created_at = now,
              tr_updated_at = now, tr_completed_at = None\<rparr>]\<rparr>))
          (retE \<lparr>rs_task_id = rq_task_id request, rs_status = status, rs_mode = rq_mode request,
             rs_created_at = now, rs_updated_at = now, rs_completed_at = None,
             rs_container_id = None, rs_session_id = None\<rparr>))))"

definition task_response_of :: "task_row \<Rightarrow> exn + task_response" where
  "task_response_of r =
     (case task_status_of (tr_status r) of
        None \<Rightarrow> Inl (ValueError (tr_status r @ '' is not a valid TaskStatus''))
      | Some st \<Rightarrow>
          (case task_mode_of (tr_mode r) of
             None \<Rightarrow> Inl (ValueError ''validation error for TaskResponse'')
           | Some md \<Rightarrow> Inr \<lparr>rs_task_id = tr_id r, rs_status = st, rs_mode = md,
               rs_created_at = tr_created_at r, rs_updated_at = tr_updated_at r,
               rs_completed_at = tr_completed_at r, rs_container_id = tr_container_id r,
               rs_session_id = tr_session_id r\<rparr>))"

definition get_task :: "string \<Rightarrow> task_response option io" where
  "get_task tid =
     bindE (select (find_task tid)) (\<lambda>row.
     case row of None \<Rightarrow> retE None
     | Some r \<Rightarrow> (case task_response_of r of Inl e \<Rightarrow> raiseE e | Inr t \<Rightarrow> retE (Some t)))"

fun coalesce :: "'a option \<Rightarrow> 'a option \<Rightarrow> 'a option" where
  "coalesce None b = b"
| "coalesce (Some a) _ = Some a"

definition set_task_status :: "task_status \<Rightarrow> string option \<Rightarrow> string option \<Rightarrow> timestamp \<Rightarrow> task_row \<Rightarrow> task_row" where
  "set_task_status status container session now r =
     r\<lparr>tr_status := task_status_value status,
       tr_container_id := coalesce container (tr_container_id r),
       tr_session_id := coalesce session (tr_session_id r),
       tr_updated_at := now,
       tr_completed_at := coalesce (tr_completed_at r)
          (if status \<in> TERMINAL_STATUSES then Some now else None)\<rparr>"

definition update_task_status_full ::
    "string \<Rightarrow> task_status \<Rightarrow> string option \<Rightarrow> string option \<Rightarrow> unit io" where
  "update_task_status_full tid status container session =
     bindE time_now (\<lambda>now.
     thenE statement
       (update_db (\<lambda>d. d\<lparr>db_tasks :=
          update_where (\<lambda>r. tr_id r = tid) (set_task_status status container session now) (db_tasks d)\<rparr>)))"

definition update_task_status :: "string \<Rightarrow> task_status \<Rightarrow> unit io" where
  "update_task_status tid status = update_task_status_full tid status None None"

text \<open>\<open>DELETE FROM tasks\<close>: the \<open>ON DELETE CASCADE\<close> of the other tables fires only while
  \<open>foreign_keys\<close> is on.\<close>

definition delete_task :: "string \<Rightarrow> bool io" where
  "delete_task tid =
     thenE statement (
     bindE (getE (\<lambda>w. task_exists tid (w_db w))) (\<lambda>found.
     thenE (update_db (\<lambda>d.
        let d1 = d\<lparr>db_tasks := filter (\<lambda>r. tr_id r \<noteq> tid) (db_tasks d)\<rparr>
        in if db_foreign_keys d
           then d1\<lparr>db_events := filter (\<lambda>r. er_task_id r \<noteq> tid) (db_events d),
                   db_decisions := filter (\<lambda>r. dr_task_id r \<noteq> tid) (db_decisions d),
                   db_artifacts := filter (\<lambda>r. ar_task_id r \<noteq> tid) (db_artifacts d)\<rparr>
           else d1))
      (retE found)))"

definition is_terminal_value :: "string \<Rightarrow> bool" where
  "is_terminal_value s \<longleftrightarrow>
     s \<in> set (map task_status_value [S_completed, S_failed, S_aborted, S_timed_out])"

definition list_non_terminal_tasks :: "(string \<times> string option) list io" where
  "list_non_terminal_tasks =
     select (\<lambda>d. map (\<lambda>r. (tr_id r, tr_container_id r))
       (sort_key tr_created_at (filter (\<lambda>r. \<not> is_terminal_value (tr_status r)) (db_tasks d))))"

section \<open>Events\<close>

definition get_event_lock :: "string \<Rightarrow> lock_table \<Rightarrow> nat \<times> lock_table" where
  "get_event_lock tid t =
     (case map_of (lk_registry t) tid of
        Some l \<Rightarrow> (l, t)
      | None \<Rightarrow> (lk_next t, \<lparr>lk_registry = dict_set tid (lk_next t) (lk_registry t),
                             lk_next = Suc (lk_next t)\<rparr>))"

definition discard_lock :: "string \<Rightarrow> lock_table \<Rightarrow> lock_table" where
  "discard_lock tid t = t\<lparr>lk_registry := dict_pop tid (lk_registry t)\<rparr>"

definition discard_task_locks :: "string \<Rightarrow> unit io" where
  "discard_task_locks tid = modifyE (\<lambda>w. w\<lparr>w_locks := discard_lock tid (w_locks w)\<rparr>)"

definition events_of :: "string \<Rightarrow> db \<Rightarrow> event_row list" where
  "events_of tid d = filter (\<lambda>r. er_task_id r = tid) (db_events d)"

text \<open>\<open>COALESCE(MAX(event_id), 0) + 1\<close>\<close>

fun coalesce_max :: "int list \<Rightarrow> int" where
  "coalesce_max [] = 0"
| "coalesce_max (x # xs) = fold max xs x"

definition next_event_id :: "string \<Rightarrow> db \<Rightarrow> int" where
  "next_event_id tid d = coalesce_max (map er_event_id (events_of tid d)) + 1"

text \<open>\<open>UNIQUE (task_id, event_id)\<close> and the foreign key.\<close>

definition event_violation :: "event_row \<Rightarrow> db \<Rightarrow> exn option" where
  "event_violation r d =
     (if er_event_id r \<in> er_event_id ` set (events_of (er_task_id r) d)
      then Some (IntegrityError ''UNIQUE constraint failed: task_events.task_id, task_events.event_id'')
      else if \<not> fk_ok (er_task_id r) d then Some (IntegrityError ''FOREIGN KEY constraint failed'')
      else None)"

definition insert_event_row :: "event_row \<Rightarrow> unit io" where
  "insert_event_row r =
     thenE statement (
     bindE (getE (\<lambda>w. event_violation r (w_db w))) (\<lambda>v.
     case v of Some e \<Rightarrow> raiseE e
     | None \<Rightarrow> update_db (\<lambda>d. d\<lparr>db_events := db_events d @ [r]\<rparr>)))"

text \<open>\<open>insert_event\<close>, run without interruption; its interleavings are those of the theory
  of the event lock.\<close>

definition insert_event :: "string \<Rightarrow> event_kind \<Rightarrow> (string \<times> json) list \<Rightarrow> task_event io" where
  "insert_event tid kind payload =
     thenE (modifyE (\<lambda>w. w\<lparr>w_locks := snd (get_event_lock tid (w_locks w))\<rparr>)) (
     bindE (select (next_event_id tid)) (\<lambda>eid.
     bindE time_now (\<lambda>now.
     thenE (insert_event_row \<lparr>er_event_id = eid, er_task_id = tid, er_kind = event_kind_value kind,
              er_payload = json_dumps (JObj payload), er_ts = now\<rparr>) (
     thenE (with_buses (notify tid)) (
     bindE time_now (\<lambda>later.
     retE (fill_defaults later \<lparr>ev_event_id = eid, ev_task_id = tid, ev_ts = now, ev_kind = kind,
             ev_payload = JObj payload, ev_cursor = eid\<rparr>)))))))"

definition task_event_of :: "timestamp \<Rightarrow> event_row \<Rightarrow> exn + task_event" where
  "task_event_of now r =
     (case event_kind_of (er_kind r) of
        None \<Rightarrow> Inl (ValueError (er_kind r @ '' is not a valid TaskEventKind''))
      | Some k \<Rightarrow>
          (case json_loads (er_payload r) of
             None \<Rightarrow> Inl (ValueError ''Expecting value'')
           | Some v \<Rightarrow>
               if \<not> is_dict v then Inl (ValueError ''validation error for TaskEvent'')
               else Inr (fill_defaults now \<lparr>ev_event_id = er_event_id r, ev_task_id = er_task_id r,
                      ev_ts = er_ts r, ev_kind = k, ev_payload = v, ev_cursor = er_event_id r\<rparr>)))"

fun map_result :: "('a \<Rightarrow> 'e + 'b) \<Rightarrow> 'a list \<Rightarrow> 'e + 'b list" where
  "map_result f [] = Inr []"
| "map_result f (x # xs) =
     (case f x of Inl e \<Rightarrow> Inl e
      | Inr y \<Rightarrow> (case map_result f xs of Inl e \<Rightarrow> Inl e | Inr ys \<Rightarrow> Inr (y # ys)))"

definition rows_after :: "string \<Rightarrow> int \<Rightarrow> db \<Rightarrow> event_row list" where
  "rows_after tid cursor d = sort_key er_event_id (filter (\<lambda>r. cursor < er_event_id r) (events_of tid d))"

definition get_events_after :: "string \<Rightarrow> int \<Rightarrow> task_event list io" where
  "get_events_after tid cursor =
     bindE (select (rows_after tid cursor)) (\<lambda>rows.
     bindE time_now (\<lambda>now. liftE (map_result (task_event_of now) rows)))"

section \<open>Decisions\<close>

definition insert_decision :: "string \<Rightarrow> decision_request \<Rightarrow> pending_decision io" where
  "insert_decision tid req =
     bindE time_now (\<lambda>now.
     thenE statement (
     bindE (getE w_db) (\<lambda>d.
     if dq_decision_id req \<notin> dr_id ` set (db_decisions d) \<and> \<not> fk_ok tid d
     then raiseE (IntegrityError ''FOREIGN KEY constraint failed'')
     else thenE (update_db (\<lambda>d.
            if dq_decision_id req \<in> dr_id ` set (db_decisions d) then d
            else d\<lparr>db_decisions := db_decisions d @
              [\<lparr>dr_id = dq_decision_id req, dr_task_id = tid, dr_kind = decision_kind_value (dq_kind req),
                dr_status = ''pending'', dr_request = req, dr_response = None, dr_idempotency_key = None,
                dr_created_at = now, dr_resolved_at = None\<rparr>]\<rparr>))
          (retE \<lparr>pd_decision_id = dq_decision_id req, pd_task_id = tid, pd_kind = dq_kind req,
             pd_status = ''pending'', pd_request = req, pd_response = None, pd_created_at = now,
             pd_resolved_at = None\<rparr>))))"

definition is_pending :: "string \<Rightarrow> decision_row \<Rightarrow> bool" where
  "is_pending did r \<longleftrightarrow> dr_id r = did \<and> dr_status r = ''pending''"

definition resolve_row :: "decision_response \<Rightarrow> timestamp \<Rightarrow> decision_row \<Rightarrow> decision_row" where
  "resolve_row resp now r =
     r\<lparr>dr_status := ''resolved'', dr_response := Some resp, dr_resolved_at := Some now,
       dr_idempotency_key := coalesce (dr_idempotency_key r) (dp_idempotency_key resp)\<rparr>"

text \<open>The partial unique index on \<open>idempotency_key\<close>.\<close>

definition key_clash :: "decision_row \<Rightarrow> db \<Rightarrow> bool" where
  "key_clash r d \<longleftrightarrow> dr_idempotency_key r \<noteq> None \<and>
     (\<exists>s \<in> set (db_decisions d). dr_id s \<noteq> dr_id r \<and> dr_idempotency_key s = dr_idempotency_key r)"

definition resolve_decision :: "string \<Rightarrow> decision_response \<Rightarrow> bool io" where
  "resolve_decision did resp =
     bindE time_now (\<lambda>now.
     thenE statement (
     bindE (getE w_db) (\<lambda>d.
     let hits = filter (is_pending did) (db_decisions d)
     in if list_ex (\<lambda>r. key_clash (resolve_row resp now r) d) hits
        then raiseE (IntegrityError ''UNIQUE constraint failed: decisions.idempotency_key'')
        else thenE (update_db (\<lambda>d. d\<lparr>db_decisions :=
               update_where (is_pending did) (resolve_row resp now) (db_decisions d)\<rparr>))
             (retE (hits \<noteq> [])))))"

definition pending_decision_of :: "decision_row \<Rightarrow> pending_decision" where
  "pending_decision_of r =
     \<lparr>pd_decision_id = dr_id r, pd_task_id = dr_task_id r, pd_kind = dq_kind (dr_request r),
      pd_status = dr_status r, pd_request = dr_request r, pd_response = dr_response r,
      pd_created_at = dr_created_at r, pd_resolved_at = dr_resolved_at r\<rparr>"

definition get_pending_decision :: "string \<Rightarrow> pending_decision option io" where
  "get_pending_decision tid =
     bindE (select (\<lambda>d. sort_key dr_created_at
        (filter (\<lambda>r. dr_task_id r = tid \<and> dr_status r = ''pending'') (db_decisions d)))) (\<lambda>rows.
     case rows of [] \<Rightarrow> retE None
     | r # _ \<Rightarrow> retE (Some \<lparr>pd_decision_id = dr_id r, pd_task_id = tid,
         pd_kind = dq_kind (dr_request r), pd_status = ''pending'', pd_request = dr_request r,
         pd_response = None, pd_created_at = dr_created_at r, pd_resolved_at = None\<rparr>))"

definition get_resolved_decision :: "string \<Rightarrow> pending_decision option io" where
  "get_resolved_decision did =
     bindE (select (\<lambda>d. find (\<lambda>r. dr_id r = did \<and> dr_status r = ''resolved'') (db_decisions d)))
       (\<lambda>row. retE (map_option pending_decision_of row))"

definition expire_row :: "timestamp \<Rightarrow> decision_row \<Rightarrow> decision_row" where
  "expire_row now r = r\<lparr>dr_status := ''timed_out'', dr_resolved_at := Some now\<rparr>"

definition expire_decision :: "string \<Rightarrow> bool io" where
  "expire_decision did =
     bindE time_now (\<lambda>now.
     thenE statement (
     bindE (getE (\<lambda>w. filter (is_pending did) (db_decisions (w_db w)))) (\<lambda>hits.
     thenE (update_db (\<lambda>d. d\<lparr>db_decisions :=
              update_where (is_pending did) (expire_row now) (db_decisions d)\<rparr>))
       (retE (hits \<noteq> [])))))"

section \<open>Artifacts\<close>

definition insert_artifact :: "artifact \<Rightarrow> string option \<Rightarrow> unit io" where
  "insert_artifact a path =
     thenE statement (
     bindE (getE w_db) (\<lambda>d.
     if art_id a \<in> ar_id ` set (db_artifacts d)
     then raiseE (IntegrityError ''UNIQUE constraint failed: artifacts.id'')
     else if \<not> fk_ok (art_task_id a) d then raiseE (IntegrityError ''FOREIGN KEY constraint failed'')
     else update_db (\<lambda>d. d\<lparr>db_artifacts := db_artifacts d @
       [\<lparr>ar_id = art_id a, ar_task_id = art_task_id a, ar_type = artifact_type_value (art_type a),
         ar_filename = art_filename a, ar_file_path = path, ar_size = art_size a,
         ar_created_at = art_created_at a, ar_expires_at = art_expires_at a,
         ar_metadata = json_dumps (JObj (art_metadata a))\<rparr>]\<rparr>)))"

definition decode_metadata :: "json_text option \<Rightarrow> (string \<times> json) list" where
  "decode_metadata raw =
     (case raw of None \<Rightarrow> []
      | Some t \<Rightarrow> (case json_loads t of Some (JObj kvs) \<Rightarrow> kvs | _ \<Rightarrow> []))"

definition artifact_of :: "artifact_row \<Rightarrow> exn + artifact" where
  "artifact_of r =
     (case artifact_type_of (ar_type r) of
        None \<Rightarrow> Inl (ValueError (ar_type r @ '' is not a valid ArtifactType''))
      | Some t \<Rightarrow> Inr \<lparr>art_id = ar_id r, art_task_id = ar_task_id r, art_type = t,
           art_filename = ar_filename r, art_size = ar_size r, art_created_at = ar_created_at r,
           art_expires_at = ar_expires_at r, art_download_url = None,
           art_metadata = decode_metadata (Some (ar_metadata r))\<rparr>)"

definition list_artifacts :: "string \<Rightarrow> artifact list io" where
  "list_artifacts tid =
     bindE (select (\<lambda>d. sort_key ar_created_at (filter (\<lambda>r. ar_task_id r = tid) (db_artifacts d))))
       (\<lambda>rows. liftE (map_result artifact_of rows))"

definition get_artifact_path :: "string \<Rightarrow> string \<Rightarrow> string option io" where
  "get_artifact_path aid tid =
     bindE (select (\<lambda>d. find (\<lambda>r. ar_id r = aid \<and> ar_task_id r = tid) (db_artifacts d)))
       (\<lambda>row. retE (case row of None \<Rightarrow> None | Some r \<Rightarrow> ar_file_path r))"

definition expired_before :: "timestamp \<Rightarrow> artifact_row \<Rightarrow> bool" where
  "expired_before before r \<longleftrightarrow> (case ar_expires_at r of None \<Rightarrow> False | Some t \<Rightarrow> t \<le> before)"

definition select_expired_artifacts :: "timestamp \<Rightarrow> nat \<Rightarrow> (string \<times> string option) list io" where
  "select_expired_artifacts before limit =
     select (\<lambda>d. map (\<lambda>r. (ar_id r, ar_file_path r))
       (take limit (sort_key (\<lambda>r. case ar_expires_at r of None \<Rightarrow> 0 | Some t \<Rightarrow> t)
          (filter (expired_before before) (db_artifacts d)))))"

definition delete_artifact_row :: "string \<Rightarrow> bool io" where
  "delete_artifact_row aid =
     thenE statement (
     bindE (getE (\<lambda>w. aid \<in> ar_id ` set (db_artifacts (w_db w)))) (\<lambda>found.
     thenE (update_db (\<lambda>d. d\<lparr>db_artifacts := filter (\<lambda>r. ar_id r \<noteq> aid) (db_artifacts d)\<rparr>))
       (retE found)))"

end
