(* ===== verification/Repo_Laws.thy ===== *)
theory Repo_Laws
  imports Repo
begin

text \<open>
  The laws of the repository: the well-formedness \<open>db_ok\<close> of the tables and its preservation
  by every function, and what each function returns on a well-formed database whose statements
  succeed. The event table of a task is an append-only log numbered from one.
\<close>

section \<open>Well-formed tables\<close>

definition tasks_ok :: "db \<Rightarrow> bool" where
  "tasks_ok d \<longleftrightarrow> distinct (map tr_id (db_tasks d)) \<and>
     (\<forall>r \<in> set (db_tasks d). task_status_of (tr_status r) \<noteq> None \<and> task_mode_of (tr_mode r) \<noteq> None)"

definition event_row_ok :: "event_row \<Rightarrow> bool" where
  "event_row_ok r \<longleftrightarrow> event_kind_of (er_kind r) \<noteq> None \<and> (\<exists>kvs. er_payload r = JText (JObj kvs))"

definition numbered :: "event_row list \<Rightarrow> bool" where
  "numbered rs \<longleftrightarrow> map er_event_id rs = map int [1..<Suc (length rs)]"

definition events_ok :: "db \<Rightarrow> bool" where
  "events_ok d \<longleftrightarrow> (\<forall>tid. numbered (events_of tid d)) \<and> (\<forall>r \<in> set (db_events d). event_row_ok r)"

definition decision_row_ok :: "decision_row \<Rightarrow> bool" where
  "decision_row_ok r \<longleftrightarrow> dr_status r \<in> {''pending'', ''resolved'', ''timed_out''} \<and>
     (dr_status r = ''resolved'' \<longleftrightarrow> dr_response r \<noteq> None) \<and>
     (dr_status r = ''pending'' \<longrightarrow> dr_idempotency_key r = None)"

definition keys_unique :: "decision_row list \<Rightarrow> bool" where
  "keys_unique rs \<longleftrightarrow> (\<forall>r \<in> set rs. \<forall>s \<in> set rs. \<forall>k.
     dr_idempotency_key r = Some k \<longrightarrow> dr_idempotency_key s = Some k \<longrightarrow> dr_id s = dr_id r)"

lemma keys_uniqueD:
  "keys_unique rs \<Longrightarrow> r \<in> set rs \<Longrightarrow> s \<in> set rs \<Longrightarrow> dr_idempotency_key r = Some k \<Longrightarrow>
   dr_idempotency_key s = Some k \<Longrightarrow> dr_id s = dr_id r"
  unfolding keys_unique_def by blast

lemma keys_uniqueI:
  "(\<And>r s k. r \<in> set rs \<Longrightarrow> s \<in> set rs \<Longrightarrow> dr_idempotency_key r = Some k \<Longrightarrow>
     dr_idempotency_key s = Some k \<Longrightarrow> dr_id s = dr_id r) \<Longrightarrow> keys_unique rs"
  unfolding keys_unique_def by blast

lemma keys_unique_snoc:
  assumes "keys_unique rs" and "dr_idempotency_key x = None"
  shows "keys_unique (rs @ [x])"
proof (rule keys_uniqueI)
  fix r s k
  assume "r \<in> set (rs @ [x])" "s \<in> set (rs @ [x])"
    and k: "dr_idempotency_key r = Some k" "dr_idempotency_key s = Some k"
  then have "r \<in> set rs" "s \<in> set rs" using assms(2) by auto
  then show "dr_id s = dr_id r" using keys_uniqueD [OF assms(1)] k by blast
qed

lemma keys_unique_filter: "keys_unique rs \<Longrightarrow> keys_unique (filter P rs)"
  by (rule keys_uniqueI) (blast dest: keys_uniqueD intro: filter_is_subset [THEN subsetD])

lemma keys_unique_Nil [simp]: "keys_unique []"
  by (rule keys_uniqueI) simp

definition decisions_ok :: "db \<Rightarrow> bool" where
  "decisions_ok d \<longleftrightarrow> distinct (map dr_id (db_decisions d)) \<and>
     (\<forall>r \<in> set (db_decisions d). decision_row_ok r) \<and> keys_unique (db_decisions d)"

definition artifacts_ok :: "db \<Rightarrow> bool" where
  "artifacts_ok d \<longleftrightarrow> distinct (map ar_id (db_artifacts d)) \<and>
     (\<forall>r \<in> set (db_artifacts d). artifact_type_of (ar_type r) \<noteq> None)"

definition refs_ok :: "db \<Rightarrow> bool" where
  "refs_ok d \<longleftrightarrow> db_foreign_keys d \<longrightarrow>
     er_task_id ` set (db_events d) \<union> dr_task_id ` set (db_decisions d) \<union> ar_task_id ` set (db_artifacts d)
       \<subseteq> tr_id ` set (db_tasks d)"

definition db_ok :: "db \<Rightarrow> bool" where
  "db_ok d \<longleftrightarrow> tasks_ok d \<and> events_ok d \<and> decisions_ok d \<and> artifacts_ok d \<and> refs_ok d"

lemma db_ok_empty: "db_ok empty_db"
  by (simp add: db_ok_def empty_db_def tasks_ok_def events_ok_def events_of_def numbered_def
      decisions_ok_def artifacts_ok_def refs_ok_def)

lemma numbered_Nil [simp]: "numbered []"
  by (simp add: numbered_def)

text \<open>An operation that keeps the tables well-formed, whatever its outcome.\<close>

definition db_safe :: "'a io \<Rightarrow> bool" where
  "db_safe m \<longleftrightarrow> keeps (\<lambda>w. db_ok (w_db w)) m"

lemma db_safeD: "db_safe m \<Longrightarrow> db_ok (w_db w) \<Longrightarrow> db_ok (w_db (snd (m w)))"
  by (simp add: db_safe_def keeps_def)

lemma db_safe_readonly: "(\<And>P. keeps (\<lambda>w. P (w_db w)) m) \<Longrightarrow> db_safe m"
  by (simp add: db_safe_def)

text \<open>After a statement, a function reads the tables and updates them or raises.\<close>

lemma db_safe_checked:
  assumes "\<And>w. db_ok (w_db w) \<Longrightarrow> db_ok (w_db (snd (f (g w) w)))"
  shows "db_safe (thenE statement (bindE (getE g) f))"
  unfolding db_safe_def
proof (rule keeps_then [OF keeps_db_statement])
  show "keeps (\<lambda>w. db_ok (w_db w)) (bindE (getE g) f)"
    using assms by (intro keepsI) (simp add: comp_defs)
qed

lemma db_safe_timed: "(\<And>now. db_safe (f now)) \<Longrightarrow> db_safe (bindE time_now f)"
  unfolding db_safe_def by (rule keeps_bind [OF keeps_db_time])

lemma keeps_update_where_tasks:
  assumes "db_ok d" and "\<And>r. tr_id (f r) = tr_id r"
    and "\<And>r. task_status_of (tr_status r) \<noteq> None \<Longrightarrow> task_status_of (tr_status (f r)) \<noteq> None"
    and "\<And>r. tr_mode (f r) = tr_mode r"
  shows "db_ok (d\<lparr>db_tasks := update_where P f (db_tasks d)\<rparr>)"
proof -
  have ids: "map tr_id (update_where P f (db_tasks d)) = map tr_id (db_tasks d)"
    using assms(2) by (rule map_update_where)
  then have idset: "tr_id ` set (update_where P f (db_tasks d)) = tr_id ` set (db_tasks d)"
    by (metis list.set_map)
  have "tasks_ok (d\<lparr>db_tasks := update_where P f (db_tasks d)\<rparr>)"
    using assms ids by (auto simp: db_ok_def tasks_ok_def set_update_where)
  with assms(1) idset show ?thesis
    by (simp add: db_ok_def events_ok_def events_of_def decisions_ok_def artifacts_ok_def refs_ok_def)
qed

section \<open>Tasks\<close>

lemma db_safe_insert_task: "db_safe (insert_task rq st)"
  unfolding insert_task_def
  by (intro db_safe_timed db_safe_checked)
    (auto simp: comp_defs update_db_def task_exists_def db_ok_def tasks_ok_def events_ok_def
      events_of_def decisions_ok_def artifacts_ok_def refs_ok_def)

lemma db_safe_get_task: "db_safe (get_task tid)"
  unfolding db_safe_def get_task_def
  by (intro keeps_intros) (auto simp: keeps_ret keeps_raise split: option.splits sum.splits)

lemma db_safe_update_task_status_full: "db_safe (update_task_status_full tid st c s)"
  unfolding db_safe_def update_task_status_full_def
  by (intro keeps_intros keeps_db_update keeps_update_where_tasks) (simp_all add: set_task_status_def)

lemma db_safe_update_task_status: "db_safe (update_task_status tid st)"
  unfolding update_task_status_def by (rule db_safe_update_task_status_full)

lemma db_ok_cascade:
  assumes "db_ok d"
  shows "db_ok (d\<lparr>db_tasks := filter (\<lambda>r. tr_id r \<noteq> tid) (db_tasks d),
                  db_events := filter (\<lambda>r. er_task_id r \<noteq> tid) (db_events d),
                  db_decisions := filter (\<lambda>r. dr_task_id r \<noteq> tid) (db_decisions d),
                  db_artifacts := filter (\<lambda>r. ar_task_id r \<noteq> tid) (db_artifacts d)\<rparr>)" (is "db_ok ?d")
proof -
  have ev: "events_of t ?d = (if t = tid then [] else events_of t d)" for t
    unfolding events_of_def by (auto simp: filter_empty_conv intro: filter_cong)
  have "events_ok ?d" using assms by (auto simp: db_ok_def events_ok_def ev)
  then show ?thesis using assms
    by (auto simp: db_ok_def tasks_ok_def decisions_ok_def artifacts_ok_def refs_ok_def keys_unique_filter
        distinct_map_filter)
qed

lemma db_ok_delete_only_task:
  "db_ok d \<Longrightarrow> \<not> db_foreign_keys d \<Longrightarrow> db_ok (d\<lparr>db_tasks := filter (\<lambda>r. tr_id r \<noteq> tid) (db_tasks d)\<rparr>)"
  by (auto simp: db_ok_def tasks_ok_def events_ok_def events_of_def decisions_ok_def artifacts_ok_def
      refs_ok_def distinct_map_filter)

lemma db_safe_delete_task: "db_safe (delete_task tid)"
  unfolding db_safe_def delete_task_def
  by (intro keeps_intros keeps_db_update) (auto simp: Let_def db_ok_cascade db_ok_delete_only_task)

lemma db_safe_list_non_terminal: "db_safe list_non_terminal_tasks"
  unfolding db_safe_def list_non_terminal_tasks_def by (intro keeps_intros)

section \<open>Events\<close>

lemma coalesce_max_Max: "xs \<noteq> [] \<Longrightarrow> coalesce_max xs = Max (set xs)"
  by (cases xs) (simp_all add: Max.set_eq_fold del: list.set)

lemma coalesce_max_ge: "x \<in> set xs \<Longrightarrow> x \<le> coalesce_max xs"
  by (cases "xs = []") (auto simp: coalesce_max_Max)

lemma coalesce_max_numbered:
  assumes "numbered rs"
  shows "coalesce_max (map er_event_id rs) = int (length rs)"
proof (cases "rs = []")
  case False
  have ids: "set (map er_event_id rs) = int ` {1..length rs}"
    using assms by (simp only: numbered_def set_map set_upt) (simp add: atLeastLessThanSuc_atLeastAtMost)
  have "int (length rs) \<in> int ` {1..length rs}" using False by (simp add: Suc_leI)
  then have "Max (int ` {1..length rs}) = int (length rs)" by (intro Max_eqI) auto
  with False ids show ?thesis by (simp add: coalesce_max_Max)
qed simp

lemma next_event_id_fresh: "next_event_id tid d \<notin> er_event_id ` set (events_of tid d)"
  using coalesce_max_ge [of "next_event_id tid d" "map er_event_id (events_of tid d)"]
  by (auto simp: next_event_id_def)

lemma next_event_id_numbered: "events_ok d \<Longrightarrow> next_event_id tid d = int (Suc (length (events_of tid d)))"
  by (simp add: next_event_id_def events_ok_def coalesce_max_numbered)

lemma numbered_snoc:
  assumes "numbered rs" and "er_event_id r = int (Suc (length rs))"
  shows "numbered (rs @ [r])"
  using assms by (simp add: numbered_def)

definition new_event_row :: "string \<Rightarrow> event_kind \<Rightarrow> (string \<times> json) list \<Rightarrow> timestamp \<Rightarrow> db \<Rightarrow> event_row" where
  "new_event_row tid kind payload now d =
     \<lparr>er_event_id = next_event_id tid d, er_task_id = tid, er_kind = event_kind_value kind,
      er_payload = json_dumps (JObj payload), er_ts = now\<rparr>"

text \<open>What one uninterrupted \<open>insert_event\<close> can do to the tables: append exactly its row, or
  raise and leave them. It never meets the UNIQUE constraint.\<close>

lemma insert_event_db:
  "(\<exists>ev. fst (insert_event tid kind payload w) = Inr ev \<and>
      fk_ok tid (w_db w) \<and>
      w_db (snd (insert_event tid kind payload w)) =
        (w_db w)\<lparr>db_events := db_events (w_db w) @ [new_event_row tid kind payload (w_clock w) (w_db w)]\<rparr>) \<or>
   (\<exists>e. fst (insert_event tid kind payload w) = Inl e \<and>
      (e = OperationalError ''database is locked'' \<or>
       e = IntegrityError ''FOREIGN KEY constraint failed'' \<and> \<not> fk_ok tid (w_db w)) \<and>
      w_db (snd (insert_event tid kind payload w)) = w_db w)"
  using next_event_id_fresh [of tid "w_db w"]
  by (auto simp: insert_event_def insert_event_row_def event_violation_def new_event_row_def comp_defs
      select_def statement_def time_now_def with_buses_def update_db_def split: list.splits)

lemma db_ok_append_event:
  assumes "db_ok d" and "fk_ok tid d"
  shows "db_ok (d\<lparr>db_events := db_events d @ [new_event_row tid kind payload now d]\<rparr>)"
proof -
  have nxt: "next_event_id tid d = int (Suc (length (events_of tid d)))"
    using assms(1) by (simp add: db_ok_def next_event_id_numbered)
  have ev: "events_of t (d\<lparr>db_events := db_events d @ [new_event_row tid kind payload now d]\<rparr>) =
      events_of t d @ (if t = tid then [new_event_row tid kind payload now d] else [])" for t
    by (simp add: events_of_def new_event_row_def)
  have "numbered (events_of t d @ (if t = tid then [new_event_row tid kind payload now d] else []))" for t
    using assms(1) nxt by (auto simp: db_ok_def events_ok_def new_event_row_def intro: numbered_snoc)
  moreover have "event_row_ok (new_event_row tid kind payload now d)"
    by (simp add: event_row_ok_def new_event_row_def json_dumps_def)
  ultimately have "events_ok (d\<lparr>db_events := db_events d @ [new_event_row tid kind payload now d]\<rparr>)"
    using assms(1) by (simp add: events_ok_def ev db_ok_def)
  moreover have "refs_ok (d\<lparr>db_events := db_events d @ [new_event_row tid kind payload now d]\<rparr>)"
    using assms by (auto simp: db_ok_def refs_ok_def fk_ok_def task_exists_def new_event_row_def)
  ultimately show ?thesis
    using assms(1) by (simp add: db_ok_def tasks_ok_def decisions_ok_def artifacts_ok_def)
qed

lemma db_safe_insert_event: "db_safe (insert_event tid kind payload)"
  unfolding db_safe_def
proof (rule keepsI)
  fix w :: world assume "db_ok (w_db w)"
  then show "db_ok (w_db (snd (insert_event tid kind payload w)))"
    using insert_event_db [of tid kind payload w] db_ok_append_event [of "w_db w" tid] by auto
qed

lemma db_safe_get_events_after: "db_safe (get_events_after tid c)"
  unfolding db_safe_def get_events_after_def by (intro keeps_intros)

section \<open>Decisions\<close>

lemma db_ok_decisions:
  assumes "db_ok d" and "decisions_ok (d\<lparr>db_decisions := rs\<rparr>)"
    and "db_foreign_keys d \<Longrightarrow> dr_task_id ` set rs \<subseteq> tr_id ` set (db_tasks d)"
  shows "db_ok (d\<lparr>db_decisions := rs\<rparr>)"
  using assms by (auto simp: db_ok_def tasks_ok_def events_ok_def events_of_def artifacts_ok_def refs_ok_def)

lemma db_ok_new_decision:
  assumes "db_ok d" and "dq_decision_id req \<notin> dr_id ` set (db_decisions d)" and "fk_ok tid d"
  shows "db_ok (d\<lparr>db_decisions := db_decisions d @
           [\<lparr>dr_id = dq_decision_id req, dr_task_id = tid, dr_kind = decision_kind_value (dq_kind req),
             dr_status = ''pending'', dr_request = req, dr_response = None, dr_idempotency_key = None,
             dr_created_at = now, dr_resolved_at = None\<rparr>]\<rparr>)"
proof (rule db_ok_decisions [OF assms(1)])
  show "decisions_ok (d\<lparr>db_decisions := db_decisions d @
           [\<lparr>dr_id = dq_decision_id req, dr_task_id = tid, dr_kind = decision_kind_value (dq_kind req),
             dr_status = ''pending'', dr_request = req, dr_response = None, dr_idempotency_key = None,
             dr_created_at = now, dr_resolved_at = None\<rparr>]\<rparr>)"
    using assms(1,2) by (auto simp: db_ok_def decisions_ok_def decision_row_ok_def intro!: keys_unique_snoc)
qed (use assms in \<open>auto simp: db_ok_def refs_ok_def fk_ok_def task_exists_def\<close>)

lemma db_safe_insert_decision: "db_safe (insert_decision tid req)"
  unfolding insert_decision_def
  by (intro db_safe_timed db_safe_checked)
    (auto simp: comp_defs update_db_def intro: db_ok_new_decision)

lemma is_pending_unique:
  assumes "distinct (map dr_id ds)" and "r \<in> set ds" and "is_pending did r"
  shows "\<forall>s \<in> set ds. is_pending did s \<longrightarrow> s = r"
proof (intro ballI impI)
  fix s assume "s \<in> set ds" and "is_pending did s"
  moreover have "inj_on dr_id (set ds)" using assms(1) by (simp add: distinct_map)
  ultimately show "s = r" using assms(2,3) by (auto simp: is_pending_def dest: inj_onD)
qed

lemma decisions_ok_update:
  assumes "decisions_ok d" and id: "\<And>r. dr_id (f r) = dr_id r"
    and row: "\<And>r. r \<in> set (db_decisions d) \<Longrightarrow> is_pending did r \<Longrightarrow> decision_row_ok (f r)"
    and key: "\<And>r. r \<in> set (db_decisions d) \<Longrightarrow> is_pending did r \<Longrightarrow> \<not> key_clash (f r) d"
  shows "decisions_ok (d\<lparr>db_decisions := update_where (is_pending did) f (db_decisions d)\<rparr>)"
proof -
  let ?u = "update_where (is_pending did) f (db_decisions d)"
  have dist: "distinct (map dr_id (db_decisions d))" using assms(1) by (simp add: decisions_ok_def)
  have upd: "x \<in> set (db_decisions d) \<or> (\<exists>y \<in> set (db_decisions d). is_pending did y \<and> x = f y)"
    if "x \<in> set ?u" for x
    using that by (auto simp: set_update_where)
  have mixed: "dr_id x = dr_id (f y)"
    if "y \<in> set (db_decisions d)" "is_pending did y" "x \<in> set (db_decisions d)"
      "dr_idempotency_key (f y) = Some k" "dr_idempotency_key x = Some k" for x y k
    using key [OF that(1,2)] that(3-5) by (auto simp: key_clash_def)
  have "keys_unique ?u"
  proof (rule keys_uniqueI)
    fix r s k assume r: "r \<in> set ?u" and s: "s \<in> set ?u"
      and kr: "dr_idempotency_key r = Some k" and ks: "dr_idempotency_key s = Some k"
    from upd [OF r] show "dr_id s = dr_id r"
    proof
      assume r': "r \<in> set (db_decisions d)"
      from upd [OF s] show ?thesis
      proof
        assume "s \<in> set (db_decisions d)"
        then show ?thesis using keys_uniqueD [OF _ r' _ kr ks] assms(1) by (simp add: decisions_ok_def)
      next
        assume "\<exists>y \<in> set (db_decisions d). is_pending did y \<and> s = f y"
        then show ?thesis using mixed [OF _ _ r'] kr ks by metis
      qed
    next
      assume "\<exists>y \<in> set (db_decisions d). is_pending did y \<and> r = f y"
      then obtain y where y: "y \<in> set (db_decisions d)" "is_pending did y" "r = f y" by blast
      from upd [OF s] show ?thesis
      proof
        assume "s \<in> set (db_decisions d)"
        then show ?thesis using mixed [OF y(1,2)] y(3) kr ks by blast
      next
        assume "\<exists>z \<in> set (db_decisions d). is_pending did z \<and> s = f z"
        then show ?thesis using is_pending_unique [OF dist y(1,2)] y(3) by blast
      qed
    qed
  qed
  moreover have "map dr_id ?u = map dr_id (db_decisions d)" using id by (rule map_update_where)
  ultimately show ?thesis using assms(1) row
    by (auto simp: decisions_ok_def set_update_where)
qed

lemma db_ok_update_decisions:
  assumes "db_ok d" and "\<And>r. dr_id (f r) = dr_id r" and "\<And>r. dr_task_id (f r) = dr_task_id r"
    and "\<And>r. r \<in> set (db_decisions d) \<Longrightarrow> is_pending did r \<Longrightarrow> decision_row_ok (f r)"
    and "\<And>r. r \<in> set (db_decisions d) \<Longrightarrow> is_pending did r \<Longrightarrow> \<not> key_clash (f r) d"
  shows "db_ok (d\<lparr>db_decisions := update_where (is_pending did) f (db_decisions d)\<rparr>)"
proof (rule db_ok_decisions [OF assms(1)])
  show "decisions_ok (d\<lparr>db_decisions := update_where (is_pending did) f (db_decisions d)\<rparr>)"
    using assms(1) by (intro decisions_ok_update assms(2,4,5)) (simp add: db_ok_def)
  have "map dr_task_id (update_where (is_pending did) f (db_decisions d)) = map dr_task_id (db_decisions d)"
    using assms(3) by (rule map_update_where)
  then have "dr_task_id ` set (update_where (is_pending did) f (db_decisions d)) = dr_task_id ` set (db_decisions d)"
    by (metis list.set_map)
  then show "db_foreign_keys d \<Longrightarrow>
      dr_task_id ` set (update_where (is_pending did) f (db_decisions d)) \<subseteq> tr_id ` set (db_tasks d)"
    using assms(1) by (simp add: db_ok_def refs_ok_def)
qed

lemma db_safe_resolve_decision: "db_safe (resolve_decision did resp)"
  unfolding resolve_decision_def
  by (intro db_safe_timed db_safe_checked)
    (auto simp: comp_defs update_db_def Let_def resolve_row_def decision_row_ok_def list_ex_iff
      intro!: db_ok_update_decisions)

lemma db_safe_expire_decision: "db_safe (expire_decision did)"
  unfolding expire_decision_def
proof (intro db_safe_timed db_safe_checked)
  fix now and w :: world assume ok: "db_ok (w_db w)"
  have row: "decision_row_ok r" if "r \<in> set (db_decisions (w_db w))" for r
    using ok that by (simp add: db_ok_def decisions_ok_def)
  show "db_ok (w_db (snd (thenE (update_db (\<lambda>d. d\<lparr>db_decisions :=
        update_where (is_pending did) (expire_row now) (db_decisions d)\<rparr>))
      (retE (filter (is_pending did) (db_decisions (w_db w)) \<noteq> [])) w)))"
    using ok by (auto simp: comp_defs update_db_def expire_row_def decision_row_ok_def is_pending_def key_clash_def
        intro!: db_ok_update_decisions dest!: row)
qed

lemma db_safe_get_pending: "db_safe (get_pending_decision tid)"
  unfolding db_safe_def get_pending_decision_def
  by (intro keeps_intros) (auto simp: keeps_ret split: list.splits)

lemma db_safe_get_resolved: "db_safe (get_resolved_decision did)"
  unfolding db_safe_def get_resolved_decision_def by (intro keeps_intros)

section \<open>Artifacts\<close>

lemma db_safe_insert_artifact: "db_safe (insert_artifact a path)"
  unfolding insert_artifact_def
  by (intro db_safe_checked)
    (auto simp: comp_defs update_db_def db_ok_def tasks_ok_def events_ok_def events_of_def
      decisions_ok_def artifacts_ok_def refs_ok_def fk_ok_def task_exists_def)

lemma db_safe_list_artifacts: "db_safe (list_artifacts tid)"
  unfolding db_safe_def list_artifacts_def by (intro keeps_intros)

lemma db_safe_get_artifact_path: "db_safe (get_artifact_path aid tid)"
  unfolding db_safe_def get_artifact_path_def by (intro keeps_intros)

lemma db_safe_select_expired: "db_safe (select_expired_artifacts t n)"
  unfolding db_safe_def select_expired_artifacts_def by (intro keeps_intros)

lemma db_safe_delete_artifact_row: "db_safe (delete_artifact_row aid)"
  unfolding delete_artifact_row_def
  by (intro db_safe_checked)
    (auto simp: comp_defs update_db_def db_ok_def tasks_ok_def events_ok_def events_of_def
      decisions_ok_def artifacts_ok_def refs_ok_def distinct_map_filter)

lemma db_safe_init_db: "db_safe init_db"
  unfolding db_safe_def init_db_def
  by (intro keeps_intros keeps_modify)
    (auto simp: db_ok_def tasks_ok_def events_ok_def events_of_def decisions_ok_def artifacts_ok_def refs_ok_def)

lemma db_safe_close_db: "db_safe close_db"
  unfolding db_safe_def close_db_def by (rule keeps_modify) simp

lemma db_safe_get_db: "db_safe get_db"
  by (rule db_safe_readonly) (rule keeps_db_get_db)

lemmas db_safe_repo =
  db_safe_insert_task db_safe_get_task db_safe_update_task_status_full db_safe_update_task_status
  db_safe_delete_task db_safe_list_non_terminal db_safe_insert_event db_safe_get_events_after
  db_safe_insert_decision db_safe_resolve_decision db_safe_expire_decision db_safe_get_pending
  db_safe_get_resolved db_safe_insert_artifact db_safe_list_artifacts db_safe_get_artifact_path
  db_safe_select_expired db_safe_delete_artifact_row db_safe_init_db db_safe_close_db db_safe_get_db

text \<open>The rules that carry \<open>db_safe\<close> through the code that calls the repository.\<close>

named_theorems db_safe_rules \<open>compositional rules for db_safe\<close>

lemma db_safe_ret [db_safe_rules]: "db_safe (retE x)"
  and db_safe_raise [db_safe_rules]: "db_safe (raiseE e)"
  and db_safe_get [db_safe_rules]: "db_safe (getE g)"
  and db_safe_lift [db_safe_rules]: "db_safe (liftE r)"
  and db_safe_statement [db_safe_rules]: "db_safe statement"
  and db_safe_select [db_safe_rules]: "db_safe (select q)"
  and db_safe_time [db_safe_rules]: "db_safe time_now"
  and db_safe_uuid [db_safe_rules]: "db_safe uuid4"
  and db_safe_sleep [db_safe_rules]: "db_safe (sleep t)"
  and db_safe_metric [db_safe_rules]: "db_safe (metric f)"
  and db_safe_buses [db_safe_rules]: "db_safe (with_buses h)"
  unfolding db_safe_def by (intro keeps_intros)+

lemma db_safe_bind [db_safe_rules]: "db_safe m \<Longrightarrow> (\<And>x. db_safe (f x)) \<Longrightarrow> db_safe (bindE m f)"
  and db_safe_then [db_safe_rules]: "db_safe m \<Longrightarrow> db_safe n \<Longrightarrow> db_safe (thenE m n)"
  and db_safe_finally [db_safe_rules]: "db_safe m \<Longrightarrow> db_safe c \<Longrightarrow> db_safe (finallyE m c)"
  unfolding db_safe_def by (intro keeps_intros; simp)+

lemma db_safe_try [db_safe_rules]: "db_safe m \<Longrightarrow> (\<And>e. db_safe (h e)) \<Longrightarrow> db_safe (tryE m h)"
  unfolding db_safe_def by (rule keeps_try)

lemma db_safe_when [db_safe_rules]: "(b \<Longrightarrow> db_safe m) \<Longrightarrow> db_safe (whenE b m)"
  unfolding db_safe_def by (rule keeps_when)

lemma db_safe_if [db_safe_rules]: "(b \<Longrightarrow> db_safe m) \<Longrightarrow> (\<not> b \<Longrightarrow> db_safe n) \<Longrightarrow> db_safe (if b then m else n)"
  by simp

lemma db_safe_option [db_safe_rules]:
  "db_safe m \<Longrightarrow> (\<And>y. db_safe (f y)) \<Longrightarrow> db_safe (case x of None \<Rightarrow> m | Some y \<Rightarrow> f y)"
  by (cases x) simp_all

lemma db_safe_for [db_safe_rules]: "(\<And>x. x \<in> set xs \<Longrightarrow> db_safe (f x)) \<Longrightarrow> db_safe (forE xs f)"
  unfolding db_safe_def by (rule keeps_for)

lemma db_safe_modify: "(\<And>w. w_db (f w) = w_db w) \<Longrightarrow> db_safe (modifyE f)"
  unfolding db_safe_def by (rule keeps_modify) simp

lemma db_safe_discard_locks [db_safe_rules]: "db_safe (discard_task_locks tid)"
  unfolding discard_task_locks_def by (rule db_safe_modify) simp

declare db_safe_repo [db_safe_rules]

section \<open>What the repository raises\<close>

lemma raises_statement [raises_intros]: "raises is_Exception statement"
  by (rule raisesI) (auto simp: statement_def split: list.splits if_splits)

lemma raises_select [raises_intros]: "raises is_Exception (select q)"
  unfolding select_def by (intro raises_intros)

lemma raises_get_db [raises_intros]: "raises is_Exception get_db"
  by (rule raisesI) (auto simp: get_db_def comp_defs split: if_splits)

lemma raises_time [raises_intros]: "raises P time_now"
  unfolding time_now_def by (intro raises_intros)

lemma raises_world_updates [raises_intros]:
  "raises P (update_db f)" "raises P (metric g)" "raises P (with_buses h)" "raises P (discard_task_locks tid)"
  "raises P (sleep d)"
  by (simp_all add: update_db_def metric_def with_buses_def discard_task_locks_def sleep_def raises_modify)

lemma raises_uuid [raises_intros]: "raises P uuid4"
  by (simp add: raises_def uuid4_def)

lemma map_result_Inl: "map_result f xs = Inl e \<Longrightarrow> \<exists>x \<in> set xs. f x = Inl e"
  by (induction xs) (auto split: sum.splits)

lemma raises_insert_task: "raises is_Exception (insert_task rq st)"
  unfolding insert_task_def by (intro raises_intros raises_raise) simp

lemma raises_get_task: "raises is_Exception (get_task tid)"
  unfolding get_task_def
  by (intro raises_intros) (auto simp: task_response_of_def raises_def comp_defs split: sum.splits option.splits)

lemma raises_update_task_status_full: "raises is_Exception (update_task_status_full tid st c s)"
  unfolding update_task_status_full_def by (intro raises_intros)

lemma raises_update_task_status: "raises is_Exception (update_task_status tid st)"
  unfolding update_task_status_def by (rule raises_update_task_status_full)

lemma raises_delete_task: "raises is_Exception (delete_task tid)"
  unfolding delete_task_def by (intro raises_intros)

lemma raises_list_non_terminal: "raises is_Exception list_non_terminal_tasks"
  unfolding list_non_terminal_tasks_def by (intro raises_intros)

lemma raises_insert_event: "raises is_Exception (insert_event tid k p)"
proof (rule raisesI)
  fix w e t assume "insert_event tid k p w = (Inl e, t)"
  then have "e = OperationalError ''database is locked'' \<or> e = IntegrityError ''FOREIGN KEY constraint failed''"
    using insert_event_db [of tid k p w] by auto
  then show "is_Exception e" by auto
qed

lemma raises_lift: "(\<And>e. r = Inl e \<Longrightarrow> P e) \<Longrightarrow> raises P (liftE r)"
  by (simp add: raises_def liftE_def)

lemma task_event_of_raises: "task_event_of now r = Inl e \<Longrightarrow> is_Exception e"
  by (auto simp: task_event_of_def split: option.splits if_splits)

lemma artifact_of_raises: "artifact_of r = Inl e \<Longrightarrow> is_Exception e"
  by (auto simp: artifact_of_def split: option.splits)

lemma raises_get_events_after: "raises is_Exception (get_events_after tid c)"
  unfolding get_events_after_def
  by (intro raises_intros raises_lift) (auto dest!: map_result_Inl task_event_of_raises)

lemma raises_insert_decision: "raises is_Exception (insert_decision tid req)"
  unfolding insert_decision_def by (intro raises_intros raises_raise) simp

lemma raises_resolve_decision: "raises is_Exception (resolve_decision did resp)"
  unfolding resolve_decision_def Let_def by (intro raises_intros raises_raise) simp

lemma raises_expire_decision: "raises is_Exception (expire_decision did)"
  unfolding expire_decision_def by (intro raises_intros)

lemma raises_get_resolved: "raises is_Exception (get_resolved_decision did)"
  unfolding get_resolved_decision_def by (intro raises_intros)

lemma raises_insert_artifact: "raises is_Exception (insert_artifact a path)"
  unfolding insert_artifact_def by (intro raises_intros raises_raise) simp_all

lemma raises_list_artifacts: "raises is_Exception (list_artifacts tid)"
  unfolding list_artifacts_def
  by (intro raises_intros raises_lift) (auto dest!: map_result_Inl artifact_of_raises)

lemma raises_get_artifact_path: "raises is_Exception (get_artifact_path aid tid)"
  unfolding get_artifact_path_def by (intro raises_intros)

lemma raises_select_expired: "raises is_Exception (select_expired_artifacts t n)"
  unfolding select_expired_artifacts_def by (intro raises_intros)

lemma raises_delete_artifact_row: "raises is_Exception (delete_artifact_row aid)"
  unfolding delete_artifact_row_def by (intro raises_intros)

lemmas raises_repo [raises_intros] =
  raises_insert_task raises_get_task raises_update_task_status_full raises_update_task_status
  raises_delete_task raises_list_non_terminal raises_insert_event raises_get_events_after
  raises_insert_decision raises_resolve_decision raises_expire_decision raises_get_resolved
  raises_insert_artifact raises_list_artifacts raises_get_artifact_path raises_select_expired
  raises_delete_artifact_row

section \<open>What the repository leaves alone\<close>

definition outer :: "world \<Rightarrow> bool \<times> timestamp \<times> metrics \<times> string list \<times> (string \<times> string list) list \<times> (file_path \<times> json) list" where
  "outer w = (w_connected w, w_clock w, w_metrics w, w_queue w, w_policies w, w_files w)"

lemma outer_prims [preserves_intros]:
  "preserves outer statement" "preserves outer (update_db f)" "preserves outer (with_buses h)"
  "preserves outer (discard_task_locks tid)" "preserves outer uuid4" "preserves outer get_db"
  by (rule preservesI; simp add: statement_def update_db_def with_buses_def discard_task_locks_def uuid4_def
      get_db_def comp_defs outer_def split: list.splits)+

lemma outer_time [preserves_intros]: "preserves f time_now"
  unfolding time_now_def by (rule preserves_get)

lemma outer_select [preserves_intros]: "preserves outer (select q)"
  unfolding select_def by (intro preserves_intros)

lemma outer_repo [preserves_intros]:
  "preserves outer (insert_task rq st)" "preserves outer (get_task tid)"
  "preserves outer (update_task_status_full tid st c s)" "preserves outer (update_task_status tid st)"
  "preserves outer (delete_task tid)" "preserves outer list_non_terminal_tasks"
  "preserves outer (get_events_after tid k)" "preserves outer (insert_decision tid req)"
  "preserves outer (resolve_decision did resp)" "preserves outer (get_resolved_decision did)"
  "preserves outer (expire_decision did)" "preserves outer (insert_artifact a path)"
  "preserves outer (list_artifacts tid)" "preserves outer (get_artifact_path aid tid)"
  "preserves outer (select_expired_artifacts t n)" "preserves outer (delete_artifact_row aid)"
  unfolding insert_task_def get_task_def update_task_status_def update_task_status_full_def delete_task_def
    list_non_terminal_tasks_def get_events_after_def insert_decision_def resolve_decision_def Let_def
    get_resolved_decision_def expire_decision_def insert_artifact_def list_artifacts_def
    get_artifact_path_def select_expired_artifacts_def delete_artifact_row_def
  by (intro preserves_intros)+

lemma outer_insert_event [preserves_intros]: "preserves outer (insert_event tid k p)"
  unfolding insert_event_def insert_event_row_def
  by (intro preserves_intros preserves_modify) (simp add: outer_def)

lemma outerD:
  assumes "preserves outer m"
  shows "w_connected (snd (m w)) = w_connected w" "w_clock (snd (m w)) = w_clock w"
    "w_metrics (snd (m w)) = w_metrics w" "w_queue (snd (m w)) = w_queue w"
    "w_policies (snd (m w)) = w_policies w" "w_files (snd (m w)) = w_files w"
  using preservesD [OF assms, of w] by (simp_all add: outer_def)

end
