(* ===== verification/Event_Log.thy ===== *)
theory Event_Log
  imports Repo_Laws
begin

text \<open>
  The event table as an abstract log. An append-only log of items is an interface of two
  operations, append and fetch-after-cursor; the repository provides it for every task
  (\<open>insert_event\<close>, \<open>get_events_after\<close>) and the SSE server consumes it. The laws are stated
  once in the locale \<open>event_log\<close> and discharged here on the repository's model.
\<close>

section \<open>The numbered log of a task\<close>

definition ev_of_row :: "timestamp \<Rightarrow> event_row \<Rightarrow> task_event" where
  "ev_of_row now r = fill_defaults now \<lparr>ev_event_id = er_event_id r, ev_task_id = er_task_id r,
     ev_ts = er_ts r, ev_kind = the (event_kind_of (er_kind r)),
     ev_payload = the (json_loads (er_payload r)), ev_cursor = er_event_id r\<rparr>"

definition task_log :: "timestamp \<Rightarrow> string \<Rightarrow> db \<Rightarrow> task_event list" where
  "task_log now tid d = map (ev_of_row now) (events_of tid d)"

lemma numbered_snocD: "numbered (rs @ [r]) \<Longrightarrow> numbered rs \<and> er_event_id r = int (Suc (length rs))"
  by (simp add: numbered_def)

lemma numbered_nth: "numbered rs \<Longrightarrow> i < length rs \<Longrightarrow> er_event_id (rs ! i) = int (Suc i)"
proof -
  assume n: "numbered rs" and i: "i < length rs"
  have "map er_event_id rs ! i = map int [1..<Suc (length rs)] ! i" using n by (simp only: numbered_def)
  then show ?thesis using i by (simp del: upt_Suc)
qed

lemma filter_numbered: "numbered rs \<Longrightarrow> filter (\<lambda>r. int k < er_event_id r) rs = drop k rs"
proof (induction rs rule: rev_induct)
  case (snoc r rs)
  then have "numbered rs" "er_event_id r = int (Suc (length rs))" by (auto dest: numbered_snocD)
  with snoc.IH show ?case by auto
qed simp

lemma sorted_numbered: "numbered rs \<Longrightarrow> sorted (map er_event_id rs)"
  unfolding numbered_def by (simp only: sorted_map) (simp add: sorted_wrt_upt sorted_wrt_mono_rel del: upt_Suc)

lemma rows_after_drop:
  assumes "events_ok d"
  shows "rows_after tid (int k) d = drop k (events_of tid d)"
proof -
  have n: "numbered (events_of tid d)" using assms by (simp add: events_ok_def)
  have "sorted (map er_event_id (drop k (events_of tid d)))"
    using sorted_wrt_drop [OF sorted_numbered [OF n]] by (simp add: drop_map)
  then show ?thesis using n by (simp add: rows_after_def filter_numbered sorted_sort_id sort_key_id_if_sorted)
qed

lemma map_result_all: "(\<And>x. x \<in> set xs \<Longrightarrow> f x = Inr (g x)) \<Longrightarrow> map_result f xs = Inr (map g xs)"
  by (induction xs) auto

lemma task_event_of_ok: "event_row_ok r \<Longrightarrow> task_event_of now r = Inr (ev_of_row now r)"
  by (auto simp: event_row_ok_def task_event_of_def ev_of_row_def json_loads_def)

lemma events_of_rows_ok: "events_ok d \<Longrightarrow> r \<in> set (events_of tid d) \<Longrightarrow> event_row_ok r"
  by (simp add: events_ok_def events_of_def)

lemma get_events_after_run:
  assumes "db_ok (w_db w)" and "w_faults w = []"
  shows "get_events_after tid (int k) w = (Inr (drop k (task_log (w_clock w) tid (w_db w))), w)"
proof -
  have ev: "events_ok (w_db w)" using assms(1) by (simp add: db_ok_def)
  have "map_result (task_event_of (w_clock w)) (drop k (events_of tid (w_db w))) =
      Inr (map (ev_of_row (w_clock w)) (drop k (events_of tid (w_db w))))"
    by (rule map_result_all) (meson ev events_of_rows_ok in_set_dropD task_event_of_ok)
  then show ?thesis
    using assms(2) ev
    by (simp add: get_events_after_def comp_defs rows_after_drop task_log_def drop_map)
qed

lemma ev_of_row_cursor:
  "er_event_id r \<noteq> 0 \<Longrightarrow> ev_event_id (ev_of_row now r) = er_event_id r \<and> ev_cursor (ev_of_row now r) = er_event_id r"
  by (simp add: ev_of_row_def fill_defaults_def Let_def)

lemma ev_of_row_kind [simp]: "ev_kind (ev_of_row now r) = the (event_kind_of (er_kind r))"
  by (simp add: ev_of_row_def fill_defaults_def Let_def)

lemma task_log_cursor:
  assumes "events_ok d" and "i < length (task_log now tid d)"
  shows "ev_cursor (task_log now tid d ! i) = int (Suc i)" "ev_event_id (task_log now tid d ! i) = int (Suc i)"
  using assms numbered_nth [of "events_of tid d" i] ev_of_row_cursor [of "events_of tid d ! i" now]
  by (simp_all add: task_log_def events_ok_def)

section \<open>Appending\<close>

lemma insert_event_run:
  assumes "w_faults w = []" and "fk_ok tid (w_db w)"
  shows "fst (insert_event tid kind payload w) =
           Inr (ev_of_row (w_clock w) (new_event_row tid kind payload (w_clock w) (w_db w)))"
    and "w_db (snd (insert_event tid kind payload w)) =
           (w_db w)\<lparr>db_events := db_events (w_db w) @ [new_event_row tid kind payload (w_clock w) (w_db w)]\<rparr>"
    and "w_faults (snd (insert_event tid kind payload w)) = []"
    and "w_clock (snd (insert_event tid kind payload w)) = w_clock w"
    and "w_buses (snd (insert_event tid kind payload w)) = notify tid (w_buses w)"
    and "w_connected (snd (insert_event tid kind payload w)) = w_connected w"
    and "w_queue (snd (insert_event tid kind payload w)) = w_queue w"
  using next_event_id_fresh [of tid "w_db w"] assms
  by (simp_all add: insert_event_def insert_event_row_def event_violation_def new_event_row_def comp_defs
      with_buses_def update_db_def ev_of_row_def)

lemma task_log_insert:
  assumes "w_faults w = []" and "fk_ok tid (w_db w)"
  shows "task_log now t (w_db (snd (insert_event tid kind payload w))) =
     task_log now t (w_db w) @
       (if t = tid then [ev_of_row now (new_event_row tid kind payload (w_clock w) (w_db w))] else [])"
  using assms by (simp add: insert_event_run task_log_def events_of_def new_event_row_def)

lemma w_db_locks [simp]: "w_db (snd (discard_task_locks tid w)) = w_db w"
  by (simp add: discard_task_locks_def comp_defs)

section \<open>The interface\<close>

text \<open>A log as a client sees it: \<open>wf\<close> are the states in which it can be used, \<open>fetch s n\<close> are
  the items after the first \<open>n\<close>, \<open>cursor x\<close> is the number an item carries.\<close>

locale event_log =
  fixes wf :: "'s \<Rightarrow> bool"
    and append :: "'k \<Rightarrow> 's \<Rightarrow> 's"
    and fetch :: "'s \<Rightarrow> nat \<Rightarrow> 'x list"
    and cursor :: "'x \<Rightarrow> nat"
  assumes wf_append: "wf s \<Longrightarrow> wf (append k s)"
    and cursors: "wf s \<Longrightarrow> map cursor (fetch s 0) = [1..<Suc (length (fetch s 0))]"
    and fetch_drop: "wf s \<Longrightarrow> fetch s n = drop n (fetch s 0)"
    and append_one: "wf s \<Longrightarrow> \<exists>x. fetch (append k s) 0 = fetch s 0 @ [x]"
begin

lemma fetch_cursors: "wf s \<Longrightarrow> map cursor (fetch s n) = [Suc n..<Suc (length (fetch s 0))]"
  using cursors [of s] fetch_drop [of s n] by (metis drop_map drop_upt plus_1_eq_Suc)

lemma wf_appends: "wf s \<Longrightarrow> wf (fold append ks s)"
  by (induction ks arbitrary: s) (simp_all add: wf_append)

lemma fetch_appends: "wf s \<Longrightarrow> \<exists>xs. length xs = length ks \<and> fetch (fold append ks s) 0 = fetch s 0 @ xs"
proof (induction ks arbitrary: s)
  case (Cons k ks)
  obtain x where x: "fetch (append k s) 0 = fetch s 0 @ [x]" using append_one [OF Cons.prems] by blast
  obtain xs where "length xs = length ks" "fetch (fold append ks (append k s)) 0 = fetch (append k s) 0 @ xs"
    using Cons.IH [OF wf_append [OF Cons.prems]] by blast
  with x show ?case by (intro exI [of _ "x # xs"]) simp
qed simp

text \<open>A client that remembers the cursor of the last item it read and fetches again sees every
  item exactly once, in order, whatever was appended between its reads.\<close>

fun reader :: "'k list list \<Rightarrow> nat \<Rightarrow> 's \<Rightarrow> 'x list" where
  "reader [] n s = []"
| "reader (ks # rest) n s =
     (let s1 = fold append ks s; xs = fetch s1 n
      in xs @ reader rest (n + length xs) s1)"

lemma reader_sees_suffix:
  assumes "wf s" and "n \<le> length (fetch s 0)"
  shows "reader kss n s = (if kss = [] then [] else drop n (fetch (fold append (concat kss) s) 0))"
  using assms
proof (induction kss arbitrary: n s)
  case (Cons ks kss)
  let ?s1 = "fold append ks s"
  have wf1: "wf ?s1" using Cons.prems(1) by (rule wf_appends)
  obtain xs where xs: "fetch ?s1 0 = fetch s 0 @ xs" using fetch_appends [OF Cons.prems(1)] by blast
  have len: "n + length (fetch ?s1 n) = length (fetch ?s1 0)"
    using fetch_drop [OF wf1, of n] Cons.prems(2) xs by simp
  have IH: "reader kss (length (fetch ?s1 0)) ?s1 =
      (if kss = [] then [] else drop (length (fetch ?s1 0)) (fetch (fold append (concat kss) ?s1) 0))"
    using wf1 by (rule Cons.IH) simp
  obtain ys where ys: "fetch (fold append (concat kss) ?s1) 0 = fetch ?s1 0 @ ys"
    using fetch_appends [OF wf1] by blast
  have n_le: "n \<le> length (fetch ?s1 0)" using Cons.prems(2) xs by simp
  show ?case
    using fetch_drop [OF wf1, of n] len IH ys n_le by (cases "kss = []") (simp_all add: Let_def)
qed simp

end

text \<open>The repository's log of one task, in a process whose connection is open and whose
  statements succeed.\<close>

definition log_usable :: "string \<Rightarrow> world \<Rightarrow> bool" where
  "log_usable tid w \<longleftrightarrow> db_ok (w_db w) \<and> w_faults w = [] \<and> fk_ok tid (w_db w)"

definition log_append :: "string \<Rightarrow> event_kind \<times> (string \<times> json) list \<Rightarrow> world \<Rightarrow> world" where
  "log_append tid kp w = snd (insert_event tid (fst kp) (snd kp) w)"

definition log_fetch :: "string \<Rightarrow> world \<Rightarrow> nat \<Rightarrow> task_event list" where
  "log_fetch tid w n = (case fst (get_events_after tid (int n) w) of Inr evs \<Rightarrow> evs | Inl _ \<Rightarrow> [])"

lemma log_fetch_eq: "log_usable tid w \<Longrightarrow> log_fetch tid w n = drop n (task_log (w_clock w) tid (w_db w))"
  by (simp add: log_usable_def log_fetch_def get_events_after_run)

lemma log_usable_append:
  assumes "log_usable tid w"
  shows "log_usable tid (log_append tid kp w)"
proof -
  have "db_ok (w_db (log_append tid kp w))"
    using assms db_safeD [OF db_safe_insert_event] by (simp add: log_usable_def log_append_def)
  moreover have "fk_ok tid (w_db (log_append tid kp w))"
    using assms by (simp add: log_usable_def log_append_def insert_event_run fk_ok_def task_exists_def)
  ultimately show ?thesis using assms by (simp add: log_usable_def log_append_def insert_event_run)
qed

interpretation repo_log: event_log "log_usable tid" "log_append tid" "log_fetch tid" "\<lambda>ev. nat (ev_cursor ev)"
  for tid
proof
  fix s :: world and k n
  assume u: "log_usable tid s"
  show "log_usable tid (log_append tid k s)" using u by (rule log_usable_append)
  show "log_fetch tid s n = drop n (log_fetch tid s 0)" using u by (simp add: log_fetch_eq)
  have ev: "events_ok (w_db s)" using u by (simp add: log_usable_def db_ok_def)
  show "map (\<lambda>ev. nat (ev_cursor ev)) (log_fetch tid s 0) = [1..<Suc (length (log_fetch tid s 0))]"
    by (rule nth_equalityI) (use u ev in \<open>simp_all add: log_fetch_eq task_log_cursor del: upt_Suc\<close>)
  have "w_clock (log_append tid k s) = w_clock s"
    using u by (simp add: log_append_def log_usable_def insert_event_run)
  then show "\<exists>x. log_fetch tid (log_append tid k s) 0 = log_fetch tid s 0 @ [x]"
    using u log_usable_append [OF u, of k]
    by (simp add: log_fetch_eq) (simp add: log_append_def log_usable_def task_log_insert)
qed

end
