(* ===== verification/Repo_Props.thy ===== *)
theory Repo_Props
  imports Event_Log
begin

text \<open>
  Properties of the storage layer: every sequence of repository calls, failing or not, leaves
  the tables well-formed; events are numbered without gap; a decision is resolved once; the
  completion time of a task is written once; a deletion cascades only with \<open>foreign_keys\<close> on.
\<close>

section \<open>Sequences of repository calls\<close>

datatype repo_call =
    Call_insert_task task_request
  | Call_update_status string task_status "string option" "string option"
  | Call_delete_task string
  | Call_insert_event string event_kind "(string \<times> json) list"
  | Call_insert_decision string decision_request
  | Call_resolve_decision string decision_response
  | Call_expire_decision string
  | Call_insert_artifact artifact "string option"
  | Call_delete_artifact string
  | Call_discard_locks string
  | Call_restart

fun run_call :: "repo_call \<Rightarrow> world \<Rightarrow> world" where
  "run_call (Call_insert_task rq) w = snd (insert_task rq S_pending w)"
| "run_call (Call_update_status tid st c s) w = snd (update_task_status_full tid st c s w)"
| "run_call (Call_delete_task tid) w = snd (delete_task tid w)"
| "run_call (Call_insert_event tid k p) w = snd (insert_event tid k p w)"
| "run_call (Call_insert_decision tid req) w = snd (insert_decision tid req w)"
| "run_call (Call_resolve_decision did resp) w = snd (resolve_decision did resp w)"
| "run_call (Call_expire_decision did) w = snd (expire_decision did w)"
| "run_call (Call_insert_artifact a p) w = snd (insert_artifact a p w)"
| "run_call (Call_delete_artifact aid) w = snd (delete_artifact_row aid w)"
| "run_call (Call_discard_locks tid) w = snd (discard_task_locks tid w)"
| "run_call Call_restart w = snd (thenE close_db init_db w)"

lemma run_call_ok: "db_ok (w_db w) \<Longrightarrow> db_ok (w_db (run_call c w))"
  by (cases c) (auto intro!: db_safeD db_safe_rules)

lemma run_calls_ok: "db_ok (w_db w) \<Longrightarrow> db_ok (w_db (fold run_call cs w))"
  by (induction cs arbitrary: w) (simp_all add: run_call_ok)

text \<open>C6: After any sequence of repository calls on a fresh database, with any statements
  refused by SQLite, the tables are well-formed: keys unique, enum columns valid, every resolved
  decision carries a response, and the events of each task are numbered 1, 2, 3, ... in the
  order they were written.\<close>

theorem repo_calls_keep_db_ok:
  "db_ok (w_db (fold run_call calls (init_world\<lparr>w_faults := faults\<rparr>))) \<and>
   map er_event_id (events_of tid (w_db (fold run_call calls (init_world\<lparr>w_faults := faults\<rparr>)))) =
     map int [1..<Suc (length (events_of tid (w_db (fold run_call calls (init_world\<lparr>w_faults := faults\<rparr>)))))]"
proof -
  have "db_ok (w_db (init_world\<lparr>w_faults := faults\<rparr>))" by (simp add: init_world_def db_ok_empty)
  then have ok: "db_ok (w_db (fold run_call calls (init_world\<lparr>w_faults := faults\<rparr>)))" by (rule run_calls_ok)
  then show ?thesis by (simp add: db_ok_def events_ok_def numbered_def del: upt_Suc)
qed

section \<open>Reading the log back\<close>

text \<open>Fetching after cursor \<open>k\<close> returns exactly the events after the first \<open>k\<close>, and the
  next \<open>insert_event\<close> of the task appends one event whose cursor is the next number, whose kind
  and payload are the ones given, and which the next fetch returns last.\<close>

theorem insert_then_fetch:
  assumes "db_ok (w_db w)" and "w_faults w = []" and "fk_ok tid (w_db w)"
    and "k \<le> length (events_of tid (w_db w))"
  shows "\<exists>old ev. fst (get_events_after tid (int k) w) = Inr old \<and>
     fst (insert_event tid kind payload w) = Inr ev \<and>
     fst (get_events_after tid (int k) (snd (insert_event tid kind payload w))) = Inr (old @ [ev]) \<and>
     ev_cursor ev = int (k + length old + 1) \<and> ev_kind ev = kind \<and> ev_payload ev = JObj payload"
proof -
  let ?w1 = "snd (insert_event tid kind payload w)"
  let ?r = "new_event_row tid kind payload (w_clock w) (w_db w)"
  have ok1: "db_ok (w_db ?w1)" using db_safeD [OF db_safe_insert_event assms(1)] .
  have log: "task_log (w_clock w) tid (w_db ?w1) = task_log (w_clock w) tid (w_db w) @ [ev_of_row (w_clock w) ?r]"
    using task_log_insert [OF assms(2,3), of "w_clock w" tid] by simp
  have id: "er_event_id ?r = int (Suc (length (events_of tid (w_db w))))"
    using assms(1) by (simp add: new_event_row_def next_event_id_numbered db_ok_def)
  have "ev_cursor (ev_of_row (w_clock w) ?r) = int (Suc (length (events_of tid (w_db w))))"
    using ev_of_row_cursor [of ?r "w_clock w"] id by simp
  moreover have "ev_kind (ev_of_row (w_clock w) ?r) = kind" "ev_payload (ev_of_row (w_clock w) ?r) = JObj payload"
    by (simp_all add: new_event_row_def ev_of_row_def fill_defaults_def Let_def)
  moreover have "fst (get_events_after tid (int k) ?w1) =
      Inr (drop k (task_log (w_clock w) tid (w_db w)) @ [ev_of_row (w_clock w) ?r])"
    using get_events_after_run [OF ok1, of tid k] assms(2-4) insert_event_run [OF assms(2,3)] log
    by (simp add: task_log_def)
  ultimately show ?thesis
    using get_events_after_run [OF assms(1,2), of tid k] insert_event_run(1) [OF assms(2,3)] assms(4)
    by (simp add: task_log_def)
qed

text \<open>A reader that remembers the cursor of the last event it saw and fetches again after
  every burst of new events sees each event of the task exactly once and in order.\<close>

theorem polling_reader_sees_every_event_once:
  assumes "log_usable tid w"
  shows "repo_log.reader tid kss (length (events_of tid (w_db w))) w =
     (if kss = [] then []
      else drop (length (events_of tid (w_db w))) (log_fetch tid (fold (log_append tid) (concat kss) w) 0))"
proof -
  have "length (events_of tid (w_db w)) \<le> length (log_fetch tid w 0)"
    using assms by (simp add: log_fetch_eq task_log_def)
  then show ?thesis using repo_log.reader_sees_suffix [OF assms] by blast
qed

section \<open>Decisions\<close>

lemma resolve_decision_hit:
  assumes "w_faults w = []" and "distinct (map dr_id (db_decisions (w_db w)))"
    and "r \<in> set (db_decisions (w_db w))" and "is_pending did r"
    and "\<not> key_clash (resolve_row resp (w_clock w) r) (w_db w)"
  shows "resolve_decision did resp w =
    (Inr True, w\<lparr>w_db := (w_db w)\<lparr>db_decisions :=
       update_where (is_pending did) (resolve_row resp (w_clock w)) (db_decisions (w_db w))\<rparr>\<rparr>)"
proof -
  let ?hits = "filter (is_pending did) (db_decisions (w_db w))"
  have "\<forall>s \<in> set ?hits. s = r" using is_pending_unique [OF assms(2-4)] by simp
  then have "\<not> list_ex (\<lambda>s. key_clash (resolve_row resp (w_clock w) s) (w_db w)) ?hits"
    using assms(5) by (auto simp: list_ex_iff)
  moreover have "?hits \<noteq> []" using assms(3,4) by (auto simp: filter_empty_conv)
  ultimately show ?thesis using assms(1) by (simp add: resolve_decision_def comp_defs update_db_def Let_def)
qed

lemma resolve_decision_miss:
  assumes "w_faults w = []" and "\<And>r. r \<in> set (db_decisions (w_db w)) \<Longrightarrow> \<not> is_pending did r"
  shows "resolve_decision did resp w = (Inr False, w)"
proof -
  have "filter (is_pending did) (db_decisions (w_db w)) = []" using assms(2) by (simp add: filter_empty_conv)
  moreover have "update_where (is_pending did) f (db_decisions (w_db w)) = db_decisions (w_db w)" for f
    using assms(2) by (simp add: update_where_def map_idI)
  ultimately show ?thesis using assms(1) by (simp add: resolve_decision_def comp_defs update_db_def Let_def)
qed

lemma no_pending_after_update:
  assumes "\<And>r. \<not> is_pending did (f r)"
  shows "r \<in> set (update_where (is_pending did) f rs) \<Longrightarrow> \<not> is_pending did r"
  using assms by (auto simp: set_update_where)

text \<open>What resolving a pending decision does to the table.\<close>

lemma resolve_decision_effect:
  assumes "db_ok (w_db w)" and "w_faults w = []" and "r \<in> set (db_decisions (w_db w))"
    and "is_pending did r" and "dp_idempotency_key resp = None"
  shows "\<exists>u. resolve_decision did resp w = (Inr True, w\<lparr>w_db := (w_db w)\<lparr>db_decisions := u\<rparr>\<rparr>) \<and>
    (\<forall>s \<in> set u. \<not> is_pending did s) \<and>
    find (\<lambda>s. dr_id s = did \<and> dr_status s = ''resolved'') u = Some (resolve_row resp (w_clock w) r)"
proof -
  let ?u = "update_where (is_pending did) (resolve_row resp (w_clock w)) (db_decisions (w_db w))"
  have dist: "distinct (map dr_id (db_decisions (w_db w)))"
    and row: "decision_row_ok r" using assms(1,3) by (simp_all add: db_ok_def decisions_ok_def)
  have "\<not> key_clash (resolve_row resp (w_clock w) r) (w_db w)"
    using row assms(4,5) by (simp add: key_clash_def resolve_row_def decision_row_ok_def is_pending_def)
  then have run: "resolve_decision did resp w = (Inr True, w\<lparr>w_db := (w_db w)\<lparr>db_decisions := ?u\<rparr>\<rparr>)"
    using resolve_decision_hit [OF assms(2) dist assms(3,4)] by blast
  have none: "\<not> is_pending did s" if "s \<in> set ?u" for s
    using that by (rule no_pending_after_update [rotated]) (simp add: is_pending_def resolve_row_def)
  have "resolve_row resp (w_clock w) r \<in> set ?u" using assms(3,4) by (auto simp: set_update_where)
  moreover have "distinct (map dr_id ?u)"
    using dist by (simp add: map_update_where resolve_row_def)
  moreover have "dr_id (resolve_row resp (w_clock w) r) = did"
    using assms(4) by (simp add: is_pending_def resolve_row_def)
  ultimately have "find (\<lambda>s. dr_id s = did) ?u = Some (resolve_row resp (w_clock w) r)"
    using find_key_unique by metis
  then have "find (\<lambda>s. dr_id s = did \<and> dr_status s = ''resolved'') ?u = Some (resolve_row resp (w_clock w) r)"
    by (rule find_and) (simp add: resolve_row_def)
  then show ?thesis using run none by blast
qed


section \<open>Task rows\<close>

lemma update_task_status_run:
  assumes "w_faults w = []"
  shows "update_task_status_full tid st c s w =
    (Inr (), w\<lparr>w_db := (w_db w)\<lparr>db_tasks :=
       update_where (\<lambda>r. tr_id r = tid) (set_task_status st c s (w_clock w)) (db_tasks (w_db w))\<rparr>\<rparr>)"
  using assms by (simp add: update_task_status_full_def comp_defs update_db_def)

lemma find_task_update:
  assumes "\<And>r. tr_id (f r) = tr_id r"
  shows "find_task t (d\<lparr>db_tasks := update_where (\<lambda>r. tr_id r = tid) f (db_tasks d)\<rparr>) =
    (if t = tid then map_option f (find_task t d) else find_task t d)"
proof -
  have "find (\<lambda>r. tr_id r = t) (update_where (\<lambda>r. tr_id r = tid) f (db_tasks d)) =
      map_option (\<lambda>r. if tr_id r = tid then f r else r) (find (\<lambda>r. tr_id r = t) (db_tasks d))"
    by (rule find_update_where) (simp add: assms)
  then show ?thesis
    by (auto simp: find_task_def dest: find_key_SomeD split: option.splits)
      (cases "find (\<lambda>r. tr_id r = t) (db_tasks d)"; auto dest: find_key_SomeD)+
qed

text \<open>\<open>update_task_status\<close> changes the row of its task only. It writes the new status, never
  clears a container or session id, fills \<open>completed_at\<close> when the status is terminal and leaves
  a \<open>completed_at\<close> that is already there.\<close>

theorem update_task_status_effect:
  assumes "w_faults w = []" and "find_task tid (w_db w) = Some r"
  shows "\<exists>r'. find_task tid (w_db (snd (update_task_status_full tid st c s w))) = Some r' \<and>
    tr_status r' = task_status_value st \<and>
    (tr_container_id r \<noteq> None \<longrightarrow> tr_container_id r' \<noteq> None) \<and>
    (c = None \<longrightarrow> tr_container_id r' = tr_container_id r) \<and>
    (tr_session_id r \<noteq> None \<longrightarrow> tr_session_id r' \<noteq> None) \<and>
    (tr_completed_at r \<noteq> None \<longrightarrow> tr_completed_at r' = tr_completed_at r) \<and>
    (st \<in> TERMINAL_STATUSES \<longrightarrow> tr_completed_at r' \<noteq> None) \<and>
    (\<forall>t. t \<noteq> tid \<longrightarrow> find_task t (w_db (snd (update_task_status_full tid st c s w))) = find_task t (w_db w))"
proof -
  have "find_task t (w_db (snd (update_task_status_full tid st c s w))) =
      (if t = tid then map_option (set_task_status st c s (w_clock w)) (find_task t (w_db w))
       else find_task t (w_db w))" for t
    unfolding update_task_status_run [OF assms(1)] by (simp add: find_task_update set_task_status_def)
  then show ?thesis using assms(2)
    by (cases c; cases s; cases "tr_completed_at r"; simp add: set_task_status_def)
qed

text \<open>\<open>delete_task\<close> on the connection that \<open>init_db\<close> opens removes the row of the task but
  none of its events, decisions or artifacts: \<open>init_db\<close> never turns \<open>foreign_keys\<close> on, so the
  schema's \<open>ON DELETE CASCADE\<close> does not fire. With \<open>foreign_keys\<close> on, it would.\<close>

theorem delete_task_cascades_only_with_foreign_keys:
  assumes "w_faults w = []"
  shows "find_task tid (w_db (snd (delete_task tid w))) = None \<and>
    events_of tid (w_db (snd (delete_task tid w))) =
      (if db_foreign_keys (w_db w) then [] else events_of tid (w_db w)) \<and>
    db_decisions (w_db (snd (delete_task tid w))) =
      (if db_foreign_keys (w_db w) then filter (\<lambda>r. dr_task_id r \<noteq> tid) (db_decisions (w_db w))
       else db_decisions (w_db w)) \<and>
    db_artifacts (w_db (snd (delete_task tid w))) =
      (if db_foreign_keys (w_db w) then filter (\<lambda>r. ar_task_id r \<noteq> tid) (db_artifacts (w_db w))
       else db_artifacts (w_db w)) \<and>
    \<not> db_foreign_keys (w_db (snd (init_db w)))"
proof -
  have "find (\<lambda>r. tr_id r = tid) (filter (\<lambda>r. tr_id r \<noteq> tid) (db_tasks (w_db w))) = None"
    by (simp add: find_None_iff)
  moreover have "filter (\<lambda>r. er_task_id r = tid) (filter (\<lambda>r. er_task_id r \<noteq> tid) (db_events (w_db w))) = []"
    by (simp add: filter_empty_conv)
  ultimately show ?thesis
    using assms by (simp add: delete_task_def comp_defs update_db_def Let_def find_task_def events_of_def init_db_def)
qed

section \<open>Witnesses\<close>

definition ex_decision_request :: decision_request where
  "ex_decision_request = \<lparr>dq_decision_id = ''d1'', dq_kind = DK_tool_permission, dq_summary = ''run bash'',
     dq_options = [C_approve, C_reject, C_abort], dq_default_on_timeout = C_abort, dq_expires_at = None,
     dq_ctx = []\<rparr>"

definition ex_decision_row :: decision_row where
  "ex_decision_row = \<lparr>dr_id = ''d1'', dr_task_id = ''t1'', dr_kind = ''tool_permission'', dr_status = ''pending'',
     dr_request = ex_decision_request, dr_response = None, dr_idempotency_key = None, dr_created_at = 1,
     dr_resolved_at = None\<rparr>"

definition ex_task_row :: task_row where
  "ex_task_row = \<lparr>tr_id = ''t1'', tr_status = ''executing'', tr_mode = ''direct_execute'',
     tr_request = minimal_request ''t1'' M_direct_execute [], tr_container_id = Some ''c1'',
     tr_session_id = None, tr_created_at = 1, tr_updated_at = 1, tr_completed_at = None\<rparr>"

definition ex_event_row :: event_row where
  "ex_event_row = \<lparr>er_event_id = 1, er_task_id = ''t1'', er_kind = ''task_created'',
     er_payload = JText (JObj []), er_ts = 1\<rparr>"

definition ex_world :: world where
  "ex_world = init_world\<lparr>w_connected := True, w_clock := 10,
     w_db := \<lparr>db_tasks = [ex_task_row], db_events = [ex_event_row], db_decisions = [ex_decision_row],
              db_artifacts = [], db_foreign_keys = False\<rparr>\<rparr>"

lemmas ex_defs = ex_world_def ex_event_row_def ex_task_row_def ex_decision_row_def ex_decision_request_def

lemma ex_world_db_ok: "db_ok (w_db ex_world)"
  by (simp add: ex_defs init_world_def db_ok_def tasks_ok_def events_ok_def events_of_def numbered_def
      event_row_ok_def decisions_ok_def decision_row_ok_def artifacts_ok_def refs_ok_def
      task_status_of_def enum_of_def all_task_status_def task_mode_of_def event_kind_of_def all_event_kinds_def)
    (rule keys_uniqueI, simp)

lemma ex_world_simps [simp]:
  "w_faults ex_world = []" "w_connected ex_world" "fk_ok tid (w_db ex_world)" "w_clock ex_world = 10"
  "events_of ''t1'' (w_db ex_world) = [ex_event_row]" "find_task ''t1'' (w_db ex_world) = Some ex_task_row"
  by (simp_all add: ex_defs init_world_def fk_ok_def events_of_def find_task_def)

theorem insert_then_fetch_witness:
  "\<exists>old ev. fst (get_events_after ''t1'' (int 1) ex_world) = Inr old \<and>
     fst (insert_event ''t1'' K_heartbeat [] ex_world) = Inr ev \<and>
     fst (get_events_after ''t1'' (int 1) (snd (insert_event ''t1'' K_heartbeat [] ex_world))) = Inr (old @ [ev]) \<and>
     ev_cursor ev = int (1 + length old + 1) \<and> ev_kind ev = K_heartbeat \<and> ev_payload ev = JObj []"
  by (rule insert_then_fetch) (simp_all add: ex_world_db_ok)

theorem polling_reader_witness:
  "repo_log.reader ''t1'' [[(K_heartbeat, [])], []] (length (events_of ''t1'' (w_db ex_world))) ex_world =
     drop 1 (log_fetch ''t1'' (fold (log_append ''t1'') (concat [[(K_heartbeat, [])], []]) ex_world) 0)"
  using polling_reader_sees_every_event_once [of "''t1''" ex_world "[[(K_heartbeat, [])], []]"]
  by (simp add: log_usable_def ex_world_db_ok)

definition ex_response :: "decision_choice \<Rightarrow> decision_response" where
  "ex_response ch = \<lparr>dp_decision_id = ''d1'', dp_choice = ch, dp_feedback = None, dp_patch = None,
     dp_idempotency_key = None\<rparr>"


theorem update_task_status_effect_witness:
  "\<exists>r'. find_task ''t1'' (w_db (snd (update_task_status_full ''t1'' S_completed None None ex_world))) = Some r' \<and>
    tr_status r' = ''completed'' \<and> tr_container_id r' = Some ''c1'' \<and> tr_completed_at r' \<noteq> None"
  using update_task_status_effect [of ex_world "''t1''" ex_task_row S_completed None None]
  by (auto simp: TERMINAL_STATUSES_def ex_task_row_def)

theorem delete_task_witness:
  "find_task ''t1'' (w_db (snd (delete_task ''t1'' ex_world))) = None \<and>
   events_of ''t1'' (w_db (snd (delete_task ''t1'' ex_world))) = [ex_event_row]"
  using delete_task_cascades_only_with_foreign_keys [of ex_world "''t1''"]
  by (simp add: ex_world_def init_world_def events_of_def ex_event_row_def)

end
