(* ===== verification/Sse_Server.thy ===== *)
theory Sse_Server
  imports Repo_Props
begin

text \<open>
  The event stream of \<open>GET /tasks/{task_id}/events\<close> (\<open>event_generator\<close> and \<open>_sse_dict\<close> in
  \<open>src/worker/api/routes.py\<close>). The generator subscribes to the task's bus, replays the history
  after the client's cursor, and then polls the database each time it is woken or its heartbeat
  is due. What the rest of the process does while the generator waits is an argument: a list of
  changes of the state, each with the answer of \<open>is_disconnected\<close> at the following poll. The
  stream is what the client receives up to the last poll of that list.
\<close>

datatype sse_item = Item_event task_event | Item_heartbeat timestamp

datatype sse_end = E_open | E_closed | E_disconnected | E_raised exn

definition terminal_event :: "task_event \<Rightarrow> bool" where
  "terminal_event ev \<longleftrightarrow> ev_kind ev \<in> TERMINAL_EVENT_KINDS"

record sse_frame =
  sf_id :: "string option"
  sf_event :: string
  sf_data :: json

fun sse_dict :: "sse_item \<Rightarrow> sse_frame" where
  "sse_dict (Item_event ev) =
     \<lparr>sf_id = Some (show_int (ev_cursor ev)), sf_event = event_kind_value (ev_kind ev), sf_data = ev_payload ev\<rparr>"
| "sse_dict (Item_heartbeat t) = \<lparr>sf_id = None, sf_event = ''heartbeat'', sf_data = JObj [(''ts'', JFloat t)]\<rparr>"

type_synonym sse_result = "sse_item list \<times> sse_end \<times> world"

section \<open>The two phases\<close>

text \<open>The replay: one answer of \<open>is_disconnected\<close> per event, none left meaning connected.\<close>

fun replay :: "task_event list \<Rightarrow> bool list \<Rightarrow> int \<Rightarrow> sse_item list \<times> int \<times> sse_end" where
  "replay [] ds cursor = ([], cursor, E_open)"
| "replay (ev # evs) ds cursor =
     (if ds \<noteq> [] \<and> hd ds then ([], cursor, E_disconnected)
      else if terminal_event ev then ([Item_event ev], ev_cursor ev, E_closed)
      else (case replay evs (tl ds) (ev_cursor ev) of
              (items, c, e) \<Rightarrow> (Item_event ev # items, c, e)))"

definition wait_step :: "event_ref \<Rightarrow> (world \<Rightarrow> world) \<Rightarrow> world \<Rightarrow> world" where
  "wait_step sub env w =
     (let w1 = env w
      in if event_is_set sub (w_buses w1) then w1\<lparr>w_buses := event_clear sub (w_buses w1)\<rparr> else w1)"

definition next_cursor :: "int \<Rightarrow> task_event list \<Rightarrow> int" where
  "next_cursor c evs = (if evs = [] then c else ev_cursor (last evs))"

fun live :: "string \<Rightarrow> event_ref \<Rightarrow> real \<Rightarrow> int \<Rightarrow> timestamp \<Rightarrow> bool \<Rightarrow> ((world \<Rightarrow> world) \<times> bool) list \<Rightarrow> world \<Rightarrow> sse_result" where
  "live tid sub hb cursor last_hb disc waits w =
     (if disc then ([], E_disconnected, w)
      else case get_events_after tid cursor w of
        (Inl e, w1) \<Rightarrow> ([], E_raised e, w1)
      | (Inr evs, w1) \<Rightarrow>
          if \<exists>ev \<in> set evs. terminal_event ev
          then (map Item_event (take_until terminal_event evs), E_closed, w1)
          else
            let now = w_clock w1;
                due = (hb - (now - last_hb) \<le> 0);
                items = map Item_event evs @ (if due then [Item_heartbeat now] else [])
            in (case waits of
                  [] \<Rightarrow> (items, E_open, w1)
                | (env, d) # rest \<Rightarrow>
                    (case live tid sub hb (next_cursor cursor evs) (if due then now else last_hb) d rest
                            (wait_step sub env w1) of
                       (later, e, w2) \<Rightarrow> (items @ later, e, w2))))"

declare live.simps [simp del]

text \<open>The generator; \<open>status\<close> is the task's status when the request was answered, \<open>env0\<close> what runs
  between the replay and the first poll.\<close>

definition event_generator ::
    "string \<Rightarrow> task_status \<Rightarrow> int \<Rightarrow> real \<Rightarrow> bool list \<Rightarrow> (world \<Rightarrow> world) \<Rightarrow> bool \<Rightarrow>
     ((world \<Rightarrow> world) \<times> bool) list \<Rightarrow> world \<Rightarrow> sse_result" where
  "event_generator tid status last_cursor hb ds env0 disc waits w =
     (let (bus, b1) = get_bus tid (w_buses w);
          (sub, b2) = subscribe bus b1;
          w0 = w\<lparr>w_buses := b2\<rparr>;
          r = (case get_events_after tid last_cursor w0 of
                 (Inl e, w1) \<Rightarrow> ([], E_raised e, w1)
               | (Inr history, w1) \<Rightarrow>
                   (case replay history ds last_cursor of
                      (items, c, E_open) \<Rightarrow>
                        if status \<in> TERMINAL_STATUSES then (items, E_closed, w1)
                        else (case live tid sub hb c (w_clock w1) disc waits (env0 w1) of
                                (later, e, w2) \<Rightarrow> (items @ later, e, w2))
                    | (items, c, e) \<Rightarrow> (items, e, w1)))
      in case r of (items, e, w2) \<Rightarrow> (items, e, w2\<lparr>w_buses := unsubscribe bus sub (w_buses w2)\<rparr>))"

text \<open>\<open>int(request.headers.get("Last-Event-ID", "0"))\<close>, zero when it is no integer.\<close>

definition last_event_id :: "string option \<Rightarrow> int" where
  "last_event_id h = (case h of None \<Rightarrow> 0 | Some s \<Rightarrow> (case py_int s of None \<Rightarrow> 0 | Some n \<Rightarrow> n))"

section \<open>What the stream carries\<close>

fun item_events :: "sse_item list \<Rightarrow> task_event list" where
  "item_events [] = []"
| "item_events (Item_event ev # its) = ev # item_events its"
| "item_events (Item_heartbeat t # its) = item_events its"

lemma item_events_append [simp]: "item_events (xs @ ys) = item_events xs @ item_events ys"
  by (induction xs rule: item_events.induct) simp_all

lemma item_events_map [simp]: "item_events (map Item_event evs) = evs"
  by (induction evs) simp_all

text \<open>An event as it is stored, without the time stamp a zero column would get when read.\<close>

type_synonym view = "int \<times> string \<times> json_text"

definition row_view :: "event_row \<Rightarrow> view" where
  "row_view r = (er_event_id r, er_kind r, er_payload r)"

definition ev_view :: "task_event \<Rightarrow> view" where
  "ev_view ev = (ev_cursor ev, event_kind_value (ev_kind ev), JText (ev_payload ev))"

definition terminal_view :: "view \<Rightarrow> bool" where
  "terminal_view v \<longleftrightarrow> fst (snd v) \<in> event_kind_value ` TERMINAL_EVENT_KINDS"

definition log_view :: "string \<Rightarrow> world \<Rightarrow> view list" where
  "log_view tid w = map row_view (events_of tid (w_db w))"

lemma terminal_view_ev [simp]: "terminal_view (ev_view ev) = terminal_event ev"
  by (auto simp: terminal_view_def ev_view_def terminal_event_def image_iff)

lemma ev_view_row:
  assumes "event_row_ok r" and "er_event_id r \<noteq> 0"
  shows "ev_view (ev_of_row now r) = row_view r"
proof -
  obtain k kvs where "event_kind_of (er_kind r) = Some k" "er_payload r = JText (JObj kvs)"
    using assms(1) by (auto simp: event_row_ok_def)
  then show ?thesis using assms(2) event_kind_of_Some [of "er_kind r" k]
    by (simp add: ev_view_def row_view_def ev_of_row_def fill_defaults_def Let_def json_loads_def)
qed

lemma log_view_numbered:
  assumes "db_ok (w_db w)"
  shows "map ev_view (task_log now tid (w_db w)) = log_view tid w"
    and "i < length (log_view tid w) \<Longrightarrow> fst (log_view tid w ! i) = int (Suc i)"
proof -
  have ok: "events_ok (w_db w)" using assms by (simp add: db_ok_def)
  then have num: "numbered (events_of tid (w_db w))" by (simp add: events_ok_def)
  have "ev_view (ev_of_row now r) = row_view r" if r: "r \<in> set (events_of tid (w_db w))" for r
  proof (rule ev_view_row)
    show "event_row_ok r" using ok r by (rule events_of_rows_ok)
    obtain i where "i < length (events_of tid (w_db w))" "r = events_of tid (w_db w) ! i"
      using r by (auto simp: in_set_conv_nth)
    then show "er_event_id r \<noteq> 0" using numbered_nth [OF num] by simp
  qed
  then show "map ev_view (task_log now tid (w_db w)) = log_view tid w"
    by (simp add: task_log_def log_view_def)
  show "i < length (log_view tid w) \<Longrightarrow> fst (log_view tid w ! i) = int (Suc i)"
    using numbered_nth [OF num] by (simp add: log_view_def row_view_def)
qed

text \<open>What may happen around the stream: the tables stay well-formed, statements succeed, and the
  task's log only grows.\<close>

definition calm :: "world \<Rightarrow> bool" where
  "calm w \<longleftrightarrow> db_ok (w_db w) \<and> w_faults w = []"

definition log_grows :: "string \<Rightarrow> (world \<Rightarrow> world) \<Rightarrow> bool" where
  "log_grows tid env \<longleftrightarrow> (\<forall>w. calm w \<longrightarrow> calm (env w) \<and> prefix (log_view tid w) (log_view tid (env w)))"

lemma log_growsD:
  "log_grows tid env \<Longrightarrow> calm w \<Longrightarrow> calm (env w)"
  "log_grows tid env \<Longrightarrow> calm w \<Longrightarrow> prefix (log_view tid w) (log_view tid (env w))"
  by (simp_all add: log_grows_def)

lemma wait_step_calm:
  assumes "log_grows tid env" and "calm w"
  shows "calm (wait_step sub env w)" "prefix (log_view tid w) (log_view tid (wait_step sub env w))"
  using log_growsD [OF assms] by (simp_all add: wait_step_def Let_def calm_def log_view_def)

lemma fetch_calm:
  assumes "calm w"
  shows "\<exists>evs. get_events_after tid (int k) w = (Inr evs, w) \<and> map ev_view evs = drop k (log_view tid w)"
  using get_events_after_run [of w tid k] log_view_numbered(1) [of w "w_clock w" tid] assms
  by (auto simp: calm_def simp flip: drop_map)

lemma take_until_map: "map f (take_until (\<lambda>x. P (f x)) xs) = take_until P (map f xs)"
  by (induction xs) auto

lemma take_until_views: "map ev_view (take_until terminal_event evs) = take_until terminal_view (map ev_view evs)"
  using take_until_map [of ev_view terminal_view evs] by simp

text \<open>The next cursor is the length of the log just read.\<close>

lemma next_cursor_log:
  assumes "calm w" and "k \<le> length (log_view tid w)" and "map ev_view evs = drop k (log_view tid w)"
  shows "next_cursor (int k) evs = int (length (log_view tid w))"
proof (cases "evs = []")
  case True
  then show ?thesis using assms(2,3) by (simp add: next_cursor_def)
next
  case False
  have len: "length evs = length (log_view tid w) - k" using arg_cong [OF assms(3), of length] by simp
  then have lt: "length (log_view tid w) - 1 < length (log_view tid w)" using False by (cases "log_view tid w") auto
  have "ev_view (last evs) = last (map ev_view evs)" using False by (simp add: last_map)
  also have "\<dots> = last (log_view tid w)" using assms(3) False len by (metis last_drop length_greater_0_conv zero_less_diff)
  also have "\<dots> = log_view tid w ! (length (log_view tid w) - 1)" using lt by (intro last_conv_nth) auto
  finally have "ev_cursor (last evs) = fst (log_view tid w ! (length (log_view tid w) - 1))"
    by (simp add: ev_view_def) (metis fst_conv)
  also have "\<dots> = int (length (log_view tid w))"
    using log_view_numbered(2) [OF _ lt] assms(1) lt by (simp add: calm_def)
  finally show ?thesis using False by (simp add: next_cursor_def)
qed

lemma live_complete:
  assumes "calm w" and "k \<le> length (log_view tid w)" and "\<forall>x \<in> set waits. log_grows tid (fst x)"
    and "live tid sub hb (int k) t0 d waits w = (items, e, w')" and "e \<noteq> E_disconnected"
  shows "map ev_view (item_events items) = take_until terminal_view (drop k (log_view tid w')) \<and>
    e = (if \<exists>v \<in> set (drop k (log_view tid w')). terminal_view v then E_closed else E_open) \<and>
    prefix (log_view tid w) (log_view tid w')"
  using assms
proof (induction waits arbitrary: w k t0 d items e w')
  case Nil
  obtain evs where evs: "get_events_after tid (int k) w = (Inr evs, w)" "map ev_view evs = drop k (log_view tid w)"
    using fetch_calm [OF Nil.prems(1)] by blast
  have trm: "(\<exists>ev \<in> set evs. terminal_event ev) \<longleftrightarrow> (\<exists>v \<in> set (drop k (log_view tid w)). terminal_view v)"
    unfolding evs(2) [symmetric] by auto
  show ?case
    using Nil.prems(4,5) evs trm
    by (subst (asm) live.simps)
      (auto simp: Let_def take_until_views take_until_none evs(2) split: if_splits)
next
  case (Cons x waits)
  obtain env dd where x: "x = (env, dd)" by (cases x)
  obtain evs where evs: "get_events_after tid (int k) w = (Inr evs, w)" "map ev_view evs = drop k (log_view tid w)"
    using fetch_calm [OF Cons.prems(1)] by blast
  have trm: "(\<exists>ev \<in> set evs. terminal_event ev) \<longleftrightarrow> (\<exists>v \<in> set (drop k (log_view tid w)). terminal_view v)"
    unfolding evs(2) [symmetric] by auto
  have d: "\<not> d" using Cons.prems(4,5) by (subst (asm) live.simps) auto
  show ?case
  proof (cases "\<exists>ev \<in> set evs. terminal_event ev")
    case True
    then have "items = map Item_event (take_until terminal_event evs)" "e = E_closed" "w' = w"
      using Cons.prems(4) d evs(1) by (simp_all add: live.simps [of tid sub hb "int k" t0 False "x # waits"])
    then show ?thesis using True trm evs(2) by (simp add: take_until_views)
  next
    case False
    let ?due = "hb - (w_clock w - t0) \<le> 0"
    let ?n = "length (log_view tid w)"
    let ?w1 = "wait_step sub env w"
    have grow: "log_grows tid env" using Cons.prems(3) x by simp
    note w1 = wait_step_calm [OF grow Cons.prems(1), of sub]
    have nc: "next_cursor (int k) evs = int ?n" using next_cursor_log Cons.prems(1,2) evs(2) by blast
    obtain later e2 w2 where rec: "live tid sub hb (int ?n) (if ?due then w_clock w else t0) dd waits ?w1 = (later, e2, w2)"
      by (cases "live tid sub hb (int ?n) (if ?due then w_clock w else t0) dd waits ?w1") auto
    have res: "items = map Item_event evs @ (if ?due then [Item_heartbeat (w_clock w)] else []) @ later" "e = e2" "w' = w2"
      using Cons.prems(4) d evs(1) False rec
      by (simp_all add: live.simps [of tid sub hb "int k" t0 False "(env, dd) # waits"] x Let_def nc split: prod.splits if_splits)
    have n1: "?n \<le> length (log_view tid ?w1)" using w1(2) by (rule prefix_length_le)
    have IH: "map ev_view (item_events later) = take_until terminal_view (drop ?n (log_view tid w2)) \<and>
      e2 = (if \<exists>v \<in> set (drop ?n (log_view tid w2)). terminal_view v then E_closed else E_open) \<and>
      prefix (log_view tid ?w1) (log_view tid w2)"
      using Cons.IH [OF w1(1) n1 _ rec] Cons.prems(3,5) res(2) by simp
    obtain ys where ys: "log_view tid w2 = log_view tid w @ ys"
      using IH w1(2) by (metis prefix_def prefix_order.trans)
    have none: "\<not> (\<exists>v \<in> set (drop k (log_view tid w)). terminal_view v)" using False trm by simp
    have "item_events items = evs @ item_events later" using res(1) by simp
    then have "map ev_view (item_events items) = drop k (log_view tid w) @ take_until terminal_view ys"
      using IH ys evs(2) by simp
    then show ?thesis
      using none IH ys res Cons.prems(2) by (auto simp: take_until_append)
  qed
qed

section \<open>The whole stream\<close>

lemma calm_buses [simp]: "calm (w\<lparr>w_buses := b\<rparr>) = calm w"
  by (simp add: calm_def)

lemma log_view_buses [simp]: "log_view tid (w\<lparr>w_buses := b\<rparr>) = log_view tid w"
  by (simp add: log_view_def)

lemma dict_set_new: "map_of ps k = None \<Longrightarrow> dict_set k v ps = ps @ [(k, v)]"
  by (induction ps rule: dict_set.induct) (auto split: if_splits)

text \<open>Every insertion of an event is such a change of the state.\<close>

lemma insert_event_log_grows: "log_grows tid (\<lambda>w. snd (insert_event t k p w))"
  unfolding log_grows_def
proof (intro allI impI conjI)
  fix w :: world
  assume calm: "calm w"
  consider "fk_ok t (w_db w)" | "\<not> fk_ok t (w_db w)" by blast
  then have "w_faults (snd (insert_event t k p w)) = [] \<and>
      (w_db (snd (insert_event t k p w)) = w_db w \<or>
       w_db (snd (insert_event t k p w)) =
         (w_db w)\<lparr>db_events := db_events (w_db w) @ [new_event_row t k p (w_clock w) (w_db w)]\<rparr>)"
  proof cases
    case 1
    then show ?thesis using calm insert_event_run [of w t k p] by (simp add: calm_def)
  next
    case 2
    then show ?thesis using calm
      by (auto simp: calm_def insert_event_def insert_event_row_def event_violation_def comp_defs fk_ok_def)
  qed
  moreover have "db_ok (w_db (snd (insert_event t k p w)))"
    using db_safeD [OF db_safe_insert_event] calm by (simp add: calm_def)
  ultimately show "calm (snd (insert_event t k p w))"
    "prefix (log_view tid w) (log_view tid (snd (insert_event t k p w)))"
    by (auto simp: calm_def log_view_def events_of_def)
qed

lemma replay_connected:
  assumes "replay evs ds c = (items, c', e)" and "e \<noteq> E_disconnected"
  shows "item_events items = take_until terminal_event evs \<and>
    e = (if \<exists>ev \<in> set evs. terminal_event ev then E_closed else E_open) \<and>
    (e = E_open \<longrightarrow> c' = next_cursor c evs)"
  using assms
proof (induction evs ds c arbitrary: items c' e rule: replay.induct)
  case (2 ev evs ds cursor)
  then show ?case
    by (auto simp: next_cursor_def split: if_splits prod.splits)
qed (simp add: next_cursor_def)

lemma stream_complete:
  assumes "calm w" and "k \<le> length (log_view tid w)" and "log_grows tid env0"
    and "\<forall>x \<in> set waits. log_grows tid (fst x)"
    and "event_generator tid st (int k) hb ds env0 d waits w = (items, e, w')" and "e \<noteq> E_disconnected"
  shows "map ev_view (item_events items) =
      take_until terminal_view (drop k (log_view tid (if st \<in> TERMINAL_STATUSES then w else w'))) \<and>
    (st \<in> TERMINAL_STATUSES \<longrightarrow> e = E_closed) \<and>
    (st \<notin> TERMINAL_STATUSES \<longrightarrow>
       e = (if \<exists>v \<in> set (drop k (log_view tid w')). terminal_view v then E_closed else E_open))"
proof -
  obtain bus b1 sub b2 where b: "get_bus tid (w_buses w) = (bus, b1)" "subscribe bus b1 = (sub, b2)"
    by (meson prod.exhaust)
  let ?w0 = "w\<lparr>w_buses := b2\<rparr>"
  obtain evs where evs: "get_events_after tid (int k) ?w0 = (Inr evs, ?w0)" "map ev_view evs = drop k (log_view tid w)"
    using fetch_calm [of ?w0 tid k] assms(1) by auto
  obtain its c r where rep: "replay evs ds (int k) = (its, c, r)" by (cases "replay evs ds (int k)") auto
  have trm: "(\<exists>ev \<in> set evs. terminal_event ev) \<longleftrightarrow> (\<exists>v \<in> set (drop k (log_view tid w)). terminal_view v)"
    unfolding evs(2) [symmetric] by auto
  have run: "r \<noteq> E_disconnected"
    using assms(5,6) by (auto simp: event_generator_def b evs(1) rep split: sse_end.splits)
  note r = replay_connected [OF rep run]
  have its: "map ev_view (item_events its) = take_until terminal_view (drop k (log_view tid w))"
    using r by (simp add: take_until_views evs(2))
  show ?thesis
  proof (cases "r = E_open \<and> st \<notin> TERMINAL_STATUSES")
    case False
    then have "items = its" "e = E_closed" "log_view tid w' = log_view tid w"
      using assms(5) r by (auto simp: event_generator_def b evs(1) rep split: if_splits)
    then show ?thesis using False its r trm by auto
  next
    case True
    then have none: "\<not> (\<exists>v \<in> set (drop k (log_view tid w)). terminal_view v)"
      using r trm by (metis sse_end.distinct(1))
    let ?n = "length (log_view tid w)"
    let ?w1 = "env0 ?w0"
    have c: "c = int ?n" using r True next_cursor_log [OF assms(1,2) evs(2)] by simp
    obtain later e2 w2 where lv: "live tid sub hb (int ?n) (w_clock ?w0) d waits ?w1 = (later, e2, w2)"
      by (cases "live tid sub hb (int ?n) (w_clock ?w0) d waits ?w1") auto
    have res: "items = its @ later" "e = e2" "log_view tid w' = log_view tid w2"
      using assms(5) True lv by (auto simp: event_generator_def b evs(1) rep c)
    have grow: "calm ?w1" "prefix (log_view tid w) (log_view tid ?w1)"
      using log_growsD [OF assms(3), of ?w0] assms(1) by simp_all
    have live: "map ev_view (item_events later) = take_until terminal_view (drop ?n (log_view tid w2)) \<and>
      e2 = (if \<exists>v \<in> set (drop ?n (log_view tid w2)). terminal_view v then E_closed else E_open) \<and>
      prefix (log_view tid ?w1) (log_view tid w2)"
      using live_complete [OF grow(1) prefix_length_le [OF grow(2)] assms(4) lv] assms(6) res(2) by simp
    then obtain ys where ys: "log_view tid w2 = log_view tid w @ ys"
      using grow(2) by (metis prefix_def prefix_order.trans)
    have "map ev_view (item_events items) = drop k (log_view tid w) @ take_until terminal_view ys"
      using its live ys none by (simp add: res(1) take_until_none)
    then show ?thesis using True none live ys res assms(2) by (auto simp: take_until_append)
  qed
qed

text \<open>C1: A client that reconnects with the cursor \<open>k\<close> and stays connected receives, in order and
  once each, every event after \<open>k\<close> that the log holds when the stream is last polled, up to and
  including the first terminal event, whatever other parts of the process append meanwhile; the
  server closes the stream exactly when a terminal event was sent. For a task that had ended when
  the request arrived, the stream is the stored rest of the log and always closes.\<close>

theorem sse_stream_is_complete:
  assumes "calm w" and "k \<le> length (log_view tid w)" and "log_grows tid env0"
    and "\<forall>x \<in> set waits. log_grows tid (fst x)"
    and "event_generator tid st (int k) hb ds env0 d waits w = (items, e, w')" and "e \<noteq> E_disconnected"
  shows "map ev_view (item_events items) =
      take_until terminal_view (drop k (log_view tid (if st \<in> TERMINAL_STATUSES then w else w'))) \<and>
    (st \<in> TERMINAL_STATUSES \<longrightarrow> e = E_closed) \<and>
    (st \<notin> TERMINAL_STATUSES \<longrightarrow>
       e = (if \<exists>v \<in> set (drop k (log_view tid w')). terminal_view v then E_closed else E_open))"
  using assms by (rule stream_complete)

text \<open>No event is lost between the subscription and the first wait: from the moment the stream
  has subscribed, each insertion of an event of its task sets its wake-up flag, until the bus is
  discarded; a flag set before the wait begins is still set when the wait starts.\<close>

theorem insert_event_wakes_the_stream:
  assumes "bus_ok (w_buses w)" and "w_faults w = []" and "fk_ok tid (w_db w)"
    and "get_bus tid (w_buses w) = (bus, b1)" and "subscribe bus b1 = (sub, b2)"
  shows "\<not> event_is_set sub b2 \<and>
    event_is_set sub (w_buses (snd (insert_event tid k p (w\<lparr>w_buses := b2\<rparr>)))) \<and>
    w_buses (wait_step sub (\<lambda>w. snd (insert_event tid k p w)) (w\<lparr>w_buses := b2\<rparr>)) = event_clear sub (notify tid b2) \<and>
    \<not> subscribed tid sub (discard tid b2)"
proof -
  have ok1: "bus_ok b1" "map_of (bus_registry b1) tid = Some bus" "bus < length (bus_objs b1)"
    using bus_ok_get_bus [OF assms(1), of tid] assms(4) by simp_all
  have s: "subscribed tid sub b2" "\<not> event_is_set sub b2"
    using subscribed_subscribe [OF ok1(1,2)] assms(5) by simp_all
  have "bus_ok b2" using bus_ok_subscribe [OF ok1(1,3)] assms(5) by simp
  then have "event_is_set sub (notify tid b2)"
    using notify_flags [of sub b2 tid] subscribed_in_range s(1) by blast
  moreover have "w_buses (snd (insert_event tid k p (w\<lparr>w_buses := b2\<rparr>))) = notify tid b2"
    using insert_event_run(5) [of "w\<lparr>w_buses := b2\<rparr>" tid k p] assms(2,3) by simp
  ultimately show ?thesis using s(2) by (simp add: wait_step_def Let_def)
qed

text \<open>Reading the stream of a task that has ended leaves its bus in the registry: the generator
  creates the bus with \<open>get_bus\<close> and only unsubscribes, and \<open>discard\<close> has already run for the
  task, so each such task id stays registered until the process ends.\<close>

theorem finished_stream_leaks_its_bus:
  assumes "calm w" and "st \<in> TERMINAL_STATUSES" and "map_of (bus_registry (w_buses w)) tid = None"
    and "event_generator tid st (int k) hb ds env0 d waits w = (items, e, w')"
  shows "map_of (bus_registry (w_buses w')) tid \<noteq> None \<and>
    active_bus_count (w_buses w') = Suc (active_bus_count (w_buses w))"
proof -
  obtain bus b1 sub b2 where b: "get_bus tid (w_buses w) = (bus, b1)" "subscribe bus b1 = (sub, b2)"
    by (meson prod.exhaust)
  let ?w0 = "w\<lparr>w_buses := b2\<rparr>"
  obtain evs where evs: "get_events_after tid (int k) ?w0 = (Inr evs, ?w0)"
    using fetch_calm [of ?w0 tid k] assms(1) by auto
  have "w_buses w' = unsubscribe bus sub b2"
    using assms(2,4) by (auto simp: event_generator_def b evs split: prod.splits sse_end.splits)
  moreover have "bus_registry b2 = bus_registry b1" using b(2) by (auto simp: subscribe_def Let_def)
  moreover have "bus_registry b1 = bus_registry (w_buses w) @ [(tid, bus)]"
    using b(1) assms(3) by (auto simp: get_bus_def Let_def dict_set_new)
  ultimately show ?thesis by (simp add: unsubscribe_def active_bus_count_def)
qed

section \<open>Witnesses\<close>

definition append_done :: "world \<Rightarrow> world" where
  "append_done w = snd (insert_event ''t1'' K_task_completed [] w)"

lemma live_connected:
  assumes "live tid sub hb c t0 False waits w = (items, E_disconnected, w')" and "\<forall>x \<in> set waits. \<not> snd x"
  shows False
  using assms
proof (induction waits arbitrary: c t0 w items)
  case Nil
  then show ?case by (subst (asm) live.simps) (simp add: Let_def split: prod.splits sum.splits if_splits)
next
  case (Cons x waits)
  obtain env d where x: "x = (env, d)" by (cases x)
  have d: "d = False" and rest: "\<forall>x \<in> set waits. \<not> snd x" using Cons.prems(2) x by simp_all
  show ?case
    using Cons.prems(1) Cons.IH [OF _ rest] unfolding x d live.simps [of tid sub hb c t0 False "(env, False) # waits"]
    by (auto simp: Let_def split: prod.splits sum.splits if_splits)
qed

lemma replay_no_answers: "replay evs [] c = (items, c', E_disconnected) \<Longrightarrow> False"
  by (induction evs arbitrary: c items) (auto split: prod.splits if_splits)

lemma sse_stream_witness:
  "\<exists>items e w'. event_generator ''t1'' S_executing (int 1) 15 [] id False [(append_done, False)] ex_world = (items, e, w') \<and>
     map ev_view (item_events items) = take_until terminal_view (drop 1 (log_view ''t1'' w')) \<and>
     e = (if \<exists>v \<in> set (drop 1 (log_view ''t1'' w')). terminal_view v then E_closed else E_open)"
proof -
  obtain items e w' where g:
    "event_generator ''t1'' S_executing (int 1) 15 [] id False [(append_done, False)] ex_world = (items, e, w')"
    by (metis prod.exhaust)
  have e: "e \<noteq> E_disconnected"
    using g by (auto simp: event_generator_def Let_def dest: live_connected replay_no_answers
      split: prod.splits sum.splits sse_end.splits if_splits)
  have "log_grows ''t1'' append_done" using insert_event_log_grows by (simp add: append_done_def [abs_def])
  moreover have "log_grows ''t1'' id" by (simp add: log_grows_def)
  moreover have "1 \<le> length (log_view ''t1'' ex_world)" by (simp add: log_view_def)
  moreover have "calm ex_world" by (simp add: calm_def ex_world_db_ok)
  ultimately show ?thesis
    using sse_stream_is_complete [of ex_world 1 "''t1''" id "[(append_done, False)]" S_executing 15 "[]" False items e w'] g e
    by (auto simp: TERMINAL_STATUSES_def)
qed

lemma insert_event_wakes_witness:
  "event_is_set 0 (w_buses (snd (insert_event ''t1'' K_task_completed []
     (ex_world\<lparr>w_buses := snd (subscribe 0 (snd (get_bus ''t1'' init_buses)))\<rparr>))))"
  using insert_event_wakes_the_stream [of ex_world "''t1''" 0 "snd (get_bus ''t1'' init_buses)" 0
      "snd (subscribe 0 (snd (get_bus ''t1'' init_buses)))" K_task_completed "[]"]
  by (simp add: get_bus_def subscribe_def Let_def init_buses_def bus_ok_def ex_world_def init_world_def fk_ok_def)

lemma finished_stream_witness:
  "\<exists>items e w'. event_generator ''t1'' S_failed (int 1) 15 [] id False [] ex_world = (items, e, w') \<and>
     active_bus_count (w_buses w') = 1"
proof -
  obtain items e w' where g: "event_generator ''t1'' S_failed (int 1) 15 [] id False [] ex_world = (items, e, w')"
    by (metis prod.exhaust)
  have "calm ex_world" by (simp add: calm_def ex_world_db_ok)
  moreover have "active_bus_count (w_buses ex_world) = 0" "bus_registry (w_buses ex_world) = []"
    by (simp_all add: ex_world_def init_world_def init_buses_def active_bus_count_def)
  ultimately show ?thesis
    using finished_stream_leaks_its_bus [of ex_world S_failed "''t1''" 1 15 "[]" id False "[]" items e w'] g
    by (auto simp: TERMINAL_STATUSES_def)
qed

end
