(* ===== verification/Task_Queue.thy ===== *)
theory Task_Queue
  imports Repo_Props
begin

text \<open>
  The task queue \<open>src/worker/orchestrator/queue.py\<close>: enqueueing, the execution of one task in
  its slot by an arbitrary executor, the terminal state and event for each kind of exception,
  and the semaphore that bounds how many tasks run at once. The executor, registered by
  \<open>set_executor\<close>, is any computation: what is proved about \<open>run_one\<close> holds for all of them.
\<close>

type_synonym executor = "string \<Rightarrow> unit io"

section \<open>Enqueueing\<close>

definition set_executor :: "executor \<Rightarrow> executor option \<Rightarrow> executor option" where
  "set_executor f registered = Some f"

definition queue_put :: "string \<Rightarrow> unit io" where
  "queue_put tid = modifyE (\<lambda>w. w\<lparr>w_queue := w_queue w @ [tid]\<rparr>)"

definition enqueue_task :: "string \<Rightarrow> unit io" where
  "enqueue_task tid =
     thenE get_db (
     thenE (update_task_status tid S_queued) (
     bindE (insert_event tid K_task_queued []) (\<lambda>_.
     queue_put tid)))"

text \<open>\<open>_worker_loop\<close> takes the oldest task id.\<close>

definition queue_get :: "world \<Rightarrow> (string \<times> world) option" where
  "queue_get w = (case w_queue w of [] \<Rightarrow> None | tid # rest \<Rightarrow> Some (tid, w\<lparr>w_queue := rest\<rparr>))"

section \<open>Running one task\<close>

definition swallow :: "exn \<Rightarrow> unit io" where
  "swallow e = (if is_Exception e then retE () else raiseE e)"

definition write_terminal :: "string \<Rightarrow> task_status \<Rightarrow> event_kind \<Rightarrow> (string \<times> json) list \<Rightarrow> unit io" where
  "write_terminal tid status kind payload =
     finallyE
       (tryE (thenE get_db (thenE (update_task_status tid status)
                (bindE (insert_event tid kind payload) (\<lambda>_. retE ())))) swallow)
       (discard_task_locks tid)"

definition timed_out_payload :: "int \<Rightarrow> string \<Rightarrow> (string \<times> json) list" where
  "timed_out_payload t m = [(''timeout_sec'', JInt t), (''message'', JStr m)]"

definition aborted_payload :: "string \<Rightarrow> string \<Rightarrow> string option \<Rightarrow> (string \<times> json) list" where
  "aborted_payload reason m did =
     [(''reason'', JStr reason), (''message'', JStr m)] @
     (case did of None \<Rightarrow> [] | Some d \<Rightarrow> [(''decision_id'', JStr d)])"

definition failed_payload :: "exn \<Rightarrow> (string \<times> json) list" where
  "failed_payload e = [(''error'', JStr (exn_str e)), (''error_type'', JStr (exn_name e))]"

definition observe_duration_since :: "timestamp \<Rightarrow> unit io" where
  "observe_duration_since t0 = bindE time_now (\<lambda>t. metric (observe_task_duration (t - t0)))"

fun on_exception :: "string \<Rightarrow> timestamp \<Rightarrow> exn \<Rightarrow> unit io" where
  "on_exception tid t0 (TaskTimedOutError secs m) =
     thenE (write_terminal tid S_timed_out K_task_timed_out (timed_out_payload secs m))
     (thenE (metric (inc_task_count ''timed_out'')) (observe_duration_since t0))"
| "on_exception tid t0 (TaskAbortedError reason m did) =
     thenE (write_terminal tid S_aborted K_task_aborted (aborted_payload reason m did))
     (thenE (metric (inc_task_count ''aborted''))
     (thenE (metric (inc_abort_count (if reason = [] then ''unknown'' else reason)))
        (observe_duration_since t0)))"
| "on_exception tid t0 e =
     (if is_Exception e
      then thenE (write_terminal tid S_failed K_task_failed (failed_payload e))
           (thenE (metric (inc_task_count ''failed'')) (observe_duration_since t0))
      else raiseE e)"

text \<open>The last step of a successful task, in the stub executor and in the orchestrator.\<close>

definition complete_task :: "string \<Rightarrow> unit io" where
  "complete_task tid =
     thenE (update_task_status tid S_completed)
       (bindE (insert_event tid K_task_completed []) (\<lambda>_. retE ()))"

definition stub_executor :: executor where
  "stub_executor tid = complete_task tid"

definition run_body :: "executor option \<Rightarrow> string \<Rightarrow> timestamp \<Rightarrow> unit io" where
  "run_body exec tid t0 =
     thenE (case exec of Some f \<Rightarrow> f tid | None \<Rightarrow> stub_executor tid)
     (thenE (metric (inc_task_count ''completed'')) (observe_duration_since t0))"

definition leave_slot :: "string \<Rightarrow> unit io" where
  "leave_slot tid =
     thenE (discard_task_locks tid) (thenE (metric dec_active_tasks) (with_buses (discard tid)))"

definition run_one :: "executor option \<Rightarrow> string \<Rightarrow> unit io" where
  "run_one exec tid =
     thenE get_db (
     thenE (metric inc_active_tasks) (
     bindE time_now (\<lambda>t0.
     finallyE (tryE (run_body exec tid t0) (on_exception tid t0)) (leave_slot tid))))"

section \<open>Writing a terminal state\<close>

lemma metric_run [simp]: "metric f w = (Inr (), w\<lparr>w_metrics := f (w_metrics w)\<rparr>)"
  by (simp add: metric_def comp_defs)

lemma observe_duration_run [simp]:
  "observe_duration_since t0 w = (Inr (), w\<lparr>w_metrics := observe_task_duration (w_clock w - t0) (w_metrics w)\<rparr>)"
  by (simp add: observe_duration_since_def comp_defs)

lemma discard_locks_run [simp]:
  "discard_task_locks tid w = (Inr (), w\<lparr>w_locks := discard_lock tid (w_locks w)\<rparr>)"
  by (simp add: discard_task_locks_def comp_defs)

lemma leave_slot_run [simp]:
  "leave_slot tid w = (Inr (), w\<lparr>w_locks := discard_lock tid (w_locks w),
     w_metrics := dec_active_tasks (w_metrics w), w_buses := discard tid (w_buses w)\<rparr>)"
  by (simp add: leave_slot_def comp_defs with_buses_def)

text \<open>A state in which the terminal state of a task can be written.\<close>

definition writable :: "string \<Rightarrow> world \<Rightarrow> bool" where
  "writable tid w \<longleftrightarrow> w_connected w \<and> w_faults w = [] \<and> fk_ok tid (w_db w)"

definition ended_as :: "task_status \<Rightarrow> event_kind \<Rightarrow> (string \<times> json) list \<Rightarrow> string \<Rightarrow> db \<Rightarrow> db \<Rightarrow> bool" where
  "ended_as st k payload tid d d' \<longleftrightarrow>
     map_option tr_status (find_task tid d') = map_option (\<lambda>_. task_status_value st) (find_task tid d) \<and>
     (\<exists>r. db_events d' = db_events d @ [r] \<and> er_task_id r = tid \<and> er_event_id r = next_event_id tid d \<and>
          er_kind r = event_kind_value k \<and> er_payload r = JText (JObj payload))"

lemma update_status_run:
  assumes "w_faults w = []"
  shows "update_task_status tid st w =
    (Inr (), w\<lparr>w_db := (w_db w)\<lparr>db_tasks :=
       update_where (\<lambda>r. tr_id r = tid) (set_task_status st None None (w_clock w)) (db_tasks (w_db w))\<rparr>\<rparr>)"
  using assms by (simp add: update_task_status_def update_task_status_full_def comp_defs update_db_def)

lemma find_updated_task:
  "map_option tr_status (find_task tid (d\<lparr>db_tasks :=
      update_where (\<lambda>r. tr_id r = tid) (set_task_status st c s now) (db_tasks d)\<rparr>)) =
   map_option (\<lambda>_. task_status_value st) (find_task tid d)"
proof -
  have "find (\<lambda>r. tr_id r = tid) (update_where (\<lambda>r. tr_id r = tid) (set_task_status st c s now) (db_tasks d)) =
      map_option (\<lambda>r. if tr_id r = tid then set_task_status st c s now r else r) (find (\<lambda>r. tr_id r = tid) (db_tasks d))"
    by (rule find_update_where) (simp add: set_task_status_def)
  then show ?thesis
    by (cases "find (\<lambda>r. tr_id r = tid) (db_tasks d)")
      (auto simp: find_task_def set_task_status_def dest: find_key_SomeD)
qed

lemma fk_ok_update_tasks:
  "fk_ok tid (d\<lparr>db_tasks := update_where P (set_task_status st c s now) (db_tasks d)\<rparr>) = fk_ok tid d"
proof -
  have "map tr_id (update_where P (set_task_status st c s now) (db_tasks d)) = map tr_id (db_tasks d)"
    by (rule map_update_where) (simp add: set_task_status_def)
  then have "tr_id ` set (update_where P (set_task_status st c s now) (db_tasks d)) = tr_id ` set (db_tasks d)"
    by (metis list.set_map)
  then show ?thesis by (simp add: fk_ok_def task_exists_def)
qed

lemma next_event_id_tasks [simp]: "next_event_id tid (d\<lparr>db_tasks := ts\<rparr>) = next_event_id tid d"
  by (simp add: next_event_id_def events_of_def)

lemma write_terminal_run:
  assumes "writable tid w"
  shows "fst (write_terminal tid st k payload w) = Inr ()"
    and "ended_as st k payload tid (w_db w) (w_db (snd (write_terminal tid st k payload w)))"
    and "w_clock (snd (write_terminal tid st k payload w)) = w_clock w"
proof -
  let ?w1 = "snd (update_task_status tid st w)"
  let ?w2 = "snd (insert_event tid k payload ?w1)"
  have w1: "w_faults ?w1 = []" "fk_ok tid (w_db ?w1)" "update_task_status tid st w = (Inr (), ?w1)"
    "w_clock ?w1 = w_clock w" "next_event_id tid (w_db ?w1) = next_event_id tid (w_db w)"
    "db_events (w_db ?w1) = db_events (w_db w)"
    using assms by (simp_all add: update_status_run writable_def fk_ok_update_tasks)
  note ev = insert_event_run [OF w1(1,2), of k payload]
  have run: "write_terminal tid st k payload w = (Inr (), ?w2\<lparr>w_locks := discard_lock tid (w_locks ?w2)\<rparr>)"
  proof -
    obtain ev where "insert_event tid k payload ?w1 = (Inr ev, ?w2)"
      using ev(1) by (metis prod.collapse)
    then have "bindE (insert_event tid k payload) (\<lambda>_. retE ()) ?w1 = (Inr (), ?w2)"
      by (simp add: bindE_step retE_def)
    then have "thenE get_db (thenE (update_task_status tid st) (bindE (insert_event tid k payload) (\<lambda>_. retE ()))) w =
        (Inr (), ?w2)"
      using assms w1(3) by (simp add: writable_def thenE_step)
    then show ?thesis unfolding write_terminal_def by (intro finallyE_run tryE_ok) simp_all
  qed
  show "fst (write_terminal tid st k payload w) = Inr ()" by (simp add: run)
  show "w_clock (snd (write_terminal tid st k payload w)) = w_clock w" using ev(4) w1(4) by (simp add: run)
  have "db_tasks (w_db ?w2) = db_tasks (w_db ?w1)" by (simp add: ev(2))
  then have "find_task tid (w_db ?w2) = find_task tid (w_db ?w1)" by (simp add: find_task_def)
  moreover have "map_option tr_status (find_task tid (w_db ?w1)) =
      map_option (\<lambda>_. task_status_value st) (find_task tid (w_db w))"
    using assms by (simp add: update_status_run writable_def find_updated_task)
  ultimately have "map_option tr_status (find_task tid (w_db ?w2)) =
      map_option (\<lambda>_. task_status_value st) (find_task tid (w_db w))" by simp
  then show "ended_as st k payload tid (w_db w) (w_db (snd (write_terminal tid st k payload w)))"
    using w1 by (simp add: run ended_as_def ev(2)) (simp add: new_event_row_def json_dumps_def)
qed

lemma write_terminal_quiet: "fst (write_terminal tid st k payload w) = Inr ()"
proof -
  let ?m = "thenE get_db (thenE (update_task_status tid st) (bindE (insert_event tid k payload) (\<lambda>_. retE ())))"
  have "raises is_Exception ?m" by (intro raises_intros)
  then have "raises (\<lambda>_. False) (tryE ?m swallow)"
    by (rule raises_try) (simp add: swallow_def raises_ret)
  then have "\<exists>t. tryE ?m swallow w = (Inr (), t)"
    by (cases "tryE ?m swallow w"; cases "fst (tryE ?m swallow w)") (auto dest: raisesD)
  then show ?thesis unfolding write_terminal_def by (auto simp: finallyE_run)
qed

section \<open>The terminal state of a task\<close>

fun outcome_status :: "exn \<Rightarrow> task_status" where
  "outcome_status (TaskTimedOutError _ _) = S_timed_out"
| "outcome_status (TaskAbortedError _ _ _) = S_aborted"
| "outcome_status _ = S_failed"

fun outcome_kind :: "exn \<Rightarrow> event_kind" where
  "outcome_kind (TaskTimedOutError _ _) = K_task_timed_out"
| "outcome_kind (TaskAbortedError _ _ _) = K_task_aborted"
| "outcome_kind _ = K_task_failed"

fun outcome_payload :: "exn \<Rightarrow> (string \<times> json) list" where
  "outcome_payload (TaskTimedOutError t m) = timed_out_payload t m"
| "outcome_payload (TaskAbortedError r m d) = aborted_payload r m d"
| "outcome_payload e = failed_payload e"

lemma on_exception_run:
  assumes "writable tid w" and "is_Exception e"
  shows "\<exists>w'. on_exception tid t0 e w = (Inr (), w') \<and>
    ended_as (outcome_status e) (outcome_kind e) (outcome_payload e) tid (w_db w) (w_db w')"
proof -
  have "\<exists>w'. write_terminal tid st k p w = (Inr (), w') \<and> ended_as st k p tid (w_db w) (w_db w')" for st k p
    using write_terminal_quiet [of tid st k p w] write_terminal_run(2) [OF assms(1), of st k p]
    by (metis prod.collapse)
  then obtain w' where "write_terminal tid (outcome_status e) (outcome_kind e) (outcome_payload e) w = (Inr (), w')"
    "ended_as (outcome_status e) (outcome_kind e) (outcome_payload e) tid (w_db w) (w_db w')" by blast
  then show ?thesis using assms(2) by (cases e) (simp_all add: thenE_step)
qed

lemma raises_nothing: "raises (\<lambda>_. False) m \<Longrightarrow> \<exists>x t. m w = (Inr x, t)"
  by (cases "m w"; cases "fst (m w)") (auto dest: raisesD)

lemma raises_write_terminal [raises_intros]: "raises P (write_terminal tid st k p)"
  by (rule raisesI) (metis fst_conv sum.distinct(1) write_terminal_quiet)

lemma raises_on_exception: "is_Exception e \<Longrightarrow> raises P (on_exception tid t0 e)"
  by (cases e) (simp_all add: observe_duration_since_def, (intro raises_intros conjI impI)+)

lemma raises_run_one_core:
  assumes "raises is_Exception (f tid)"
  shows "raises (\<lambda>_. False) (finallyE (tryE (run_body (Some f) tid t) (on_exception tid t)) (leave_slot tid))"
proof (rule raises_finally)
  have "raises is_Exception (run_body (Some f) tid t)"
    unfolding run_body_def observe_duration_since_def by (simp, intro raises_intros assms)
  then show "raises (\<lambda>_. False) (tryE (run_body (Some f) tid t) (on_exception tid t))"
    by (rule raises_try) (rule raises_on_exception)
qed (simp add: leave_slot_def, intro raises_intros)

abbreviation active :: "world \<Rightarrow> int" where
  "active w \<equiv> mt_active (w_metrics w)"

lemma active_outer: "preserves outer m \<Longrightarrow> preserves active m"
  by (rule preservesI) (simp add: outerD(3))

lemma active_observe: "preserves active (observe_duration_since t0)"
  by (rule preservesI) (simp add: metric_defs)

lemma active_count: "preserves active (metric (inc_task_count s))" "preserves active (metric (inc_abort_count s))"
  by (rule preservesI, simp add: metric_defs)+

lemma outer_write_terminal: "preserves outer (write_terminal tid st k p)"
  unfolding write_terminal_def swallow_def by (intro preserves_intros)

lemma active_on_exception: "preserves active (on_exception tid t0 e)"
  by (cases e) (simp_all, (intro preserves_intros conjI impI active_outer [OF outer_write_terminal] active_observe active_count)+)

lemma run_one_unfold:
  assumes "w_connected w"
  shows "run_one exec tid w =
    finallyE (tryE (run_body exec tid (w_clock w)) (on_exception tid (w_clock w))) (leave_slot tid)
      (w\<lparr>w_metrics := inc_active_tasks (w_metrics w)\<rparr>)"
  using assms by (simp add: run_one_def thenE_step bindE_step)

text \<open>The state in which the executor of a task starts.\<close>

definition slot_entry :: "world \<Rightarrow> world" where
  "slot_entry w = w\<lparr>w_metrics := inc_active_tasks (w_metrics w)\<rparr>"

text \<open>C5: Whatever executor runs in the slot, an exception it raises becomes exactly one terminal
  event with the payload of that exception and the matching terminal status (timed out, aborted
  with its reason, failed with its type), \<open>run_one\<close> itself returns, and on the way out the
  task's event lock and its bus are released.\<close>

theorem run_one_writes_the_terminal_state:
  assumes "w_connected w" and "f tid (slot_entry w) = (Inl e, w1)" and "is_Exception e" and "writable tid w1"
  shows "\<exists>w2. run_one (Some f) tid w = (Inr (), w2) \<and>
    ended_as (outcome_status e) (outcome_kind e) (outcome_payload e) tid (w_db w1) (w_db w2) \<and>
    map_of (lk_registry (w_locks w2)) tid = None \<and> map_of (bus_registry (w_buses w2)) tid = None"
proof -
  have body: "run_body (Some f) tid (w_clock w) (slot_entry w) = (Inl e, w1)"
    using assms(2) by (simp add: run_body_def thenE_stop)
  obtain w' where w': "on_exception tid (w_clock w) e w1 = (Inr (), w')"
    "ended_as (outcome_status e) (outcome_kind e) (outcome_payload e) tid (w_db w1) (w_db w')"
    using on_exception_run [OF assms(4,3)] by blast
  have "tryE (run_body (Some f) tid (w_clock w)) (on_exception tid (w_clock w)) (slot_entry w) = (Inr (), w')"
    using w'(1) by (simp add: tryE_def body)
  then have "run_one (Some f) tid w = (Inr (), snd (leave_slot tid w'))"
    unfolding run_one_unfold [OF assms(1)] slot_entry_def [symmetric]
    by (simp add: finallyE_def)
  then show ?thesis using w'(2) by (simp add: discard_lock_def discard_def)
qed

text \<open>\<open>run_one\<close> never fails with an ordinary exception once the database is open, even when
  the executor fails and SQLite refuses the terminal state; if the executor leaves the gauge of
  active tasks alone, the gauge is back at its value before the task.\<close>

theorem run_one_contains_failures:
  assumes "w_connected w" and "0 \<le> mt_active (w_metrics w)"
    and "preserves (\<lambda>w. mt_active (w_metrics w)) (f tid)" and "raises is_Exception (f tid)"
  shows "fst (run_one (Some f) tid w) = Inr () \<and>
    mt_active (w_metrics (snd (run_one (Some f) tid w))) = mt_active (w_metrics w)"
proof -
  let ?m = "tryE (run_body (Some f) tid (w_clock w)) (on_exception tid (w_clock w))"
  let ?w0 = "w\<lparr>w_metrics := inc_active_tasks (w_metrics w)\<rparr>"
  obtain t where t: "finallyE ?m (leave_slot tid) ?w0 = (Inr (), t)"
    using raises_nothing [OF raises_run_one_core [of f tid "w_clock w", OF assms(4)]] by (metis (full_types) old.unit.exhaust)
  have "preserves active (run_body (Some f) tid (w_clock w))"
    unfolding run_body_def using assms(3) by (simp, intro preserves_intros active_observe active_count)
  then have act: "active (snd (?m ?w0)) = active ?w0"
    by (intro preservesD preserves_try active_on_exception)
  have "t = snd (leave_slot tid (snd (?m ?w0)))"
    using t by (auto simp: finallyE_def split: prod.splits sum.splits)
  then have "active t = max 0 (active ?w0 - 1)" using act by (simp add: dec_active_tasks_def)
  then show ?thesis using t assms(2) by (simp add: run_one_unfold [OF assms(1)] inc_active_tasks_def)
qed

section \<open>The concurrency bound\<close>

text \<open>The queue's tasks as they pass the semaphore: \<open>_worker_loop\<close> spawns a \<open>_run_one\<close> for every
  queued id, \<open>async with _semaphore\<close> admits it when the value is positive, and leaving the block
  (always, it is a \<open>finally\<close>) gives the value back.\<close>

record slots =
  sl_queue :: "string list"
  sl_waiting :: "string list"
  sl_value :: nat
  sl_active :: "string list"

inductive slot_step :: "slots \<Rightarrow> slots \<Rightarrow> bool" where
  put: "slot_step s (s\<lparr>sl_queue := sl_queue s @ [tid]\<rparr>)"
| spawn: "sl_queue s = tid # rest \<Longrightarrow>
    slot_step s (s\<lparr>sl_queue := rest, sl_waiting := sl_waiting s @ [tid]\<rparr>)"
| enter: "sl_value s = Suc n \<Longrightarrow> sl_waiting s = tid # rest \<Longrightarrow>
    slot_step s (s\<lparr>sl_value := n, sl_waiting := rest, sl_active := tid # sl_active s\<rparr>)"
| leave: "tid \<in> set (sl_active s) \<Longrightarrow>
    slot_step s (s\<lparr>sl_value := Suc (sl_value s), sl_active := remove1 tid (sl_active s)\<rparr>)"

inductive_cases slot_stepE: "slot_step s t"

definition start_slots :: "nat \<Rightarrow> slots" where
  "start_slots n = \<lparr>sl_queue = [], sl_waiting = [], sl_value = n, sl_active = []\<rparr>"

lemma slot_step_balance:
  "slot_step s t \<Longrightarrow> sl_value s + length (sl_active s) = n \<Longrightarrow> sl_value t + length (sl_active t) = n"
  by (erule slot_stepE) (auto simp: length_remove1 dest: length_pos_if_in_set)

lemma slot_steps_balance:
  "slot_step\<^sup>*\<^sup>* (start_slots n) t \<Longrightarrow> sl_value t + length (sl_active t) = n"
  by (induction rule: rtranclp_induct) (auto simp: start_slots_def intro: slot_step_balance)

text \<open>In every reachable state at most \<open>max_concurrent_tasks\<close> tasks hold a slot, and when
  some task waits while fewer hold one, the next task in line can enter.\<close>

theorem concurrency_bound:
  assumes "slot_step\<^sup>*\<^sup>* (start_slots n) s"
  shows "length (sl_active s) \<le> n \<and>
    (sl_waiting s \<noteq> [] \<and> length (sl_active s) < n \<longrightarrow>
       (\<exists>t. slot_step s t \<and> sl_active t = hd (sl_waiting s) # sl_active s))"
proof (intro conjI impI)
  have bal: "sl_value s + length (sl_active s) = n" using slot_steps_balance [OF assms] .
  then show "length (sl_active s) \<le> n" by simp
  assume "sl_waiting s \<noteq> [] \<and> length (sl_active s) < n"
  then obtain tid rest k where "sl_waiting s = tid # rest" "sl_value s = Suc k"
    using bal by (cases "sl_waiting s"; cases "sl_value s") auto
  then show "\<exists>t. slot_step s t \<and> sl_active t = hd (sl_waiting s) # sl_active s"
    using slot_step.enter [of s k tid rest] by (intro exI conjI) auto
qed

section \<open>Witnesses\<close>

definition failing_executor :: executor where
  "failing_executor tid = raiseE (RuntimeError ''boom'')"

lemma run_one_terminal_witness:
  "\<exists>w2. run_one (Some failing_executor) ''t1'' ex_world = (Inr (), w2) \<and>
    map_option tr_status (find_task ''t1'' (w_db w2)) = Some ''failed'' \<and>
    length (db_events (w_db w2)) = 2"
  using run_one_writes_the_terminal_state [of ex_world failing_executor "''t1''"
      "RuntimeError ''boom''" "slot_entry ex_world"]
  by (auto simp: failing_executor_def raiseE_def writable_def slot_entry_def ended_as_def)
    (auto simp: ex_world_def find_task_def ex_task_row_def)

lemma run_one_contains_failures_witness:
  "fst (run_one (Some failing_executor) ''t1'' ex_world) = Inr ()"
  using run_one_contains_failures [of ex_world failing_executor "''t1''"]
  by (simp add: failing_executor_def ex_world_def init_world_def init_metrics_def preserves_raise raises_raise)

section \<open>The queue as a line before some counters\<close>

text \<open>What the queue promises: who arrives first is served first, at one of \<open>n\<close> counters.\<close>

record line =
  ln_waiting :: "string list"
  ln_served :: "string list"

inductive line_step :: "nat \<Rightarrow> line \<Rightarrow> line \<Rightarrow> bool" where
  arrive: "line_step n l (l\<lparr>ln_waiting := ln_waiting l @ [tid]\<rparr>)"
| serve: "ln_waiting l = tid # rest \<Longrightarrow> length (ln_served l) < n \<Longrightarrow>
    line_step n l (l\<lparr>ln_waiting := rest, ln_served := tid # ln_served l\<rparr>)"
| finish: "tid \<in> set (ln_served l) \<Longrightarrow> line_step n l (l\<lparr>ln_served := remove1 tid (ln_served l)\<rparr>)"

definition line_of :: "slots \<Rightarrow> line" where
  "line_of s = \<lparr>ln_waiting = sl_waiting s @ sl_queue s, ln_served = sl_active s\<rparr>"

text \<open>C38: The queue, its loop and the semaphore refine a first-come, first-served line before
  \<open>max_concurrent_tasks\<close> counters: every step is a step of the line or, when the loop moves a task from
  the queue to the semaphore, none; and while a counter is free, whoever is first can be served.\<close>

theorem slots_refine_the_line:
  assumes "slot_step\<^sup>*\<^sup>* (start_slots n) s"
  shows "(slot_step s t \<longrightarrow> line_step n (line_of s) (line_of t) \<or> line_of t = line_of s) \<and>
    (sl_waiting s \<noteq> [] \<and> length (sl_active s) < n \<longrightarrow>
       (\<exists>t. slot_step s t \<and> ln_served (line_of t) = hd (ln_waiting (line_of s)) # ln_served (line_of s)))"
proof (intro conjI impI)
  assume "slot_step s t"
  then show "line_step n (line_of s) (line_of t) \<or> line_of t = line_of s"
  proof (cases rule: slot_step.cases)
    case (put tid)
    then show ?thesis using line_step.arrive [of n "line_of s" tid] by (simp add: line_of_def)
  next
    case (spawn tid rest)
    then show ?thesis by (simp add: line_of_def)
  next
    case (enter k tid rest)
    then have "length (sl_active s) < n" using slot_steps_balance [OF assms] by simp
    then show ?thesis
      using enter line_step.serve [of "line_of s" tid "rest @ sl_queue s" n] by (simp add: line_of_def)
  next
    case (leave tid)
    then show ?thesis using line_step.finish [of tid "line_of s" n] by (simp add: line_of_def)
  qed
next
  assume "sl_waiting s \<noteq> [] \<and> length (sl_active s) < n"
  then show "\<exists>t. slot_step s t \<and> ln_served (line_of t) = hd (ln_waiting (line_of s)) # ln_served (line_of s)"
    using concurrency_bound [OF assms] by (auto simp: line_of_def)
qed

definition ex_slots :: slots where
  "ex_slots = \<lparr>sl_queue = [], sl_waiting = [''b''], sl_value = 0, sl_active = [''a'']\<rparr>"

lemma ex_slots_reached: "slot_step\<^sup>*\<^sup>* (start_slots 1) ex_slots"
proof -
  let ?s1 = "(start_slots 1)\<lparr>sl_queue := [''a'']\<rparr>"
  let ?s2 = "?s1\<lparr>sl_queue := [''a'', ''b'']\<rparr>"
  let ?s3 = "?s2\<lparr>sl_queue := [''b''], sl_waiting := [''a'']\<rparr>"
  let ?s4 = "?s3\<lparr>sl_queue := [], sl_waiting := [''a'', ''b'']\<rparr>"
  have "slot_step (start_slots 1) ?s1" using slot_step.put [of "start_slots 1" "''a''"] by (simp add: start_slots_def)
  moreover have "slot_step ?s1 ?s2" using slot_step.put [of ?s1 "''b''"] by simp
  moreover have "slot_step ?s2 ?s3" using slot_step.spawn [of ?s2 "''a''" "[''b'']"] by (simp add: start_slots_def)
  moreover have "slot_step ?s3 ?s4" using slot_step.spawn [of ?s3 "''b''" "[]"] by simp
  moreover have "slot_step ?s4 ex_slots"
    using slot_step.enter [of ?s4 0 "''a''" "[''b'']"] by (simp add: start_slots_def ex_slots_def)
  ultimately show ?thesis by (meson converse_rtranclp_into_rtranclp rtranclp.rtrancl_refl)
qed

lemma slots_refine_the_line_witness:
  "\<exists>t. slot_step ex_slots t \<and> line_step 1 (line_of ex_slots) (line_of t)"
proof -
  let ?t = "ex_slots\<lparr>sl_value := 1, sl_active := []\<rparr>"
  have "slot_step ex_slots ?t" using slot_step.leave [of "''a''" ex_slots] by (simp add: ex_slots_def)
  moreover from this have "line_step 1 (line_of ex_slots) (line_of ?t) \<or> line_of ?t = line_of ex_slots"
    using slots_refine_the_line [OF ex_slots_reached, of ?t] by blast
  moreover have "line_of ?t \<noteq> line_of ex_slots" by (simp add: line_of_def ex_slots_def)
  ultimately show ?thesis by blast
qed

end
