(* ===== verification/Config.thy ===== *)
theory Config
  imports Contract
begin

text \<open>
  The settings of \<open>src/worker/config.py\<close>: their fields, types and defaults, where each value comes
  from, and the one object the process keeps. What pydantic-settings finds in the process
  environment and in the file \<open>.env\<close> under a name, and how pydantic reads an integer, a float, a
  truth value or a path from a text, are fields of the source they come from. A path is its text, and \<open>/\<close> of
  \<open>pathlib\<close> is \<open>path_join\<close>: an absolute right operand replaces the left one.
\<close>

section \<open>The fields\<close>

record settings =
  st_bearer_token :: string
  st_max_concurrent_tasks :: int
  st_db_path :: string
  st_data_dir :: string
  st_artifact_retention_days :: int
  st_artifact_gc_interval_sec :: real
  st_host :: string
  st_port :: int
  st_log_level :: string
  st_sse_heartbeat_sec :: real
  st_sandbox_image :: string
  st_sandbox_network :: string
  st_allow_host_mount :: bool
  st_broker_enabled :: bool
  st_broker_host :: string
  st_broker_port :: int

definition default_settings :: "string \<Rightarrow> settings" where
  "default_settings token = \<lparr>st_bearer_token = token, st_max_concurrent_tasks = 3, st_db_path = ''data/worker.db'',
     st_data_dir = ''data'', st_artifact_retention_days = 7, st_artifact_gc_interval_sec = 3600,
     st_host = ''0.0.0.0'', st_port = 8080, st_log_level = ''INFO'', st_sse_heartbeat_sec = 15,
     st_sandbox_image = ''worker-sandbox:latest'', st_sandbox_network = ''worker-sandbox-net'',
     st_allow_host_mount = False, st_broker_enabled = False,
     st_broker_host = ''127.0.0.1'', st_broker_port = 8090\<rparr>"

definition path_join :: "string \<Rightarrow> string \<Rightarrow> string" where
  "path_join a b = (if starts_with ''/'' b then b else a @ ''/'' @ b)"

definition artifacts_dir :: "settings \<Rightarrow> string" where
  "artifacts_dir st = path_join (st_data_dir st) ''artifacts''"

section \<open>Where they come from\<close>

record settings_source =
  ss_environ :: "string \<Rightarrow> string option"
  ss_dotenv :: "string \<Rightarrow> string option"
  ss_int :: "string \<Rightarrow> int option"
  ss_float :: "string \<Rightarrow> real option"
  ss_bool :: "string \<Rightarrow> bool option"
  ss_path :: "string \<Rightarrow> string option"

text \<open>\<open>env_prefix\<close> and \<open>env_file\<close> of \<open>model_config\<close>: the environment before the file.\<close>

definition setting_text :: "settings_source \<Rightarrow> string \<Rightarrow> string option" where
  "setting_text src name =
     (case ss_environ src (''WORKER_'' @ name) of
        Some t \<Rightarrow> Some t | None \<Rightarrow> ss_dotenv src (''WORKER_'' @ name))"

text \<open>One field: \<open>None\<close> when its text is refused or there is neither a text nor a default.\<close>

definition read_setting :: "settings_source \<Rightarrow> (string \<Rightarrow> 'a option) \<Rightarrow> string \<Rightarrow> 'a option \<Rightarrow> 'a option" where
  "read_setting src conv name dflt =
     (case setting_text src name of Some t \<Rightarrow> conv t | None \<Rightarrow> dflt)"

definition read_settings :: "settings_source \<Rightarrow> settings option" where
  "read_settings src =
     (let d = default_settings [] in
      Option.bind (read_setting src Some ''BEARER_TOKEN'' None) (\<lambda>token.
      Option.bind (read_setting src (ss_int src) ''MAX_CONCURRENT_TASKS'' (Some (st_max_concurrent_tasks d))) (\<lambda>tasks.
      Option.bind (read_setting src (ss_path src) ''DB_PATH'' (Some (st_db_path d))) (\<lambda>db.
      Option.bind (read_setting src (ss_path src) ''DATA_DIR'' (Some (st_data_dir d))) (\<lambda>data.
      Option.bind (read_setting src (ss_int src) ''ARTIFACT_RETENTION_DAYS'' (Some (st_artifact_retention_days d))) (\<lambda>days.
      Option.bind (read_setting src (ss_float src) ''ARTIFACT_GC_INTERVAL_SEC'' (Some (st_artifact_gc_interval_sec d))) (\<lambda>gc.
      Option.bind (read_setting src Some ''HOST'' (Some (st_host d))) (\<lambda>host.
      Option.bind (read_setting src (ss_int src) ''PORT'' (Some (st_port d))) (\<lambda>port.
      Option.bind (read_setting src Some ''LOG_LEVEL'' (Some (st_log_level d))) (\<lambda>level.
      Option.bind (read_setting src (ss_float src) ''SSE_HEARTBEAT_SEC'' (Some (st_sse_heartbeat_sec d))) (\<lambda>beat.
      Option.bind (read_setting src Some ''SANDBOX_IMAGE'' (Some (st_sandbox_image d))) (\<lambda>image.
      Option.bind (read_setting src Some ''SANDBOX_NETWORK'' (Some (st_sandbox_network d))) (\<lambda>network.
      Option.bind (read_setting src (ss_bool src) ''ALLOW_HOST_MOUNT'' (Some (st_allow_host_mount d))) (\<lambda>mount.
      Option.bind (read_setting src (ss_bool src) ''BROKER_ENABLED'' (Some (st_broker_enabled d))) (\<lambda>broker.
      Option.bind (read_setting src Some ''BROKER_HOST'' (Some (st_broker_host d))) (\<lambda>bhost.
      Option.bind (read_setting src (ss_int src) ''BROKER_PORT'' (Some (st_broker_port d))) (\<lambda>bport.
      Some \<lparr>st_bearer_token = token, st_max_concurrent_tasks = tasks, st_db_path = db, st_data_dir = data,
        st_artifact_retention_days = days, st_artifact_gc_interval_sec = gc, st_host = host, st_port = port,
        st_log_level = level, st_sse_heartbeat_sec = beat, st_sandbox_image = image, st_sandbox_network = network,
        st_allow_host_mount = mount, st_broker_enabled = broker, st_broker_host = bhost, st_broker_port = bport\<rparr>)))))))))))))))))"

definition load_settings :: "settings_source \<Rightarrow> exn + settings" where
  "load_settings src =
     (case read_settings src of
        None \<Rightarrow> Inl (OtherError ''ValidationError'' ''Settings'') | Some st \<Rightarrow> Inr st)"

text \<open>\<open>get_settings\<close> and its \<open>lru_cache\<close>, which keeps a result and no exception.\<close>

definition get_settings :: "settings_source \<Rightarrow> settings option \<Rightarrow> (exn + settings) \<times> settings option" where
  "get_settings src cache =
     (case cache of
        Some st \<Rightarrow> (Inr st, cache)
      | None \<Rightarrow> (case load_settings src of Inl e \<Rightarrow> (Inl e, None) | Inr st \<Rightarrow> (Inr st, Some st)))"

fun get_settings_each :: "settings_source list \<Rightarrow> settings option \<Rightarrow> (exn + settings) list" where
  "get_settings_each [] cache = []"
| "get_settings_each (src # srcs) cache =
     (case get_settings src cache of (r, cache') \<Rightarrow> r # get_settings_each srcs cache')"

section \<open>What they are\<close>

lemma read_setting_absent: "setting_text src name = None \<Longrightarrow> read_setting src conv name dflt = dflt"
  by (simp add: read_setting_def)

text \<open>With the token alone the settings are the defaults; without it there are none.\<close>

lemma token_alone_gives_the_defaults:
  assumes "setting_text src = [''BEARER_TOKEN'' \<mapsto> token]"
  shows "load_settings src = Inr (default_settings token)"
proof -
  have "read_setting src conv name dflt = dflt" if "name \<noteq> ''BEARER_TOKEN''" for conv :: "string \<Rightarrow> 'a option" and name dflt
    using assms that by (intro read_setting_absent) simp
  moreover have "read_setting src Some ''BEARER_TOKEN'' None = Some token" using assms by (simp add: read_setting_def)
  ultimately show ?thesis
    using assms by (simp add: load_settings_def read_settings_def read_setting_def Let_def default_settings_def)
qed

lemma no_token_no_settings:
  "setting_text src ''BEARER_TOKEN'' = None \<Longrightarrow> load_settings src = Inl (OtherError ''ValidationError'' ''Settings'')"
  by (simp add: load_settings_def read_settings_def read_setting_def Let_def)

text \<open>A refused text refuses all settings, also when the file or the default would do.\<close>

lemma refused_flag_no_settings:
  assumes "ss_environ src ''WORKER_ALLOW_HOST_MOUNT'' = Some t" and "ss_bool src t = None"
  shows "load_settings src = Inl (OtherError ''ValidationError'' ''Settings'')"
  using assms by (simp add: load_settings_def read_settings_def read_setting_def setting_text_def Let_def bind_eq_None_conv)

lemma cached_settings: "get_settings_each srcs (Some st) = replicate (length srcs) (Inr st)"
  by (induction srcs) (simp_all add: get_settings_def)

text \<open>However the environment changes between the calls, those before the first valid one raise and all others
  return the settings read then.\<close>

lemma settings_are_read_once:
  "\<exists>n. get_settings_each srcs None =
     map load_settings (take n srcs) @ replicate (length srcs - n) (load_settings (srcs ! n)) \<and>
     list_all (\<lambda>s. isl (load_settings s)) (take n srcs) \<and> (n < length srcs \<longrightarrow> \<not> isl (load_settings (srcs ! n)))"
proof (induction srcs)
  case (Cons src srcs)
  show ?case
  proof (cases "load_settings src")
    case (Inl e)
    from Cons obtain n where n: "get_settings_each srcs None =
        map load_settings (take n srcs) @ replicate (length srcs - n) (load_settings (srcs ! n))"
      "list_all (\<lambda>s. isl (load_settings s)) (take n srcs)" "n < length srcs \<longrightarrow> \<not> isl (load_settings (srcs ! n))"
      by blast
    then show ?thesis by (intro exI [of _ "Suc n"]) (simp add: get_settings_def Inl)
  next
    case (Inr st)
    then show ?thesis by (intro exI [of _ 0]) (simp add: get_settings_def cached_settings)
  qed
qed simp

end
