(* ===== verification/Artifact_Gc.thy ===== *)
theory Artifact_Gc
  imports Repo_Props Config
begin

text \<open>
  The artifact collector \<open>src/worker/orchestrator/artifact_gc.py\<close>. The file system is the part
  of the state that maps resolved paths to contents; how the operating system resolves a path
  text and which files it refuses to unlink are parameters (\<open>resolve\<close>, \<open>denied\<close>). A path lies in
  the artifacts directory when the directory's components are a prefix of it.
\<close>

record os_files =
  os_resolve :: "string \<Rightarrow> exn + file_path"
  os_denied :: "file_path \<Rightarrow> bool"

definition in_subtree :: "file_path \<Rightarrow> file_path \<Rightarrow> bool" where
  "in_subtree base p \<longleftrightarrow> prefix base p"

text \<open>\<open>str(path)\<close> of a resolved path.\<close>

definition path_text :: "file_path \<Rightarrow> string" where
  "path_text p = concat (map (\<lambda>c. ''/'' @ c) p)"

definition files :: "world \<Rightarrow> file_path set" where
  "files w = fst ` set (w_files w)"

datatype unlink_result = U_ok | U_missing_file | U_error

fun unlink_value :: "unlink_result \<Rightarrow> string" where
  "unlink_value U_ok = ''ok''"
| "unlink_value U_missing_file = ''missing_file''"
| "unlink_value U_error = ''error''"

definition unlink_file :: "os_files \<Rightarrow> file_path \<Rightarrow> string option \<Rightarrow> world \<Rightarrow> unlink_result \<times> world" where
  "unlink_file os base path w =
     (case path of None \<Rightarrow> (U_ok, w)
      | Some p \<Rightarrow>
          if p = [] then (U_ok, w)
          else (case os_resolve os p of
                  Inl _ \<Rightarrow> (U_error, w)
                | Inr rp \<Rightarrow>
                    if \<not> in_subtree base rp then (U_error, w)
                    else if rp \<notin> files w then (U_missing_file, w)
                    else if os_denied os rp then (U_error, w)
                    else (U_ok, w\<lparr>w_files := dict_pop rp (w_files w)\<rparr>)))"

record gc_stats =
  gs_deleted :: int
  gs_missing_file :: int
  gs_errors :: int

definition count_error :: "gc_stats \<Rightarrow> gc_stats" where
  "count_error s = s\<lparr>gs_errors := gs_errors s + 1\<rparr>"

definition count_result :: "unlink_result \<Rightarrow> gc_stats \<Rightarrow> gc_stats" where
  "count_result r s = (if r = U_missing_file then s\<lparr>gs_missing_file := gs_missing_file s + 1\<rparr>
     else s\<lparr>gs_deleted := gs_deleted s + 1\<rparr>)"

text \<open>One artifact: the file first, then its row; a failure of either is counted and the loop
  goes on. \<open>True\<close> stands for the row being deleted.\<close>

definition gc_one :: "os_files \<Rightarrow> file_path \<Rightarrow> string \<times> string option \<Rightarrow> gc_stats \<Rightarrow> gc_stats io" where
  "gc_one os base ap stats w =
     (case unlink_file os base (snd ap) w of
        (U_error, w1) \<Rightarrow> thenE (metric (inc_artifact_gc_deleted ''error'')) (retE (count_error stats)) w1
      | (r, w1) \<Rightarrow>
          tryE (thenE (bindE (delete_artifact_row (fst ap)) (\<lambda>_. retE ()))
                  (thenE (metric (inc_artifact_gc_deleted (unlink_value r))) (retE (count_result r stats))))
            (\<lambda>e. if is_Exception e
                 then thenE (metric (inc_artifact_gc_deleted ''error'')) (retE (count_error stats))
                 else raiseE e) w1)"

fun gc_each :: "os_files \<Rightarrow> file_path \<Rightarrow> (string \<times> string option) list \<Rightarrow> gc_stats \<Rightarrow> gc_stats io" where
  "gc_each os base [] stats = retE stats"
| "gc_each os base (ap # aps) stats = bindE (gc_one os base ap stats) (gc_each os base aps)"

definition GC_BATCH_LIMIT :: nat where "GC_BATCH_LIMIT = 500"

definition gc_run_once :: "os_files \<Rightarrow> file_path \<Rightarrow> timestamp \<Rightarrow> nat \<Rightarrow> gc_stats io" where
  "gc_run_once os base now limit =
     thenE get_db (
     bindE (select_expired_artifacts now limit) (\<lambda>expired.
     gc_each os base expired \<lparr>gs_deleted = 0, gs_missing_file = 0, gs_errors = 0\<rparr>))"

text \<open>One turn of \<open>_gc_loop\<close>: a failing cycle is logged, and the loop sleeps either way.\<close>

definition gc_turn :: "os_files \<Rightarrow> file_path \<Rightarrow> settings \<Rightarrow> unit io" where
  "gc_turn os base st =
     thenE (tryE (bindE time_now (\<lambda>now. bindE (gc_run_once os base now GC_BATCH_LIMIT) (\<lambda>_. retE ())))
              (\<lambda>e. if is_Exception e then retE () else raiseE e))
       (sleep (st_artifact_gc_interval_sec st))"

section \<open>One artifact\<close>

definition arts :: "world \<Rightarrow> artifact_row list" where
  "arts w = db_artifacts (w_db w)"

lemma files_metrics [simp]: "files (w\<lparr>w_metrics := m\<rparr>) = files w"
  by (simp add: files_def)

lemma arts_metrics [simp]: "arts (w\<lparr>w_metrics := m\<rparr>) = arts w"
  by (simp add: arts_def)

lemma files_pop: "w_files w1 = dict_pop rp (w_files w) \<Longrightarrow> files w1 = files w - {rp}"
  by (force simp: files_def dict_pop_def)

lemma delete_row_cases:
  "(\<exists>x d. delete_artifact_row aid w = (Inr x, d) \<and> arts d = filter (\<lambda>r. ar_id r \<noteq> aid) (arts w) \<and>
      files d = files w) \<or>
   (\<exists>e d. delete_artifact_row aid w = (Inl e, d) \<and> is_Exception e \<and> arts d = arts w \<and> files d = files w)"
  by (cases "w_faults w")
    (auto simp: delete_artifact_row_def comp_defs statement_def update_db_def arts_def files_def)

lemma unlink_file_effect:
  assumes "unlink_file os base p w = (r, w1)"
  shows "arts w1 = arts w" "w_db w1 = w_db w"
    and "w_files w1 = w_files w \<or> (\<exists>s rp. p = Some s \<and> os_resolve os s = Inr rp \<and> in_subtree base rp \<and>
           r = U_ok \<and> w_files w1 = dict_pop rp (w_files w))"
    and "r \<noteq> U_error \<Longrightarrow> p = Some s \<Longrightarrow> s \<noteq> [] \<Longrightarrow> os_resolve os s = Inr rp \<Longrightarrow>
           in_subtree base rp \<and> rp \<notin> files w1"
    and "r = U_error \<Longrightarrow> w1 = w"
  using assms
  by (auto simp: unlink_file_def arts_def files_def dict_pop_def split: option.splits sum.splits if_splits)

text \<open>The guarantee one step gives, and the whole cycle inherits: the rows that disappear are the
  step's own, the files that disappear are in the artifacts directory, and a row that is gone
  left no file there.\<close>

definition gc_safe :: "os_files \<Rightarrow> file_path \<Rightarrow> world \<Rightarrow> world \<Rightarrow> bool" where
  "gc_safe os base w w' \<longleftrightarrow>
     set (arts w') \<subseteq> set (arts w) \<and>
     files w' \<subseteq> files w \<and>
     (\<forall>f \<in> files w - files w'. in_subtree base f)"

lemma gc_safe_refl: "gc_safe os base w w"
  by (simp add: gc_safe_def)

lemma gc_safe_trans: "gc_safe os base u v \<Longrightarrow> gc_safe os base v w \<Longrightarrow> gc_safe os base u w"
  unfolding gc_safe_def by blast

lemma gc_one_effect:
  "\<exists>s' w'. gc_one os base ap stats w = (Inr s', w') \<and> gc_safe os base w w' \<and>
     (arts w' = arts w \<or> arts w' = filter (\<lambda>r. ar_id r \<noteq> fst ap) (arts w) \<and>
        (\<forall>s rp. snd ap = Some s \<longrightarrow> s \<noteq> [] \<longrightarrow> os_resolve os s = Inr rp \<longrightarrow> rp \<notin> files w')) \<and>
     gs_deleted s' + gs_missing_file s' + gs_errors s' = gs_deleted stats + gs_missing_file stats + gs_errors stats + 1"
proof -
  obtain r w1 where u: "unlink_file os base (snd ap) w = (r, w1)" by (cases "unlink_file os base (snd ap) w")
  note eff = unlink_file_effect [OF u]
  have safe1: "gc_safe os base w w1"
    using eff(1,3) by (auto simp: gc_safe_def files_pop) (simp add: files_def)+
  show ?thesis
  proof (cases "r = U_error")
    case True
    then have "w1 = w" using eff(5) by blast
    then show ?thesis
      using u True by (simp add: gc_one_def comp_defs metric_def count_error_def gc_safe_def arts_def)
  next
    case False
    consider (removed) x d where "delete_artifact_row (fst ap) w1 = (Inr x, d)"
        "arts d = filter (\<lambda>r. ar_id r \<noteq> fst ap) (arts w1)" "files d = files w1"
      | (refused) e d where "delete_artifact_row (fst ap) w1 = (Inl e, d)" "is_Exception e" "arts d = arts w1"
        "files d = files w1"
      using delete_row_cases [of "fst ap" w1] by blast
    then show ?thesis
    proof cases
      case removed
      have "gc_one os base ap stats w =
          (Inr (count_result r stats), d\<lparr>w_metrics := inc_artifact_gc_deleted (unlink_value r) (w_metrics d)\<rparr>)"
        using u False removed(1) by (cases r) (simp_all add: gc_one_def comp_defs metric_def)
      then show ?thesis
        using eff(1,4) False removed(2,3) safe1
        by (auto simp: gc_safe_def count_result_def)
    next
      case refused
      have "gc_one os base ap stats w =
          (Inr (count_error stats), d\<lparr>w_metrics := inc_artifact_gc_deleted ''error'' (w_metrics d)\<rparr>)"
        using u False refused(1,2) by (cases r) (simp_all add: gc_one_def comp_defs metric_def)
      then show ?thesis
        using eff(1) refused(3,4) safe1 by (auto simp: gc_safe_def count_error_def)
    qed
  qed
qed

section \<open>A cycle\<close>

text \<open>The rows a list of selected artifacts may remove, and what the removal of a row says about
  its file.\<close>

definition row_settled :: "os_files \<Rightarrow> (string \<times> string option) list \<Rightarrow> world \<Rightarrow> artifact_row \<Rightarrow> bool" where
  "row_settled os aps w r \<longleftrightarrow> (\<exists>p. (ar_id r, p) \<in> set aps \<and>
     (\<forall>s rp. p = Some s \<longrightarrow> s \<noteq> [] \<longrightarrow> os_resolve os s = Inr rp \<longrightarrow> rp \<notin> files w))"

lemma row_settled_mono:
  "row_settled os aps u r \<Longrightarrow> set aps \<subseteq> set aps' \<Longrightarrow> files w \<subseteq> files u \<Longrightarrow> row_settled os aps' w r"
  unfolding row_settled_def by blast

lemma gc_each_effect:
  "\<exists>s' w'. gc_each os base aps stats w = (Inr s', w') \<and> gc_safe os base w w' \<and>
     (\<forall>r \<in> set (arts w) - set (arts w'). row_settled os aps w' r) \<and>
     gs_deleted s' + gs_missing_file s' + gs_errors s' =
       gs_deleted stats + gs_missing_file stats + gs_errors stats + int (length aps)"
proof (induction aps arbitrary: stats w)
  case Nil
  then show ?case by (simp add: retE_def gc_safe_refl)
next
  case (Cons ap aps)
  obtain s1 w1 where one: "gc_one os base ap stats w = (Inr s1, w1)" "gc_safe os base w w1"
    "arts w1 = arts w \<or> arts w1 = filter (\<lambda>r. ar_id r \<noteq> fst ap) (arts w) \<and>
        (\<forall>s rp. snd ap = Some s \<longrightarrow> s \<noteq> [] \<longrightarrow> os_resolve os s = Inr rp \<longrightarrow> rp \<notin> files w1)"
    "gs_deleted s1 + gs_missing_file s1 + gs_errors s1 = gs_deleted stats + gs_missing_file stats + gs_errors stats + 1"
    using gc_one_effect by blast
  obtain s2 w2 where rest: "gc_each os base aps s1 w1 = (Inr s2, w2)" "gc_safe os base w1 w2"
    "\<forall>r \<in> set (arts w1) - set (arts w2). row_settled os aps w2 r"
    "gs_deleted s2 + gs_missing_file s2 + gs_errors s2 = gs_deleted s1 + gs_missing_file s1 + gs_errors s1 + int (length aps)"
    using Cons.IH by blast
  have sub: "files w2 \<subseteq> files w1" using rest(2) by (simp add: gc_safe_def)
  have "row_settled os (ap # aps) w2 r" if "r \<in> set (arts w) - set (arts w2)" for r
  proof (cases "r \<in> set (arts w1)")
    case True
    then have "row_settled os aps w2 r" using rest(3) that by blast
    then show ?thesis by (rule row_settled_mono) auto
  next
    case False
    then have "ar_id r = fst ap" "\<forall>s rp. snd ap = Some s \<longrightarrow> s \<noteq> [] \<longrightarrow> os_resolve os s = Inr rp \<longrightarrow> rp \<notin> files w1"
      using one(3) that by auto
    then have "row_settled os (ap # aps) w1 r"
      unfolding row_settled_def by (intro exI [of _ "snd ap"]) simp
    then show ?thesis using sub by (rule row_settled_mono [OF _ order_refl])
  qed
  then show ?case
    using one rest gc_safe_trans [OF one(2) rest(2)] by (simp add: bindE_step)
qed


section \<open>A batch that cannot be deleted blocks the collector\<close>

lemma gc_each_stuck:
  assumes "\<And>ap v. ap \<in> set aps \<Longrightarrow> unlink_file os base (snd ap) v = (U_error, v)"
  shows "\<exists>s m. gc_each os base aps stats (w\<lparr>w_metrics := m0\<rparr>) = (Inr s, w\<lparr>w_metrics := m\<rparr>) \<and>
     gs_deleted s = gs_deleted stats"
  using assms
proof (induction aps arbitrary: stats m0)
  case Nil
  then show ?case by (auto simp: retE_def)
next
  case (Cons ap aps)
  have one: "gc_one os base ap stats (w\<lparr>w_metrics := m0\<rparr>) =
      (Inr (count_error stats), w\<lparr>w_metrics := inc_artifact_gc_deleted ''error'' m0\<rparr>)"
    using Cons.prems by (simp add: gc_one_def comp_defs metric_def)
  obtain s m where rest:
    "gc_each os base aps (count_error stats) (w\<lparr>w_metrics := inc_artifact_gc_deleted ''error'' m0\<rparr>) = (Inr s, w\<lparr>w_metrics := m\<rparr>)"
    "gs_deleted s = gs_deleted (count_error stats)"
    using Cons.IH [of "count_error stats" "inc_artifact_gc_deleted ''error'' m0"] Cons.prems by (metis list.set_intros(2))
  have "gc_each os base (ap # aps) stats (w\<lparr>w_metrics := m0\<rparr>) = (Inr s, w\<lparr>w_metrics := m\<rparr>)"
    by (simp only: gc_each.simps bindE_def one rest(1) prod.case sum.case)
  then show ?case using rest(2) by (auto simp: count_error_def)
qed

text \<open>The batch is always the earliest expired rows, also the ones that failed before: if the
  first \<open>limit\<close> of them can never be unlinked (their paths lie outside the artifacts directory),
  a collection changes no row and no file, so no later expired artifact is ever collected.\<close>

theorem undeletable_batch_blocks_gc:
  assumes "w_connected w" and "w_faults w = []"
    and "\<forall>r \<in> set (take limit (sort_key (\<lambda>r. case ar_expires_at r of None \<Rightarrow> 0 | Some t \<Rightarrow> t)
            (filter (expired_before now) (arts w)))).
          \<exists>p rp. ar_file_path r = Some p \<and> p \<noteq> [] \<and> os_resolve os p = Inr rp \<and> \<not> in_subtree base rp"
  shows "\<exists>s m. gc_run_once os base now limit w = (Inr s, w\<lparr>w_metrics := m\<rparr>) \<and> gs_deleted s = 0"
proof -
  let ?rows = "take limit (sort_key (\<lambda>r. case ar_expires_at r of None \<Rightarrow> 0 | Some t \<Rightarrow> t)
            (filter (expired_before now) (arts w)))"
  let ?aps = "map (\<lambda>r. (ar_id r, ar_file_path r)) ?rows"
  have sel: "select_expired_artifacts now limit w = (Inr ?aps, w)"
    using assms(2) by (simp add: select_expired_artifacts_def arts_def)
  have err: "unlink_file os base (snd ap) v = (U_error, v)" if "ap \<in> set ?aps" for ap v
    using that assms(3) by (auto simp: unlink_file_def)
  let ?s0 = "\<lparr>gs_deleted = 0, gs_missing_file = 0, gs_errors = 0\<rparr>"
  obtain s m where run: "gc_each os base ?aps ?s0 (w\<lparr>w_metrics := w_metrics w\<rparr>) = (Inr s, w\<lparr>w_metrics := m\<rparr>)"
    and del: "gs_deleted s = gs_deleted ?s0"
    using gc_each_stuck [OF err] by blast
  have "gc_run_once os base now limit w = (Inr s, w\<lparr>w_metrics := m\<rparr>)"
    using run sel assms(1) by (simp add: gc_run_once_def thenE_step bindE_step)
  then show ?thesis using del by auto
qed

section \<open>Witnesses\<close>

definition split_path :: "string \<Rightarrow> file_path" where
  "split_path s = filter (\<lambda>c. c \<noteq> []) (str_split CHR ''/'' s)"

definition ex_os :: os_files where
  "ex_os = \<lparr>os_resolve = (\<lambda>s. Inr (split_path s)), os_denied = (\<lambda>_. False)\<rparr>"

definition ex_artifact :: "string \<Rightarrow> string \<Rightarrow> artifact_row" where
  "ex_artifact aid path = \<lparr>ar_id = aid, ar_task_id = ''t1'', ar_type = ''diff'', ar_filename = ''changes.diff.json'',
     ar_file_path = Some path, ar_size = Some 1, ar_created_at = 1, ar_expires_at = Some 5, ar_metadata = JText (JObj [])\<rparr>"

definition ex_gc_world :: "string \<Rightarrow> world" where
  "ex_gc_world path = ex_world\<lparr>w_db := (w_db ex_world)\<lparr>db_artifacts := [ex_artifact ''a1'' path]\<rparr>,
     w_files := [(split_path path, JNull)]\<rparr>"


lemma undeletable_batch_blocks_gc_witness:
  "\<exists>s m. gc_run_once ex_os [''data'', ''artifacts''] 10 500 (ex_gc_world ''/etc/passwd'') =
     (Inr s, (ex_gc_world ''/etc/passwd'')\<lparr>w_metrics := m\<rparr>) \<and> gs_deleted s = 0"
proof -
  have "os_resolve ex_os ''/etc/passwd'' = Inr [''etc'', ''passwd'']"
    by (simp add: ex_os_def split_path_def)
  then show ?thesis
    using undeletable_batch_blocks_gc [of "ex_gc_world ''/etc/passwd''" 500 10 ex_os "[''data'', ''artifacts'']"]
    by (simp add: ex_gc_world_def arts_def ex_artifact_def expired_before_def ex_world_def init_world_def in_subtree_def)
qed

end
