(* ===== verification/Api.thy ===== *)
theory Api
  imports Sse_Server Task_Queue Artifact_Gc
begin

text \<open>
  The HTTP layer: the bearer-token middleware \<open>src/worker/api/middleware.py\<close> and the handlers of
  \<open>src/worker/api/routes.py\<close> (their event stream is in the theory of the SSE server). A handler is
  a computation that returns its response body or raises; FastAPI turns an \<open>HTTPException\<close> into
  the response with its status code and any other exception into a 500.
\<close>

section \<open>Authentication\<close>

definition PUBLIC_PREFIXES :: "string list" where
  "PUBLIC_PREFIXES = [''/health'', ''/ready'', ''/docs'', ''/openapi.json'', ''/redoc'', ''/favicon.ico'']"

definition is_public :: "string \<Rightarrow> bool" where
  "is_public path \<longleftrightarrow>
     list_ex (\<lambda>p. path = p \<or> starts_with (p @ ''/'') path \<or> starts_with (p @ ''?'') path) PUBLIC_PREFIXES"

definition extract_bearer :: "string \<Rightarrow> string option" where
  "extract_bearer h =
     (if h = [] then None
      else if \<not> starts_with ''bearer '' (str_lower h) then None
      else (let token = str_strip (drop 7 h) in if token = [] then None else Some token))"

datatype 'a gate = Unauthorized string | Passed 'a

text \<open>\<open>header\<close> is the \<open>Authorization\<close> header, empty when absent. Comparing in constant time
  changes no result.\<close>

definition dispatch :: "settings \<Rightarrow> string \<Rightarrow> string \<Rightarrow> (unit \<Rightarrow> 'a) \<Rightarrow> 'a gate" where
  "dispatch st path header call_next =
     (if is_public path then Passed (call_next ())
      else (case extract_bearer header of
              None \<Rightarrow> Unauthorized ''missing or malformed Authorization header''
            | Some token \<Rightarrow>
                if token \<noteq> st_bearer_token st then Unauthorized ''invalid token''
                else Passed (call_next ())))"

section \<open>Handlers\<close>

definition VERSION :: string where "VERSION = ''0.1.0''"

definition health :: "(string \<times> json) list" where
  "health = [(''status'', JStr ''ok''), (''version'', JStr VERSION)]"

definition ready :: "(string \<times> json) list io" where
  "ready =
     tryE (thenE get_db (thenE (select (\<lambda>_. ())) (retE [(''status'', JStr ''ready''), (''version'', JStr VERSION)])))
       (\<lambda>e. if is_Exception e then raiseE (HTTPException 503 ''database unavailable'') else raiseE e)"

definition not_found :: "string \<Rightarrow> 'a io" where
  "not_found tid = raiseE (HTTPException 404 (''task '' @ tid @ '' not found''))"

text \<open>The common start of the handlers of one task: \<open>get_db\<close>, \<open>get_task\<close>, 404.\<close>

definition require_task :: "string \<Rightarrow> task_response io" where
  "require_task tid =
     thenE get_db (bindE (get_task tid) (\<lambda>t. case t of None \<Rightarrow> not_found tid | Some r \<Rightarrow> retE r))"

text \<open>A \<open>str\<close> enum in an f-string is its qualified member name.\<close>

definition status_repr :: "task_status \<Rightarrow> string" where
  "status_repr st = ''TaskStatus.'' @ task_status_value st"

definition create_task :: "task_request \<Rightarrow> task_response io" where
  "create_task request =
     thenE get_db (
     bindE (get_task (rq_task_id request)) (\<lambda>existing.
     case existing of
       Some r \<Rightarrow> raiseE (HTTPException 409 (''task '' @ rq_task_id request @ '' already exists (status='' @
                        status_repr (rs_status r) @ '')''))
     | None \<Rightarrow>
         bindE (insert_task request S_pending) (\<lambda>resp.
         bindE (insert_event (rs_task_id resp) K_task_created []) (\<lambda>_.
         thenE (enqueue_task (rs_task_id resp)) (retE resp)))))"

definition get_task_status :: "string \<Rightarrow> task_response io" where
  "get_task_status tid = require_task tid"

definition NON_TERMINAL :: "task_status set" where
  "NON_TERMINAL = {S_pending, S_queued, S_preparing_workspace, S_starting_container, S_starting_opencode,
     S_planning, S_awaiting_human, S_revising, S_executing, S_collecting_artifacts}"

definition remove_task :: "string \<Rightarrow> unit io" where
  "remove_task tid =
     bindE (require_task tid) (\<lambda>t.
     if rs_status t \<in> NON_TERMINAL then raiseE (HTTPException 409 (''task '' @ tid @ '' is '' @ status_repr (rs_status t) @ '', call abort first''))
     else bindE (delete_task tid) (\<lambda>_. retE ()))"

definition submit_decision :: "string \<Rightarrow> decision_response \<Rightarrow> (string \<times> json) list io" where
  "submit_decision tid resp =
     bindE (require_task tid) (\<lambda>_.
     bindE (resolve_decision (dp_decision_id resp) resp) (\<lambda>updated.
     if \<not> updated
     then raiseE (HTTPException 409 (''decision '' @ dp_decision_id resp @ '' not found or already resolved''))
     else bindE (insert_event tid K_decision_received
                  [(''decision_id'', JStr (dp_decision_id resp)),
                   (''choice'', JStr (decision_choice_value (dp_choice resp)))]) (\<lambda>_.
          retE [(''accepted'', JBool True), (''decision_id'', JStr (dp_decision_id resp))])))"

definition abort_task :: "string \<Rightarrow> (string \<times> json) list io" where
  "abort_task tid =
     bindE (require_task tid) (\<lambda>t.
     if rs_status t \<in> {S_completed, S_failed, S_aborted, S_timed_out}
     then raiseE (HTTPException 409 (''task '' @ tid @ '' is already in terminal state '' @ status_repr (rs_status t)))
     else thenE (update_task_status tid S_aborted) (
          bindE (insert_event tid K_task_aborted [(''reason'', JStr ''user_requested'')]) (\<lambda>_.
          retE [(''aborted'', JBool True), (''task_id'', JStr tid)])))"

definition list_task_artifacts :: "string \<Rightarrow> artifact list io" where
  "list_task_artifacts tid =
     bindE (require_task tid) (\<lambda>_.
     bindE (list_artifacts tid) (\<lambda>arts.
     retE (map (\<lambda>a. a\<lparr>art_download_url := Some (''/tasks/'' @ tid @ ''/artifacts/'' @ art_id a)\<rparr>) arts)))"

text \<open>\<open>Path.exists\<close>: a file, or a directory that holds one.\<close>

definition path_exists :: "file_path \<Rightarrow> world \<Rightarrow> bool" where
  "path_exists p w \<longleftrightarrow> list_ex (\<lambda>f. prefix p (fst f)) (w_files w)"

definition download_artifact :: "os_files \<Rightarrow> file_path \<Rightarrow> string \<Rightarrow> string \<Rightarrow> file_path io" where
  "download_artifact os base tid aid =
     bindE (require_task tid) (\<lambda>_.
     bindE (get_artifact_path aid tid) (\<lambda>path.
     case path of
       None \<Rightarrow> raiseE (HTTPException 404 (''artifact '' @ aid @ '' not found for task '' @ tid))
     | Some p \<Rightarrow>
         bindE (liftE (os_resolve os p)) (\<lambda>rp.
         if \<not> in_subtree base rp
         then raiseE (HTTPException 403 ''artifact path is outside the trusted artifacts directory'')
         else bindE (getE (path_exists rp)) (\<lambda>there.
              if \<not> there then raiseE (HTTPException 404 (''artifact file missing on disk: '' @ aid))
              else retE rp))))"

definition metrics_endpoint :: "string io" where
  "metrics_endpoint = getE (\<lambda>w. render_prometheus (w_metrics w))"

section \<open>The gate\<close>

lemma starts_with_not_public:
  assumes "starts_with ''/tasks'' path \<or> starts_with ''/metrics'' path"
  shows "\<not> is_public path"
proof
  assume "is_public path"
  then have "path ! 1 \<in> set ''hrdof''"
    by (auto simp: is_public_def PUBLIC_PREFIXES_def starts_with_iff)
  moreover have "path ! 1 \<in> set ''tm''" using assms by (auto simp: starts_with_iff)
  ultimately show False by auto
qed

text \<open>C17: No request for a task, an event stream, an artifact or the metrics reaches its handler
  unless the \<open>Authorization\<close> header is a bearer header (its scheme in any case) whose token,
  stripped, is exactly the configured one; any such header passes, unless the configured token is
  empty or has surrounding white space, and then every request of a non-public path is refused.\<close>

theorem authentication_gate:
  assumes "starts_with ''/tasks'' path \<or> starts_with ''/metrics'' path"
  shows "(dispatch st path header k = Passed (k ()) \<longleftrightarrow>
      starts_with ''bearer '' (str_lower header) \<and> str_strip (drop 7 header) = st_bearer_token st \<and>
      st_bearer_token st \<noteq> []) \<and>
    (str_strip (st_bearer_token st) \<noteq> st_bearer_token st \<or> st_bearer_token st = [] \<longrightarrow>
      (\<exists>m. dispatch st path header k = Unauthorized m))"
proof -
  have np: "\<not> is_public path" using starts_with_not_public assms .
  have empty: "\<not> starts_with ''bearer '' (str_lower [])" by (simp add: starts_with_def str_lower_def)
  show ?thesis
    using np empty str_strip_idem [of "drop 7 header"]
    by (auto simp: dispatch_def extract_bearer_def Let_def simp del: str_strip_idem)
qed

section \<open>Running a handler\<close>

lemma get_task_run:
  assumes "w_faults w = []"
  shows "get_task tid w = ((case find_task tid (w_db w) of None \<Rightarrow> Inr None
     | Some r \<Rightarrow> (case task_response_of r of Inl e \<Rightarrow> Inl e | Inr t \<Rightarrow> Inr (Some t))), w)"
  using assms by (simp add: get_task_def bindE_def retE_def raiseE_def split: option.split sum.split)

lemma require_task_run:
  assumes "w_faults w = []" and "w_connected w"
  shows "require_task tid w = ((case find_task tid (w_db w) of
       None \<Rightarrow> Inl (HTTPException 404 (''task '' @ tid @ '' not found''))
     | Some r \<Rightarrow> task_response_of r), w)"
  using assms get_task_run [OF assms(1), of tid]
  by (simp add: require_task_def thenE_step bindE_def not_found_def retE_def raiseE_def split: option.split sum.split)

text \<open>A stored task is read back with its status.\<close>

lemma task_row_read:
  assumes "db_ok (w_db w)" and "find_task tid (w_db w) = Some r"
  shows "\<exists>t. task_response_of r = Inr t \<and> task_status_of (tr_status r) = Some (rs_status t) \<and> rs_task_id t = tid"
proof -
  have "r \<in> set (db_tasks (w_db w))" "tr_id r = tid"
    using assms(2) by (auto simp: find_task_def dest: find_key_SomeD)
  then show ?thesis using assms(1)
    by (auto simp: db_ok_def tasks_ok_def task_response_of_def split: option.splits)
qed

text \<open>A status and its event, written one after the other.\<close>

lemma status_then_event:
  assumes "w_faults w = []" and "fk_ok tid (w_db w)"
  shows "\<exists>w'. thenE (update_task_status tid st) (bindE (insert_event tid k p) (\<lambda>_. retE x)) w = (Inr x, w') \<and>
    ended_as st k p tid (w_db w) (w_db w') \<and> w_faults w' = [] \<and> w_connected w' = w_connected w \<and>
    w_queue w' = w_queue w \<and> fk_ok tid (w_db w') \<and> (db_ok (w_db w) \<longrightarrow> db_ok (w_db w'))"
proof -
  let ?w1 = "snd (update_task_status tid st w)"
  let ?w2 = "snd (insert_event tid k p ?w1)"
  have w1: "w_faults ?w1 = []" "fk_ok tid (w_db ?w1)" "update_task_status tid st w = (Inr (), ?w1)"
    "w_connected ?w1 = w_connected w" "w_queue ?w1 = w_queue w" "next_event_id tid (w_db ?w1) = next_event_id tid (w_db w)"
    "db_events (w_db ?w1) = db_events (w_db w)"
    using assms by (simp_all add: update_status_run fk_ok_update_tasks)
  note ev = insert_event_run [OF w1(1,2), of k p]
  obtain y where "insert_event tid k p ?w1 = (Inr y, ?w2)" using ev(1) by (metis prod.collapse)
  then have run: "thenE (update_task_status tid st) (bindE (insert_event tid k p) (\<lambda>_. retE x)) w = (Inr x, ?w2)"
    using w1(3) by (simp add: thenE_step bindE_step retE_def)
  have tasks: "db_tasks (w_db ?w2) = db_tasks (w_db ?w1)" by (simp add: ev(2))
  have "map_option tr_status (find_task tid (w_db ?w1)) = map_option (\<lambda>_. task_status_value st) (find_task tid (w_db w))"
    using assms by (simp add: update_status_run find_updated_task)
  then have "ended_as st k p tid (w_db w) (w_db ?w2)"
    using w1 tasks unfolding ended_as_def find_task_def
    by (simp add: ev(2)) (simp add: new_event_row_def json_dumps_def)
  moreover have "fk_ok tid (w_db ?w2)" using w1(2) by (simp add: ev(2) fk_ok_def task_exists_def)
  moreover have "db_ok (w_db ?w2)" if "db_ok (w_db w)"
    using db_safeD [OF db_safe_insert_event] db_safeD [OF db_safe_update_task_status] that by blast
  ultimately show ?thesis using run ev w1 by auto
qed

lemma ended_as_log:
  "ended_as st k p tid (w_db w) (w_db w') \<Longrightarrow>
   log_view tid w' = log_view tid w @ [(next_event_id tid (w_db w), event_kind_value k, JText (JObj p))]"
  by (auto simp: ended_as_def log_view_def row_view_def events_of_def)

lemma find_task_fk_ok: "find_task tid d = Some r \<Longrightarrow> fk_ok tid d"
  by (auto simp: find_task_def fk_ok_def task_exists_def dest: find_key_SomeD)

lemma terminal_statuses_four: "st \<in> {S_completed, S_failed, S_aborted, S_timed_out} \<longleftrightarrow> st \<in> TERMINAL_STATUSES"
  by (auto simp: TERMINAL_STATUSES_def)

lemma non_terminal_iff: "st \<in> NON_TERMINAL \<longleftrightarrow> st \<notin> TERMINAL_STATUSES"
  by (cases st) (simp_all add: NON_TERMINAL_def TERMINAL_STATUSES_def)

lemma abort_task_run:
  assumes "w_faults w = []" and "w_connected w" and "find_task tid (w_db w) = Some r"
    and "task_response_of r = Inr t" and "rs_status t \<notin> TERMINAL_STATUSES"
  shows "\<exists>w'. abort_task tid w = (Inr [(''aborted'', JBool True), (''task_id'', JStr tid)], w') \<and>
    ended_as S_aborted K_task_aborted [(''reason'', JStr ''user_requested'')] tid (w_db w) (w_db w') \<and>
    w_faults w' = [] \<and> w_connected w' = w_connected w \<and> fk_ok tid (w_db w') \<and> (db_ok (w_db w) \<longrightarrow> db_ok (w_db w'))"
proof -
  have "require_task tid w = (Inr t, w)" using assms by (simp add: require_task_run)
  then show ?thesis
    using assms(5) status_then_event [OF assms(1) find_task_fk_ok [OF assms(3)], of S_aborted K_task_aborted
        "[(''reason'', JStr ''user_requested'')]" "[(''aborted'', JBool True), (''task_id'', JStr tid)]"]
    unfolding abort_task_def terminal_statuses_four by (auto simp: bindE_step)
qed

lemma remove_task_run:
  assumes "calm w" and "w_connected w" and "find_task tid (w_db w) = Some r"
    and "task_status_of (tr_status r) = Some st" and "st \<in> TERMINAL_STATUSES"
  shows "\<exists>w1. remove_task tid w = (Inr (), w1) \<and> w1 = snd (delete_task tid w) \<and> calm w1 \<and> w_connected w1 \<and>
    find_task tid (w_db w1) = None \<and> (\<not> db_foreign_keys (w_db w) \<longrightarrow> log_view tid w1 = log_view tid w)"
proof -
  have w: "w_faults w = []" "db_ok (w_db w)" using assms(1) by (simp_all add: calm_def)
  obtain t where t: "task_response_of r = Inr t" "rs_status t = st"
    using task_row_read [OF w(2) assms(3)] assms(4) by auto
  have req: "require_task tid w = (Inr t, w)" using w assms t by (simp add: require_task_run)
  define d where "d = snd (delete_task tid w)"
  have ex: "task_exists tid (w_db w)" using assms(3) by (auto simp: find_task_def task_exists_def dest: find_key_SomeD)
  have d: "delete_task tid w = (Inr True, d)" "w_faults d = []" "w_connected d"
    "db_tasks (w_db d) = filter (\<lambda>r. tr_id r \<noteq> tid) (db_tasks (w_db w))"
    "\<not> db_foreign_keys (w_db w) \<longrightarrow> db_events (w_db d) = db_events (w_db w)"
    using w(1) assms(2) ex by (simp_all add: d_def delete_task_def comp_defs update_db_def Let_def)
  have none: "find_task tid (w_db d) = None" by (simp add: find_task_def d(4) find_None_iff)
  have log: "\<not> db_foreign_keys (w_db w) \<longrightarrow> log_view tid d = log_view tid w"
    using d(5) by (simp add: log_view_def events_of_def)
  have "db_ok (w_db d)" using db_safeD [OF db_safe_delete_task, of w tid] w(2) d(1) by simp
  moreover have "remove_task tid w = (Inr (), d)"
    using req d(1) t(2) assms(5) by (simp add: remove_task_def non_terminal_iff bindE_step retE_def)
  ultimately show ?thesis using d(2,3) none log by (simp add: calm_def d_def)
qed

text \<open>Of deleting and aborting a stored task exactly one is possible: while its status is not
  terminal, deletion answers 409 and changes nothing, and aborting writes the status and the
  terminal event; once it is terminal, aborting answers 409 and changes nothing and deletion
  removes the row.\<close>

theorem delete_or_abort:
  assumes "calm w" and "w_connected w" and "find_task tid (w_db w) = Some r"
  shows "\<exists>st. task_status_of (tr_status r) = Some st \<and>
    (if st \<in> TERMINAL_STATUSES
     then (\<exists>m. abort_task tid w = (Inl (HTTPException 409 m), w)) \<and>
          fst (remove_task tid w) = Inr () \<and> find_task tid (w_db (snd (remove_task tid w))) = None
     else (\<exists>m. remove_task tid w = (Inl (HTTPException 409 m), w)) \<and>
          (\<exists>body w'. abort_task tid w = (Inr body, w') \<and>
             ended_as S_aborted K_task_aborted [(''reason'', JStr ''user_requested'')] tid (w_db w) (w_db w')))"
proof -
  have w: "db_ok (w_db w)" "w_faults w = []" using assms(1) by (simp_all add: calm_def)
  obtain t where t: "task_response_of r = Inr t" "task_status_of (tr_status r) = Some (rs_status t)"
    using task_row_read [OF w(1) assms(3)] by blast
  have req: "require_task tid w = (Inr t, w)" using assms w t by (simp add: require_task_run)
  show ?thesis
  proof (cases "rs_status t \<in> TERMINAL_STATUSES")
    case True
    obtain d where "remove_task tid w = (Inr (), d)" "find_task tid (w_db d) = None"
      using remove_task_run [OF assms t(2) True] by blast
    moreover have "\<exists>m. abort_task tid w = (Inl (HTTPException 409 m), w)"
      using req True unfolding abort_task_def terminal_statuses_four by (auto simp: bindE_step raiseE_def)
    ultimately show ?thesis using t True by auto
  next
    case False
    have "\<exists>m. remove_task tid w = (Inl (HTTPException 409 m), w)"
      using req False by (auto simp: remove_task_def non_terminal_iff bindE_step raiseE_def)
    then show ?thesis using abort_task_run [OF w(2) assms(2,3) t(1) False] t(2) False by auto
  qed
qed

text \<open>An abort does not stop the task that runs: when its executor then finishes, the aborted
  task is recorded as completed, its log holds both terminal events, the abort first, and a client
  that follows the stream sees the task aborted and the stream closed.\<close>

theorem abort_then_completion:
  assumes "calm w" and "w_connected w" and "find_task tid (w_db w) = Some r"
    and "task_status_of (tr_status r) = Some st" and "st \<notin> TERMINAL_STATUSES"
    and "abort_task tid w = (res, w1)" and "complete_task tid w1 = (done1, w2)"
  shows "isl res = False \<and> done1 = Inr () \<and>
    map_option tr_status (find_task tid (w_db w2)) = Some ''completed'' \<and>
    (\<exists>n m. log_view tid w2 = log_view tid w @
       [(n, ''task_aborted'', JText (JObj [(''reason'', JStr ''user_requested'')])), (m, ''task_completed'', JText (JObj []))])"
proof -
  have w: "db_ok (w_db w)" "w_faults w = []" using assms(1) by (simp_all add: calm_def)
  obtain t where t: "task_response_of r = Inr t" "rs_status t = st"
    using task_row_read [OF w(1) assms(3)] assms(4) by auto
  have nt: "rs_status t \<notin> TERMINAL_STATUSES" using t assms(5) by simp
  obtain w' where a: "abort_task tid w = (Inr [(''aborted'', JBool True), (''task_id'', JStr tid)], w')"
    "ended_as S_aborted K_task_aborted [(''reason'', JStr ''user_requested'')] tid (w_db w) (w_db w')"
    "w_faults w' = []" "fk_ok tid (w_db w')"
    using abort_task_run [OF w(2) assms(2,3) t(1) nt] by blast
  then have res: "res = Inr [(''aborted'', JBool True), (''task_id'', JStr tid)]" "w1 = w'" using assms(6) by simp_all
  obtain w'' where c: "complete_task tid w' = (Inr (), w'')"
    "ended_as S_completed K_task_completed [] tid (w_db w') (w_db w'')"
    using status_then_event [OF a(3,4), of S_completed K_task_completed "[]" "()"] unfolding complete_task_def by blast
  have "done1 = Inr ()" "w2 = w''" using c(1) assms(7) res(2) by simp_all
  moreover have "map_option tr_status (find_task tid (w_db w'')) = Some ''completed''"
    using a(2) c(2) assms(3) by (auto simp: ended_as_def)
  moreover have "log_view tid w'' = log_view tid w @
       [(next_event_id tid (w_db w), ''task_aborted'', JText (JObj [(''reason'', JStr ''user_requested'')])),
        (next_event_id tid (w_db w'), ''task_completed'', JText (JObj []))]"
    using ended_as_log [OF a(2)] ended_as_log [OF c(2)] by simp
  ultimately show ?thesis using res by auto
qed

section \<open>Creating a task\<close>

lemma insert_event_calm:
  assumes "calm w" and "fk_ok tid (w_db w)"
  shows "\<exists>ev w'. insert_event tid k p w = (Inr ev, w') \<and> calm w' \<and> fk_ok tid (w_db w') \<and>
    w_connected w' = w_connected w \<and> w_queue w' = w_queue w \<and> db_tasks (w_db w') = db_tasks (w_db w) \<and>
    log_view tid w' = log_view tid w @ [(int (Suc (length (log_view tid w))), event_kind_value k, JText (JObj p))]"
proof -
  have w: "w_faults w = []" "db_ok (w_db w)" using assms(1) by (simp_all add: calm_def)
  note ev = insert_event_run [OF w(1) assms(2), of k p]
  have "next_event_id tid (w_db w) = int (Suc (length (log_view tid w)))"
    using w(2) next_event_id_numbered [of "w_db w" tid] by (simp add: db_ok_def log_view_def)
  moreover have "db_ok (w_db (snd (insert_event tid k p w)))" using db_safeD [OF db_safe_insert_event] w(2) by blast
  ultimately show ?thesis
    using ev assms(2)
    by (intro exI [of _ "ev_of_row (w_clock w) (new_event_row tid k p (w_clock w) (w_db w))"]
        exI [of _ "snd (insert_event tid k p w)"])
      (auto simp: calm_def log_view_def events_of_def row_view_def new_event_row_def json_dumps_def
        fk_ok_def task_exists_def prod_eq_iff)
qed

lemma insert_task_calm:
  assumes "calm w" and "find_task (rq_task_id rq) (w_db w) = None"
  shows "\<exists>resp w'. insert_task rq st w = (Inr resp, w') \<and> rs_task_id resp = rq_task_id rq \<and> rs_status resp = st \<and>
    calm w' \<and> w_connected w' = w_connected w \<and> w_queue w' = w_queue w \<and>
    db_foreign_keys (w_db w') = db_foreign_keys (w_db w) \<and> log_view t w' = log_view t w \<and>
    map_option tr_status (find_task (rq_task_id rq) (w_db w')) = Some (task_status_value st)"
proof -
  have w: "w_faults w = []" "db_ok (w_db w)" using assms(1) by (simp_all add: calm_def)
  have fresh: "rq_task_id rq \<notin> tr_id ` set (db_tasks (w_db w))"
    using assms(2) by (auto simp: find_task_def find_None_iff)
  have "db_ok (w_db (snd (insert_task rq st w)))" using db_safeD [OF db_safe_insert_task] w(2) by blast
  then show ?thesis
    using w fresh assms(2)
    by (auto simp: insert_task_def comp_defs update_db_def task_exists_def calm_def log_view_def events_of_def
        find_task_def find_append)
qed

lemma create_task_run:
  assumes "calm w" and "w_connected w" and "find_task (rq_task_id rq) (w_db w) = None"
  shows "\<exists>resp w'. create_task rq w = (Inr resp, w') \<and> rs_task_id resp = rq_task_id rq \<and>
    rs_status resp = S_pending \<and> calm w' \<and> w_connected w' \<and> w_queue w' = w_queue w @ [rq_task_id rq] \<and>
    map_option tr_status (find_task (rq_task_id rq) (w_db w')) = Some ''queued'' \<and>
    log_view (rq_task_id rq) w' = log_view (rq_task_id rq) w @
      [(int (length (log_view (rq_task_id rq) w)) + 1, ''task_created'', JText (JObj [])),
       (int (length (log_view (rq_task_id rq) w)) + 2, ''task_queued'', JText (JObj []))]"
proof -
  let ?t = "rq_task_id rq"
  have w: "w_faults w = []" using assms(1) by (simp add: calm_def)
  obtain resp a where a: "insert_task rq S_pending w = (Inr resp, a)" "rs_task_id resp = ?t" "rs_status resp = S_pending"
    "calm a" "w_connected a = w_connected w" "w_queue a = w_queue w" "log_view ?t a = log_view ?t w"
    "map_option tr_status (find_task ?t (w_db a)) = Some ''pending''"
    using insert_task_calm [OF assms(1,3), of S_pending ?t] by auto
  then have fk: "fk_ok ?t (w_db a)" by (auto intro: find_task_fk_ok)
  obtain ev b where b: "insert_event ?t K_task_created [] a = (Inr ev, b)" "calm b" "fk_ok ?t (w_db b)"
    "w_connected b = w_connected w" "w_queue b = w_queue w" "db_tasks (w_db b) = db_tasks (w_db a)"
    "log_view ?t b = log_view ?t w @ [(int (length (log_view ?t w)) + 1, ''task_created'', JText (JObj []))]"
    using insert_event_calm [OF a(4) fk, of K_task_created "[]"] a by (auto simp: add.commute)
  have bf: "w_faults b = []" "db_ok (w_db b)" using b(2) by (simp_all add: calm_def)
  obtain c where c: "thenE (update_task_status ?t S_queued) (bindE (insert_event ?t K_task_queued []) (\<lambda>_. retE ())) b = (Inr (), c)"
    "ended_as S_queued K_task_queued [] ?t (w_db b) (w_db c)" "w_faults c = []" "w_queue c = w_queue b" "db_ok (w_db c)" "w_connected c = w_connected b"
    using status_then_event [OF bf(1) b(3), of S_queued K_task_queued "[]" "()"] bf(2) by blast
  obtain u ev2 where u: "update_task_status ?t S_queued b = (Inr (), u)" "insert_event ?t K_task_queued [] u = (Inr ev2, c)"
    using c(1) by (auto simp: thenE_def bindE_def retE_def split: prod.splits sum.splits)
  let ?d = "c\<lparr>w_queue := w_queue c @ [?t]\<rparr>"
  have "enqueue_task ?t b = (Inr (), ?d)"
    using b(4) assms(2) u by (simp add: enqueue_task_def thenE_step bindE_step queue_put_def modifyE_def)
  then have run: "create_task rq w = (Inr resp, ?d)"
    using assms(2,3) get_task_run [OF w, of ?t] a b(1)
    by (simp add: create_task_def thenE_step bindE_step retE_def)
  have "next_event_id ?t (w_db b) = int (length (log_view ?t w)) + 2"
    using bf(2) next_event_id_numbered [of "w_db b" ?t] arg_cong [OF b(7), of length]
    by (simp add: db_ok_def log_view_def)
  then have "log_view ?t ?d = log_view ?t w @
      [(int (length (log_view ?t w)) + 1, ''task_created'', JText (JObj [])),
       (int (length (log_view ?t w)) + 2, ''task_queued'', JText (JObj []))]"
    using ended_as_log [OF c(2)] b(7) by (simp add: log_view_def)
  moreover have "map_option tr_status (find_task ?t (w_db ?d)) = Some ''queued''"
    using c(2) b(6) a(8) by (auto simp: ended_as_def find_task_def)
  ultimately show ?thesis using run a b c assms(2) by (auto simp: calm_def)
qed

text \<open>C19: Submitting a task whose id is stored answers 409 and changes nothing; a new id is stored
  with status queued and its two first events, put at the end of the queue exactly once, and
  answered with the snapshot taken before it was queued (status pending).\<close>

theorem create_task_is_idempotent:
  assumes "calm w" and "w_connected w"
  shows "(if find_task (rq_task_id rq) (w_db w) \<noteq> None then \<exists>m. create_task rq w = (Inl (HTTPException 409 m), w)
    else \<exists>resp w'. create_task rq w = (Inr resp, w') \<and> rs_status resp = S_pending \<and>
      w_queue w' = w_queue w @ [rq_task_id rq] \<and>
      map_option tr_status (find_task (rq_task_id rq) (w_db w')) = Some ''queued'' \<and>
      map (fst \<circ> snd) (log_view (rq_task_id rq) w') =
        map (fst \<circ> snd) (log_view (rq_task_id rq) w) @ [''task_created'', ''task_queued''] \<and>
      (\<exists>m. create_task rq w' = (Inl (HTTPException 409 m), w')))"
proof -
  have stored: "\<exists>m. create_task rq v = (Inl (HTTPException 409 m), v)"
    if v: "calm v" "w_connected v" "find_task (rq_task_id rq) (w_db v) = Some r" for v r
  proof -
    have f: "w_faults v = []" using v(1) by (simp add: calm_def)
    have "db_ok (w_db v)" using v(1) by (simp add: calm_def)
    then obtain t where "task_response_of r = Inr t" using task_row_read [of v] v(3) by blast
    then show ?thesis
      using v get_task_run [OF f, of "rq_task_id rq"] by (simp add: create_task_def thenE_step bindE_step raiseE_def)
  qed
  show ?thesis
  proof (cases "find_task (rq_task_id rq) (w_db w)")
    case (Some r)
    then show ?thesis using stored [OF assms] by simp
  next
    case None
    obtain resp w' where new: "create_task rq w = (Inr resp, w')" "rs_status resp = S_pending" "calm w'" "w_connected w'"
      "w_queue w' = w_queue w @ [rq_task_id rq]"
      "map_option tr_status (find_task (rq_task_id rq) (w_db w')) = Some ''queued''"
      "map (fst \<circ> snd) (log_view (rq_task_id rq) w') =
        map (fst \<circ> snd) (log_view (rq_task_id rq) w) @ [''task_created'', ''task_queued'']"
      using create_task_run [OF assms None] by fastforce
    then obtain r where "find_task (rq_task_id rq) (w_db w') = Some r" by auto
    then show ?thesis using None new stored [of w' r] by auto
  qed
qed

text \<open>A task id that is deleted and submitted again inherits the log of the deleted task,
  because the deletion does not cascade: a client that opens the stream of the new task receives
  the old events up to the old terminal one, and the server closes the stream although the new
  task has only been queued.\<close>

theorem recreated_task_streams_the_old_log:
  assumes "calm w" and "w_connected w" and "\<not> db_foreign_keys (w_db w)" and "rq_task_id rq = tid"
    and "\<exists>v \<in> set (log_view tid w). terminal_view v"
    and "remove_task tid w = (Inr (), w1)" and "create_task rq w1 = (Inr resp, w2)"
    and "event_generator tid S_queued (int 0) hb [] env0 d waits w2 = (items, e, w3)"
  shows "map ev_view (item_events items) = take_until terminal_view (log_view tid w) \<and> e = E_closed"
proof -
  have f: "w_faults w = []" "db_ok (w_db w)" using assms(1) by (simp_all add: calm_def)
  obtain r t where r: "find_task tid (w_db w) = Some r" "task_response_of r = Inr t" "require_task tid w = (Inr t, w)"
    using assms(6) require_task_run [OF f(1) assms(2), of tid]
    by (auto simp: remove_task_def bindE_def split: option.splits sum.splits)
  have st: "task_status_of (tr_status r) = Some (rs_status t)" using task_row_read [OF f(2) r(1)] r(2) by auto
  have "rs_status t \<in> TERMINAL_STATUSES"
    using assms(6) r(3) by (auto simp: remove_task_def bindE_step raiseE_def non_terminal_iff split: if_splits)
  then have w1: "calm w1" "w_connected w1" "find_task tid (w_db w1) = None" "log_view tid w1 = log_view tid w"
    using remove_task_run [OF assms(1,2) r(1) st] assms(3,6) by auto
  obtain ys where log: "log_view tid w2 = log_view tid w @ ys" and calm: "calm w2"
    using create_task_run [of w1 rq] w1 assms(4,7) by auto
  obtain bus b1 sub b2 where b: "get_bus tid (w_buses w2) = (bus, b1)" "subscribe bus b1 = (sub, b2)"
    by (meson prod.exhaust)
  let ?v = "w2\<lparr>w_buses := b2\<rparr>"
  obtain evs where evs: "get_events_after tid (int 0) ?v = (Inr evs, ?v)" "map ev_view evs = log_view tid w2"
    using fetch_calm [of ?v tid 0] calm by auto
  obtain its c x where rep: "replay evs [] (int 0) = (its, c, x)" by (cases "replay evs [] (int 0)") auto
  have "x \<noteq> E_disconnected" using rep replay_no_answers by blast
  note rc = replay_connected [OF rep this]
  have "\<exists>ev \<in> set evs. terminal_event ev"
    using assms(5) log evs(2) by (metis UnI1 image_iff list.set_map set_append terminal_view_ev)
  then have x: "x = E_closed" using rc by simp
  then have "items = its" "e = E_closed" using assms(8) evs(1) rep by (auto simp: event_generator_def b)
  moreover have "map ev_view (item_events its) = take_until terminal_view (log_view tid w)"
    using rc evs(2) log assms(5) by (simp add: take_until_views take_until_append)
  ultimately show ?thesis by simp
qed

section \<open>Decisions and artifacts\<close>

text \<open>The decision endpoint does not check that the decision belongs to the task of its path:
  a response sent through any stored task \<open>tid\<close> resolves a pending decision of another task
  \<open>owner\<close>, whose waiting driver then finds the response, while \<open>decision_received\<close> is logged for
  \<open>tid\<close> and the owner's log does not change. Any choice is accepted, offered or not.\<close>

theorem decision_accepted_through_any_task:
  assumes "calm w" and "w_connected w" and "find_task tid (w_db w) = Some r"
    and "d \<in> set (db_decisions (w_db w))" and "is_pending (dp_decision_id resp) d" and "dr_task_id d = owner"
    and "dp_idempotency_key resp = None" and "owner \<noteq> tid"
  shows "\<exists>body w'. submit_decision tid resp w = (Inr body, w') \<and>
    (\<exists>p. fst (get_resolved_decision (dp_decision_id resp) w') = Inr (Some p) \<and>
       pd_task_id p = owner \<and> pd_response p = Some resp) \<and>
    log_view owner w' = log_view owner w \<and>
    map (fst \<circ> snd) (log_view tid w') = map (fst \<circ> snd) (log_view tid w) @ [''decision_received'']"
proof -
  have w: "w_faults w = []" "db_ok (w_db w)" using assms(1) by (simp_all add: calm_def)
  obtain t where "task_response_of r = Inr t" using task_row_read [OF w(2) assms(3)] by blast
  then have req: "require_task tid w = (Inr t, w)" using w assms by (simp add: require_task_run)
  obtain u where u: "resolve_decision (dp_decision_id resp) resp w = (Inr True, w\<lparr>w_db := (w_db w)\<lparr>db_decisions := u\<rparr>\<rparr>)"
    "find (\<lambda>s. dr_id s = dp_decision_id resp \<and> dr_status s = ''resolved'') u = Some (resolve_row resp (w_clock w) d)"
    using resolve_decision_effect [OF w(2,1) assms(4,5,7)] by blast
  let ?w1 = "w\<lparr>w_db := (w_db w)\<lparr>db_decisions := u\<rparr>\<rparr>"
  let ?p = "[(''decision_id'', JStr (dp_decision_id resp)), (''choice'', JStr (decision_choice_value (dp_choice resp)))]"
  have calm1: "calm ?w1"
    using db_safeD [OF db_safe_resolve_decision, of w "dp_decision_id resp" resp] w u(1) by (simp add: calm_def)
  have fk: "fk_ok tid (w_db ?w1)" using find_task_fk_ok [OF assms(3)] by (simp add: fk_ok_def task_exists_def)
  have same: "log_view tid ?w1 = log_view tid w" by (simp add: log_view_def events_of_def)
  obtain ev w' where ev: "insert_event tid K_decision_received ?p ?w1 = (Inr ev, w')" "calm w'"
    "log_view tid w' = log_view tid w @ [(int (Suc (length (log_view tid w))), ''decision_received'', JText (JObj ?p))]"
    using insert_event_calm [OF calm1 fk, of K_decision_received ?p] unfolding same event_kind_value.simps by blast
  have "w_db w' = (w_db ?w1)\<lparr>db_events := db_events (w_db w) @
      [new_event_row tid K_decision_received ?p (w_clock w) (w_db ?w1)]\<rparr>"
    using insert_event_run(2) [of ?w1 tid K_decision_received ?p] fk w(1) ev(1) by simp
  then have "log_view owner w' = log_view owner w" "db_decisions (w_db w') = u"
    using assms(8) by (simp_all add: log_view_def events_of_def new_event_row_def)
  moreover have "w_faults w' = []" using ev(2) by (simp add: calm_def)
  ultimately show ?thesis
    using req u ev(1,3) assms(6)
    by (simp add: submit_decision_def bindE_step retE_def get_resolved_decision_def pending_decision_of_def resolve_row_def)
qed


section \<open>Witnesses\<close>

lemma calm_ex_world: "calm ex_world"
  by (simp add: calm_def ex_world_db_ok)

lemma ex_world_fk [simp]: "\<not> db_foreign_keys (w_db ex_world)"
  by (simp add: ex_world_def)

lemma ex_task_status [simp]: "task_status_of ''executing'' = Some S_executing"
  by (simp add: task_status_of_def enum_of_def all_task_status_def)

lemma authentication_gate_witness:
  "dispatch (default_settings ''s3'') ''/tasks/t1'' ''Bearer  s3'' (\<lambda>_. True) = Passed True"
proof -
  have "str_lower ''Bearer  s3'' = ''bearer  s3''" "str_strip '' s3'' = ''s3''" by code_simp+
  then show ?thesis
    using authentication_gate [of "''/tasks/t1''" "default_settings ''s3''" "''Bearer  s3''" "\<lambda>_. True"]
    by (simp add: starts_with_def default_settings_def)
qed

lemma delete_or_abort_witness:
  "(\<exists>m. remove_task ''t1'' ex_world = (Inl (HTTPException 409 m), ex_world)) \<and>
   isl (fst (abort_task ''t1'' ex_world)) = False"
  using delete_or_abort [of ex_world "''t1''" ex_task_row] calm_ex_world
  by (auto simp: ex_task_row_def TERMINAL_STATUSES_def)

lemma abort_then_completion_witness:
  "map_option tr_status (find_task ''t1'' (w_db (snd (complete_task ''t1'' (snd (abort_task ''t1'' ex_world))))))
    = Some ''completed''"
proof -
  obtain res w1 where a: "abort_task ''t1'' ex_world = (res, w1)" by (metis prod.exhaust)
  obtain res2 w2 where c: "complete_task ''t1'' w1 = (res2, w2)" by (metis prod.exhaust)
  show ?thesis
    using abort_then_completion [OF calm_ex_world _ _ _ _ a c, of ex_task_row S_executing] a c
    by (simp add: ex_task_row_def TERMINAL_STATUSES_def)
qed

lemma create_task_witness:
  "\<exists>resp w'. create_task (minimal_request ''t2'' M_direct_execute []) ex_world = (Inr resp, w') \<and>
     w_queue w' = [''t2'']"
  using create_task_is_idempotent [OF calm_ex_world, of "minimal_request ''t2'' M_direct_execute []"]
  by (auto simp: minimal_request_def ex_world_def init_world_def find_task_def ex_task_row_def)

definition ended_world :: world where
  "ended_world = ex_world\<lparr>w_db := (w_db ex_world)\<lparr>db_tasks := [ex_task_row\<lparr>tr_status := ''aborted''\<rparr>],
     db_events := [ex_event_row, ex_event_row\<lparr>er_event_id := 2, er_kind := ''task_aborted''\<rparr>]\<rparr>\<rparr>"

lemma ended_world_facts:
  "calm ended_world" "w_connected ended_world" "\<not> db_foreign_keys (w_db ended_world)"
  "\<exists>v \<in> set (log_view ''t1'' ended_world). terminal_view v"
  "find_task ''t1'' (w_db ended_world) = Some (ex_task_row\<lparr>tr_status := ''aborted''\<rparr>)"
  "task_status_of ''aborted'' = Some S_aborted"
proof -
  show st: "task_status_of ''aborted'' = Some S_aborted"
    by (simp add: task_status_of_def enum_of_def all_task_status_def)
  have kind: "event_kind_of ''task_aborted'' = Some K_task_aborted"
    by (simp add: event_kind_of_def enum_of_def all_event_kinds_def)
  show "w_connected ended_world" "\<not> db_foreign_keys (w_db ended_world)"
    "find_task ''t1'' (w_db ended_world) = Some (ex_task_row\<lparr>tr_status := ''aborted''\<rparr>)"
    by (simp_all add: ended_world_def find_task_def ex_task_row_def)
  show "\<exists>v \<in> set (log_view ''t1'' ended_world). terminal_view v"
    by (simp add: ended_world_def log_view_def events_of_def row_view_def ex_event_row_def terminal_view_def TERMINAL_EVENT_KINDS_def)
  have "numbered (filter (\<lambda>r. er_task_id r = tid) [ex_event_row, ex_event_row\<lparr>er_event_id := 2, er_kind := ''task_aborted''\<rparr>])" for tid
    by (simp add: numbered_def ex_event_row_def)
  moreover have "event_row_ok (ex_event_row\<lparr>er_event_id := 2, er_kind := ''task_aborted''\<rparr>)"
    using kind by (simp add: event_row_ok_def ex_event_row_def)
  ultimately have "db_ok (w_db ended_world)"
    using ex_world_db_ok st
    by (auto simp: ended_world_def db_ok_def tasks_ok_def events_ok_def events_of_def decisions_ok_def artifacts_ok_def
        refs_ok_def ex_world_def ex_task_row_def)
  then show "calm ended_world" by (simp add: calm_def ended_world_def)
qed

lemma recreated_task_witness:
  "\<exists>w1 resp w2 items w3.
     create_task (minimal_request ''t1'' M_direct_execute []) w1 = (Inr resp, w2) \<and> rs_status resp = S_pending \<and>
     event_generator ''t1'' S_queued (int 0) 15 [] id False [] w2 = (items, E_closed, w3)"
proof -
  obtain w1 where w1: "remove_task ''t1'' ended_world = (Inr (), w1)" "calm w1" "w_connected w1"
    "find_task ''t1'' (w_db w1) = None"
    using remove_task_run [OF ended_world_facts(1,2,5), of S_aborted] ended_world_facts(6)
    by (auto simp: TERMINAL_STATUSES_def)
  have id: "rq_task_id (minimal_request ''t1'' M_direct_execute []) = ''t1''" by (simp add: minimal_request_def)
  obtain resp w2 where new: "create_task (minimal_request ''t1'' M_direct_execute []) w1 = (Inr resp, w2)" "rs_status resp = S_pending"
    using create_task_run [OF w1(2,3), of "minimal_request ''t1'' M_direct_execute []"] w1(4) by (auto simp: id)
  obtain items e w3 where g: "event_generator ''t1'' S_queued (int 0) 15 [] id False [] w2 = (items, e, w3)"
    by (metis prod.exhaust)
  have "e = E_closed"
    using recreated_task_streams_the_old_log [OF ended_world_facts(1-3) id ended_world_facts(4) w1(1) new(1) g] by simp
  then show ?thesis using new g by blast
qed

lemma decision_through_any_task_witness:
  "\<exists>body w'. submit_decision ''t2'' (ex_response C_revise)
      (ex_world\<lparr>w_db := (w_db ex_world)\<lparr>db_tasks := [ex_task_row, ex_task_row\<lparr>tr_id := ''t2''\<rparr>]\<rparr>\<rparr>) = (Inr body, w') \<and>
    (\<exists>p. fst (get_resolved_decision ''d1'' w') = Inr (Some p) \<and> pd_task_id p = ''t1'')"
proof -
  let ?w = "ex_world\<lparr>w_db := (w_db ex_world)\<lparr>db_tasks := [ex_task_row, ex_task_row\<lparr>tr_id := ''t2''\<rparr>]\<rparr>\<rparr>"
  have "db_ok (w_db ?w)" using ex_world_db_ok
    by (auto simp: db_ok_def tasks_ok_def events_ok_def events_of_def decisions_ok_def artifacts_ok_def refs_ok_def
        ex_world_def ex_task_row_def)
  then have "calm ?w" by (simp add: calm_def)
  then show ?thesis
    using decision_accepted_through_any_task [of ?w "''t2''" "ex_task_row\<lparr>tr_id := ''t2''\<rparr>" ex_decision_row
        "ex_response C_revise" "''t1''"]
    by (auto simp: ex_world_def init_world_def find_task_def ex_task_row_def is_pending_def ex_decision_row_def ex_response_def)
qed

definition ex_file_world :: world where
  "ex_file_world = ex_world\<lparr>w_db := (w_db ex_world)\<lparr>db_artifacts := [ex_artifact ''a1'' ''/d/artifacts/t1/x'',
     ex_artifact ''a2'' ''/etc/passwd'']\<rparr>,
     w_files := [([''d'', ''artifacts'', ''t1'', ''x''], JNull), ([''etc'', ''passwd''], JNull)]\<rparr>"


end
