(* ===== verification/Sandbox.thy ===== *)
theory Sandbox
  imports Repo_Laws
begin

text \<open>
  The sandbox manager \<open>src/worker/sandbox/manager.py\<close>: the specification of a task's container
  and the arguments it gives to \<open>docker run\<close>, memory limits, stopping, removing and reaping
  containers, the worker network, and the health probe. The Docker SDK and the HTTP client are
  not part of the repository: they are the fields of \<open>docker_api\<close> and the argument \<open>probe\<close>,
  arbitrary computations.
\<close>

section \<open>Docker\<close>

record container =
  ct_id :: string
  ct_labels :: "(string \<times> string) list"

record run_args =
  ra_image :: string
  ra_name :: string
  ra_detach :: bool
  ra_labels :: "(string \<times> string) list"
  ra_environment :: "(string \<times> env_value) list"
  ra_volumes :: "(string \<times> string \<times> string) list"
  ra_tmpfs :: "(string \<times> string) list"
  ra_read_only :: bool
  ra_user :: string
  ra_cap_drop :: "string list"
  ra_security_opt :: "string list"
  ra_pids_limit :: int
  ra_mem_limit :: int
  ra_nano_cpus :: int
  ra_network :: "string option"
  ra_extra_hosts :: "(string \<times> string) list"
  ra_restart :: string
  ra_ports :: "(string \<times> string \<times> int) list"

record docker_api =
  dk_list :: "string list \<Rightarrow> string list \<Rightarrow> container list io"
  dk_run :: "run_args \<Rightarrow> container io"
  dk_stop :: "container \<Rightarrow> int \<Rightarrow> unit io"
  dk_remove :: "container \<Rightarrow> bool \<Rightarrow> unit io"
  dk_network_get :: "string \<Rightarrow> bool io"
  dk_network_remove :: "string \<Rightarrow> unit io"
  dk_network_create :: "string \<Rightarrow> bool \<Rightarrow> unit io"
  dk_resolve :: "string \<Rightarrow> string"

text \<open>\<open>docker.errors.NotFound\<close> is an \<open>APIError\<close>.\<close>

fun is_api_error :: "exn \<Rightarrow> bool" where
  "is_api_error (OtherError c _) = (c = ''APIError'' \<or> c = ''NotFound'')"
| "is_api_error _ = False"

fun is_not_found :: "exn \<Rightarrow> bool" where
  "is_not_found (OtherError c _) = (c = ''NotFound'')"
| "is_not_found _ = False"

definition WORKER_LABEL :: string where "WORKER_LABEL = ''worker.managed''"
definition TASK_ID_LABEL :: string where "TASK_ID_LABEL = ''worker.task_id''"
definition OPENCODE_CONTAINER_PORT :: int where "OPENCODE_CONTAINER_PORT = 4096"
definition WORKSPACE_MOUNT_TARGET :: string where "WORKSPACE_MOUNT_TARGET = ''/workspace''"
definition HEALTH_CHECK_INTERVAL :: real where "HEALTH_CHECK_INTERVAL = 2"
definition HEALTH_CHECK_MAX_RETRIES :: nat where "HEALTH_CHECK_MAX_RETRIES = 30"

text \<open>The client of the process is made at its first use; \<open>from_env\<close> is \<open>docker.from_env()\<close>.\<close>

definition get_docker_client :: "(exn + 'c) \<Rightarrow> 'c option \<Rightarrow> (exn + 'c) \<times> 'c option" where
  "get_docker_client from_env client =
     (case client of
        Some c \<Rightarrow> (Inr c, client)
      | None \<Rightarrow> (case from_env of Inl e \<Rightarrow> (Inl e, None) | Inr c \<Rightarrow> (Inr c, Some c)))"

text \<open>\<open>close\<close> may raise: an ordinary exception is dropped with the client, another leaves the client.\<close>

definition close_docker_client :: "('c \<Rightarrow> exn option) \<Rightarrow> 'c option \<Rightarrow> exn option \<times> 'c option" where
  "close_docker_client close client =
     (case client of
        None \<Rightarrow> (None, None)
      | Some c \<Rightarrow> (case close c of Some e \<Rightarrow> if is_Exception e then (None, None) else (Some e, client) | None \<Rightarrow> (None, None)))"

lemma docker_client_is_kept:
  "get_docker_client from_env client = (Inr c, client') \<Longrightarrow> get_docker_client again client' = (Inr c, client')"
  by (auto simp: get_docker_client_def split: option.splits sum.splits)

section \<open>Container specification\<close>

record container_spec =
  cs_task_id :: string
  cs_image :: string
  cs_workspace_dir :: string
  cs_env :: "(string \<times> env_value) list"
  cs_port_host :: int
  cs_cpu_limit :: string
  cs_memory_limit :: string
  cs_pids_limit :: int
  cs_network_name :: "string option"
  cs_broker_host :: "string option"
  cs_broker_port :: "int option"
  cs_timeout_sec :: int
  cs_user :: string
  cs_read_only :: bool

definition int_of_float_text :: "string \<Rightarrow> real \<Rightarrow> exn + int" where
  "int_of_float_text s mult =
     (case py_float s of
        Some r \<Rightarrow> Inr (py_trunc (r * mult))
      | None \<Rightarrow>
          if str_lower (str_strip s) \<in> {''inf'', ''+inf'', ''-inf'', ''infinity'', ''+infinity'', ''-infinity''}
          then Inl (OtherError ''OverflowError'' ''cannot convert float infinity to integer'')
          else Inl (ValueError ''could not convert string to float''))"

definition ends_with_any :: "string list \<Rightarrow> string \<Rightarrow> bool" where
  "ends_with_any sufs s \<longleftrightarrow> list_ex (\<lambda>x. ends_with x s) sufs"

definition but_last :: "nat \<Rightarrow> string \<Rightarrow> string" where
  "but_last n s = take (length s - n) s"

definition parse_memory :: "string \<Rightarrow> exn + int" where
  "parse_memory raw =
     (let v = str_strip raw in
      if ends_with_any [''GiB'', ''GIB''] v then int_of_float_text (but_last 3 v) (1024 ^ 3)
      else if ends_with_any [''MiB'', ''MIB''] v then int_of_float_text (but_last 3 v) (1024 ^ 2)
      else if ends_with_any [''KiB'', ''KIB''] v then int_of_float_text (but_last 3 v) 1024
      else if ends_with_any [''Gi'', ''GI''] v then int_of_float_text (but_last 2 v) (1024 ^ 3)
      else if ends_with_any [''Mi'', ''MI''] v then int_of_float_text (but_last 2 v) (1024 ^ 2)
      else if ends_with_any [''Ki'', ''KI''] v then int_of_float_text (but_last 2 v) 1024
      else if ends_with_any [''g'', ''G''] v then int_of_float_text (but_last 1 v) (1024 ^ 3)
      else if ends_with_any [''m'', ''M''] v then int_of_float_text (but_last 1 v) (1024 ^ 2)
      else if ends_with_any [''k'', ''K''] v then int_of_float_text (but_last 1 v) 1024
      else (case py_int v of Some n \<Rightarrow> Inr n
            | None \<Rightarrow> Inl (ValueError ''invalid literal for int() with base 10'')))"

definition task_labels :: "string \<Rightarrow> (string \<times> string) list" where
  "task_labels tid = [(WORKER_LABEL, ''true''), (TASK_ID_LABEL, tid)]"

definition run_args_of :: "docker_api \<Rightarrow> container_spec \<Rightarrow> exn + run_args" where
  "run_args_of dk spec =
     (case parse_memory (cs_memory_limit spec) of
        Inl e \<Rightarrow> Inl e
      | Inr mem \<Rightarrow>
          (case int_of_float_text (cs_cpu_limit spec) 1000000000 of
             Inl e \<Rightarrow> Inl e
           | Inr cpus \<Rightarrow> Inr
               \<lparr>ra_image = cs_image spec, ra_name = ''worker-task-'' @ take 12 (cs_task_id spec),
                ra_detach = True, ra_labels = task_labels (cs_task_id spec),
                ra_environment = cs_env spec,
                ra_volumes = [(dk_resolve dk (cs_workspace_dir spec), WORKSPACE_MOUNT_TARGET, ''rw'')],
                ra_tmpfs = [(''/tmp'', ''rw,noexec,nosuid,size=256m'')],
                ra_read_only = cs_read_only spec, ra_user = cs_user spec, ra_cap_drop = [''ALL''],
                ra_security_opt = [''no-new-privileges:true''], ra_pids_limit = cs_pids_limit spec,
                ra_mem_limit = mem, ra_nano_cpus = cpus, ra_network = cs_network_name spec,
                ra_extra_hosts = (case cs_broker_host spec of
                                    None \<Rightarrow> [] | Some h \<Rightarrow> if h = [] then [] else [(''broker'', h)]),
                ra_restart = ''no'',
                ra_ports = [(show_int OPENCODE_CONTAINER_PORT @ ''/tcp'', ''127.0.0.1'', cs_port_host spec)]\<rparr>))"

definition start_container :: "docker_api \<Rightarrow> container_spec \<Rightarrow> container io" where
  "start_container dk spec =
     bindE time_now (\<lambda>t0.
     bindE (liftE (run_args_of dk spec)) (\<lambda>args.
     bindE (dk_run dk args) (\<lambda>c.
     bindE time_now (\<lambda>t.
     thenE (metric (observe_container_start ((t - t0) * 1000))) (retE c)))))"

definition label_filter :: "string \<Rightarrow> string" where
  "label_filter tid = TASK_ID_LABEL @ ''='' @ tid"

definition catch_api_error :: "unit io \<Rightarrow> unit io" where
  "catch_api_error m = tryE m (\<lambda>e. if is_api_error e then retE () else raiseE e)"

definition stop_container :: "docker_api \<Rightarrow> string \<Rightarrow> int \<Rightarrow> unit io" where
  "stop_container dk tid timeout =
     bindE (dk_list dk [label_filter tid] []) (\<lambda>cs. forE cs (\<lambda>c. catch_api_error (dk_stop dk c timeout)))"

definition remove_container :: "docker_api \<Rightarrow> string \<Rightarrow> bool \<Rightarrow> unit io" where
  "remove_container dk tid force =
     bindE (dk_list dk [label_filter tid] []) (\<lambda>cs. forE cs (\<lambda>c. catch_api_error (dk_remove dk c force)))"

definition get_container :: "docker_api \<Rightarrow> string \<Rightarrow> container option io" where
  "get_container dk tid =
     bindE (dk_list dk [label_filter tid] []) (\<lambda>cs. retE (case cs of [] \<Rightarrow> None | c # _ \<Rightarrow> Some c))"

text \<open>\<open>dk_network_get\<close> returns the network's \<open>Internal\<close> attribute or raises \<open>NotFound\<close>.\<close>

definition ensure_worker_network :: "docker_api \<Rightarrow> string \<Rightarrow> unit io" where
  "ensure_worker_network dk name =
     tryE (bindE (dk_network_get dk name) (\<lambda>internal.
             whenE internal (thenE (dk_network_remove dk name) (raiseE (OtherError ''NotFound'' name)))))
       (\<lambda>e. if is_not_found e then dk_network_create dk name False else raiseE e)"

section \<open>The reaper\<close>

definition container_task_id :: "container \<Rightarrow> string" where
  "container_task_id c = (case map_of (ct_labels c) TASK_ID_LABEL of None \<Rightarrow> ''unknown'' | Some t \<Rightarrow> t)"

fun reap_each :: "docker_api \<Rightarrow> container list \<Rightarrow> string list io" where
  "reap_each dk [] = retE []"
| "reap_each dk (c # cs) =
     bindE (tryE (thenE (dk_remove dk c False) (retE [container_task_id c]))
              (\<lambda>e. if is_api_error e then retE [] else raiseE e)) (\<lambda>here.
     bindE (reap_each dk cs) (\<lambda>rest. retE (here @ rest)))"

definition reap_orphaned_containers :: "docker_api \<Rightarrow> string list io" where
  "reap_orphaned_containers dk =
     bindE (dk_list dk [WORKER_LABEL @ ''=true''] [''exited'', ''dead'']) (reap_each dk)"

section \<open>The health probe\<close>

text \<open>One attempt: the HTTP status and the truth of \<open>healthy\<close>, or an exception.\<close>

fun is_probe_retry :: "exn \<Rightarrow> bool" where
  "is_probe_retry (OtherError c _) = (c \<in> {''ConnectError'', ''TimeoutException'', ''RemoteProtocolError''})"
| "is_probe_retry _ = False"

definition probe_once :: "(nat \<times> bool) io \<Rightarrow> bool io" where
  "probe_once probe =
     tryE (bindE probe (\<lambda>(code, healthy). retE (code = 200 \<and> healthy)))
       (\<lambda>e. if is_probe_retry e then retE False else raiseE e)"

fun wait_for_health :: "(nat \<times> bool) io \<Rightarrow> nat \<Rightarrow> real \<Rightarrow> unit io" where
  "wait_for_health probe 0 interval = raiseE (RuntimeError ''opencode did not become healthy'')"
| "wait_for_health probe (Suc n) interval =
     bindE (probe_once probe) (\<lambda>ok.
     if ok then retE () else thenE (sleep interval) (wait_for_health probe n interval))"

section \<open>Memory limits\<close>

lemma str_split1_none:
  assumes "c \<notin> set s"
  shows "str_split1 c s = (s, [])"
proof -
  have a: "takeWhile (\<lambda>x. x \<noteq> c) s = s" and b: "dropWhile (\<lambda>x. x \<noteq> c) s = []"
    using assms by (auto simp: takeWhile_eq_all_conv dropWhile_eq_Nil_conv)
  show ?thesis by (simp only: str_split1_def a b drop_Nil)
qed

lemma show_nat_char: "c \<in> set (show_nat n) \<Longrightarrow> is_digit c"
  using show_nat_digits by blast

lemma lower_digit: "is_digit c \<Longrightarrow> lower_char c = c"
  by (simp add: lower_char_def is_digit_def is_upper_def)

lemma str_lower_show_nat: "str_lower (show_nat n) = show_nat n"
  unfolding str_lower_def by (rule map_idI) (simp add: lower_digit show_nat_char)

lemma digits_not_in: "\<not> is_digit c \<Longrightarrow> c \<notin> set (show_nat n)"
  using show_nat_char by blast

lemma py_float_show_nat: "py_float (show_nat n) = Some (real n)"
proof -
  have p: "CHR ''.'' \<notin> set (show_nat n)" "CHR ''e'' \<notin> set (show_nat n)"
    by (rule digits_not_in, simp add: is_digit_def)+
  have strip: "str_strip (show_nat n) = show_nat n"
    by (rule str_strip_no_space) (simp add: show_nat_char is_digit_not_space)
  have nat: "py_nat (show_nat n) = Some n" by (rule py_nat_show_nat)
  then have d: "digits_ok (show_nat n)" "read_digits 0 (filter is_digit (show_nat n)) = n"
    by (auto simp: py_nat_def split: if_splits)
  have u: "py_unsigned_float (show_nat n) = Some (real n)"
    using p d by (simp add: py_unsigned_float_def str_lower_show_nat str_split1_none py_mantissa_def
        digits_opt_def read_digits_def str_contains_def)
  obtain c cs where c: "show_nat n = c # cs" by (cases "show_nat n") simp_all
  then have "is_digit c" using show_nat_char [of c n] by simp
  then have "c \<noteq> CHR ''-''" "c \<noteq> CHR ''+''" by (auto simp: is_digit_def)
  then show ?thesis using u c strip by (simp add: py_float_def)
qed

lemma ends_with_append: "ends_with p (s @ t) = starts_with (rev p) (rev t @ rev s)"
  by (simp add: ends_with_def)

lemma but_last_append: "but_last (Suc 0) (s @ [a]) = s" "but_last 2 (s @ [a, b]) = s" "but_last 3 (s @ [a, b, c]) = s"
  by (simp_all add: but_last_def)

lemma strip_number_suffix: "\<forall>c \<in> set t. \<not> is_space c \<Longrightarrow> str_strip (show_nat n @ t) = show_nat n @ t"
  by (rule str_strip_no_space) (auto dest: show_nat_char is_digit_not_space)

lemma float_text_show_nat: "int_of_float_text (show_nat n) m = Inr (py_trunc (real n * m))"
  by (simp add: int_of_float_text_def py_float_show_nat)

lemma py_trunc_nat: "py_trunc (real n * real m) = int (n * m)"
  by (simp add: py_trunc_def flip: of_nat_mult)

lemmas memory_simps = parse_memory_def Let_def strip_number_suffix is_space_def ends_with_any_def
  ends_with_append starts_with_def but_last_append float_text_show_nat

text \<open>Every documented spelling of a memory limit means the same power of 1024: the IEC forms
  \<open>Gi\<close> and \<open>GiB\<close> and the short forms \<open>g\<close> and \<open>G\<close> give \<open>n * 1024^3\<close> bytes, and likewise for
  mega and kilo; a bare number is a number of bytes.\<close>

theorem parse_memory_units:
  "list_all (\<lambda>u. parse_memory (show_nat n @ u) = Inr (int (n * 1024 ^ 3))) [''g'', ''G'', ''Gi'', ''GiB''] \<and>
   list_all (\<lambda>u. parse_memory (show_nat n @ u) = Inr (int (n * 1024 ^ 2))) [''m'', ''M'', ''Mi'', ''MiB''] \<and>
   list_all (\<lambda>u. parse_memory (show_nat n @ u) = Inr (int (n * 1024))) [''k'', ''K'', ''Ki'', ''KiB''] \<and>
   parse_memory (show_int (int n)) = Inr (int n)"
proof -
  have g: "py_trunc (real n * 1073741824) = int (n * 1024 ^ 3)" using py_trunc_nat [of n "1024 ^ 3"] by simp
  have m: "py_trunc (real n * 1048576) = int (n * 1024 ^ 2)" using py_trunc_nat [of n "1024 ^ 2"] by simp
  have k: "py_trunc (real n * 1024) = int (n * 1024)" using py_trunc_nat [of n 1024] by simp
  have plain: "parse_memory (show_nat n) = Inr (int n)"
  proof -
    have "\<not> ends_with p (show_nat n)" if "p \<noteq> []" "\<not> is_digit (last p)" for p
    proof
      assume "ends_with p (show_nat n)"
      then obtain t where "rev (show_nat n) = rev p @ t" by (auto simp: ends_with_def starts_with_iff)
      then have "show_nat n = rev t @ p" by (metis rev_append rev_rev_ident)
      then have "last p \<in> set (show_nat n)" using that(1) by simp
      then show False using show_nat_char that(2) by blast
    qed
    moreover have "str_strip (show_nat n) = show_nat n" using strip_number_suffix [of "[]" n] by simp
    moreover have "py_int (show_nat n) = Some (int n)" using py_int_show_int [of "int n"] by (simp add: show_int_def)
    ultimately show ?thesis by (simp add: parse_memory_def Let_def ends_with_any_def is_digit_def)
  qed
  show ?thesis using plain by (simp add: memory_simps g m k show_int_def)
qed

section \<open>The health probe is bounded\<close>

lemma clock_sleep: "snd (sleep d w) = w\<lparr>w_clock := w_clock w + d\<rparr>" "fst (sleep d w) = Inr ()"
  by (simp_all add: sleep_def comp_defs)

lemma clock_probe_once: "preserves w_clock probe \<Longrightarrow> preserves w_clock (probe_once probe)"
  unfolding probe_once_def
  by (intro preserves_intros) (auto simp: preserves_ret split: prod.splits)

text \<open>\<open>wait_for_opencode_health\<close> always ends within \<open>max_retries\<close> attempts and their pauses: it
  waits at most \<open>n * interval\<close> seconds beside the probes themselves, it gives up with a
  \<open>RuntimeError\<close> only after the full time, and with a probe that answers healthy it returns at once.\<close>

theorem wait_for_health_bounded:
  assumes "preserves w_clock probe" and "0 \<le> interval"
  shows "w_clock (snd (wait_for_health probe n interval w)) \<le> w_clock w + real n * interval \<and>
    (fst (wait_for_health probe n interval w) = Inl (RuntimeError ''opencode did not become healthy'') \<longrightarrow>
       (\<forall>v m. fst (probe v) \<noteq> Inl (RuntimeError m)) \<longrightarrow>
       w_clock (snd (wait_for_health probe n interval w)) = w_clock w + real n * interval) \<and>
    (0 < n \<and> fst (probe w) = Inr (200, True) \<longrightarrow>
       wait_for_health probe n interval w = (Inr (), snd (probe w)))"
proof (induction n arbitrary: w)
  case 0
  then show ?case by (simp add: comp_defs)
next
  case (Suc n)
  let ?p = "probe_once probe w"
  have clk: "w_clock (snd ?p) = w_clock w" using preservesD [OF clock_probe_once [OF assms(1)]] .
  have nort: "fst ?p \<noteq> Inl (RuntimeError m)" if "\<forall>v m. fst (probe v) \<noteq> Inl (RuntimeError m)" for m
    using that by (auto simp: probe_once_def comp_defs split: prod.splits sum.splits if_splits) (metis fst_conv)+
  have now: "?p = (Inr True, snd (probe w))" if "fst (probe w) = Inr (200, True)"
    using that by (auto simp: probe_once_def comp_defs split: prod.splits sum.splits)
  have pos: "0 \<le> real n * interval" using assms(2) by simp
  show ?case
  proof (cases "fst ?p")
    case (Inl e)
    then have run: "wait_for_health probe (Suc n) interval w = (Inl e, snd ?p)"
      by (cases ?p) (simp add: bindE_stop)
    show ?thesis using clk assms(2) nort now pos Inl by (auto simp: run algebra_simps simp del: wait_for_health.simps)
  next
    case (Inr ok)
    show ?thesis
    proof (cases ok)
      case True
      then have run: "wait_for_health probe (Suc n) interval w = (Inr (), snd ?p)"
        using Inr by (cases ?p) (simp add: bindE_step retE_def)
      show ?thesis using clk assms(2) now pos by (auto simp: run algebra_simps simp del: wait_for_health.simps)
    next
      case False
      then have run: "wait_for_health probe (Suc n) interval w =
          wait_for_health probe n interval ((snd ?p)\<lparr>w_clock := w_clock w + interval\<rparr>)"
        using Inr clk by (cases ?p) (simp add: bindE_step thenE_step sleep_def modifyE_def)
      show ?thesis using Suc.IH [of "(snd ?p)\<lparr>w_clock := w_clock w + interval\<rparr>"] now Inr False
        by (auto simp: run algebra_simps simp del: wait_for_health.simps)
    qed
  qed
qed

lemma wait_for_health_bounded_witness:
  "fst (wait_for_health (retE (503, False)) 3 2 init_world) =
     Inl (RuntimeError ''opencode did not become healthy'') \<and>
   w_clock (snd (wait_for_health (retE (503, False)) 3 2 init_world)) \<le> 6"
  using wait_for_health_bounded [of "retE (503, False)" 2 3 init_world]
  by (simp add: preserves_ret init_world_def numeral_eq_Suc probe_once_def comp_defs sleep_def)

end
