(* ===== verification/Broker_Policy.thy ===== *)
theory Broker_Policy
  imports World
begin

text \<open>
  The egress policy of the broker, \<open>src/broker/policy.py\<close>: a dictionary from task ids to frozen
  sets of hosts (a list without duplicates here). The locale \<open>egress_policy\<close> states what a client
  may rely on; it is interpreted on these functions.
\<close>

type_synonym policies = "(string \<times> string list) list"

definition norm_host :: "string \<Rightarrow> string" where
  "norm_host h = str_strip (str_lower h)"

definition normalize_hosts :: "string list \<Rightarrow> string list" where
  "normalize_hosts hs = remdups (map norm_host (filter (\<lambda>h. str_strip h \<noteq> []) hs))"

definition set_task_policy :: "string \<Rightarrow> string list \<Rightarrow> policies \<Rightarrow> policies" where
  "set_task_policy tid hosts ps = dict_set tid (normalize_hosts hosts) ps"

definition remove_task_policy :: "string \<Rightarrow> policies \<Rightarrow> policies" where
  "remove_task_policy tid ps = (if tid \<in> fst ` set ps then dict_pop tid ps else ps)"

definition host_port :: "string \<Rightarrow> int \<Rightarrow> string" where
  "host_port h p = h @ '':'' @ show_int p"

definition is_allowed :: "string option \<Rightarrow> string \<Rightarrow> int option \<Rightarrow> policies \<Rightarrow> bool" where
  "is_allowed tid host port ps =
     (case tid of None \<Rightarrow> False
      | Some t \<Rightarrow>
          (case map_of ps t of None \<Rightarrow> False
           | Some pol \<Rightarrow>
               let h = norm_host host
               in (case port of None \<Rightarrow> False | Some p \<Rightarrow> host_port h p \<in> set pol) \<or> h \<in> set pol))"

definition get_task_policy :: "string \<Rightarrow> policies \<Rightarrow> string list" where
  "get_task_policy tid ps = (case map_of ps tid of None \<Rightarrow> [] | Some pol \<Rightarrow> sort pol)"

definition list_active_policies :: "policies \<Rightarrow> (string \<times> string list) list" where
  "list_active_policies ps = map (\<lambda>(t, pol). (t, sort pol)) ps"

section \<open>The interface of a policy store\<close>

text \<open>\<open>spec hosts h p\<close> says whether a white list admits host \<open>h\<close> at port \<open>p\<close>.\<close>

definition admits :: "string list \<Rightarrow> string \<Rightarrow> int option \<Rightarrow> bool" where
  "admits hosts h p \<longleftrightarrow> (\<exists>x \<in> set hosts. str_strip x \<noteq> [] \<and>
     (norm_host x = norm_host h \<or> (case p of None \<Rightarrow> False | Some n \<Rightarrow> norm_host x = host_port (norm_host h) n)))"

locale egress_policy =
  fixes allowed :: "string option \<Rightarrow> string \<Rightarrow> int option \<Rightarrow> 's \<Rightarrow> bool"
    and set_policy :: "string \<Rightarrow> string list \<Rightarrow> 's \<Rightarrow> 's"
    and remove_policy :: "string \<Rightarrow> 's \<Rightarrow> 's"
  assumes anonymous: "\<not> allowed None h p s"
    and allowed_set: "allowed (Some t) h p (set_policy t hosts s) \<longleftrightarrow> admits hosts h p"
    and allowed_set_other: "t \<noteq> u \<Longrightarrow> allowed (Some u) h p (set_policy t hosts s) = allowed (Some u) h p s"
    and allowed_remove: "\<not> allowed (Some t) h p (remove_policy t s)"
    and allowed_remove_other: "t \<noteq> u \<Longrightarrow> allowed (Some u) h p (remove_policy t s) = allowed (Some u) h p s"
begin

text \<open>Between the registration of a task and its removal, no operation on other tasks changes
  what the task may reach.\<close>

definition apply_op :: "(string \<times> string list option) \<Rightarrow> 's \<Rightarrow> 's" where
  "apply_op a s = (case snd a of Some hosts \<Rightarrow> set_policy (fst a) hosts s | None \<Rightarrow> remove_policy (fst a) s)"

lemma isolated:
  assumes "\<forall>a \<in> set as. fst a \<noteq> t"
  shows "allowed (Some t) h p (fold apply_op as (set_policy t hosts s)) \<longleftrightarrow> admits hosts h p"
proof -
  have "allowed (Some t) h p (fold apply_op as u) = allowed (Some t) h p u" for u
    using assms
    by (induction as arbitrary: u)
      (auto simp: apply_op_def allowed_set_other allowed_remove_other split: option.splits)
  then show ?thesis by (simp add: allowed_set)
qed

lemma revoked:
  assumes "\<forall>a \<in> set as. fst a \<noteq> t"
  shows "\<not> allowed (Some t) h p (fold apply_op as (remove_policy t s))"
proof -
  have "allowed (Some t) h p (fold apply_op as u) = allowed (Some t) h p u" for u
    using assms
    by (induction as arbitrary: u)
      (auto simp: apply_op_def allowed_set_other allowed_remove_other split: option.splits)
  then show ?thesis by (simp add: allowed_remove)
qed

end

lemma set_normalize_hosts: "set (normalize_hosts hs) = norm_host ` {h \<in> set hs. str_strip h \<noteq> []}"
  by (simp add: normalize_hosts_def)

lemma map_of_remove_policy: "map_of (remove_task_policy t s) = (map_of s)(t := None)"
  by (auto simp: remove_task_policy_def fun_eq_iff map_of_eq_None_iff)

interpretation broker: egress_policy is_allowed set_task_policy remove_task_policy
proof
  fix h p t hosts and s :: policies
  show "is_allowed (Some t) h p (set_task_policy t hosts s) \<longleftrightarrow> admits hosts h p"
    by (auto simp: is_allowed_def set_task_policy_def set_normalize_hosts admits_def Let_def image_iff
        split: option.splits)
  show "\<not> is_allowed None h p s" by (simp add: is_allowed_def)
  show "\<not> is_allowed (Some t) h p (remove_task_policy t s)"
    and "t \<noteq> u \<Longrightarrow> is_allowed (Some u) h p (remove_task_policy t s) = is_allowed (Some u) h p s" for u
    by (simp_all add: is_allowed_def map_of_remove_policy)
  show "t \<noteq> u \<Longrightarrow> is_allowed (Some u) h p (set_task_policy t hosts s) = is_allowed (Some u) h p s" for u
    by (simp add: is_allowed_def set_task_policy_def)
qed

section \<open>Default deny\<close>

text \<open>C12: A task may reach exactly the hosts its own white list admits, in any letter case and
  for any port or for the one port it lists, whatever policies are set and removed for other
  tasks meanwhile; the empty white list admits nothing, and after the removal nothing is.\<close>

theorem egress_is_exactly_the_task_whitelist:
  assumes "\<forall>a \<in> set as. fst a \<noteq> tid"
  shows "(is_allowed (Some tid) h p (fold broker.apply_op as (set_task_policy tid hosts ps)) \<longleftrightarrow> admits hosts h p) \<and>
    \<not> is_allowed (Some tid) h p (fold broker.apply_op as (set_task_policy tid [] ps)) \<and>
    \<not> is_allowed (Some tid) h p (fold broker.apply_op as (remove_task_policy tid ps))"
  using broker.isolated [OF assms, of h p hosts ps] broker.isolated [OF assms, of h p "[]" ps]
    broker.revoked [OF assms, of h p ps]
  by (simp add: admits_def)

lemma egress_is_exactly_the_task_whitelist_witness:
  "is_allowed (Some ''t1'') ''API.OpenAI.com'' (Some 443)
     (fold broker.apply_op [(''t2'', None)] (set_task_policy ''t1'' [''api.openai.com:443''] []))"
proof -
  have "admits [''api.openai.com:443''] ''API.OpenAI.com'' (Some 443)" by code_simp
  then show ?thesis
    using egress_is_exactly_the_task_whitelist [of "[(''t2'', None)]" "''t1''" "''API.OpenAI.com''" "Some 443"
        "[''api.openai.com:443'']" "[]"] by simp
qed

end
