(* ===== verification/Orchestrator.thy ===== *)
theory Orchestrator
  imports Task_Queue Sandbox Config Broker_Policy
begin

text \<open>
  The orchestrator \<open>src/worker/orchestrator/orchestrator.py\<close>: the life of one task from its
  request to its clean-up, the environment and the permissions of its container. What it calls
  outside the process (Docker, the workspace on disk, a free port, a random password, the
  driver of the opencode session) is a field of \<open>orch_env\<close>.
\<close>

section \<open>Permissions and environment\<close>

definition plan_first_permissions :: "(string \<times> json) list" where
  "plan_first_permissions = [(''bash'', JStr ''ask''), (''write'', JStr ''ask''), (''edit'', JStr ''ask''),
     (''webfetch'', JStr ''ask''), (''external_directory'', JStr ''deny'')]"

definition direct_execute_permissions :: "(string \<times> json) list" where
  "direct_execute_permissions = [(''bash'', JStr ''ask''), (''write'', JStr ''allow''), (''edit'', JStr ''allow''),
     (''webfetch'', JStr ''ask''), (''external_directory'', JStr ''deny'')]"

fun permission_base :: "permission_template \<Rightarrow> (string \<times> json) list" where
  "permission_base P_plan_first_default = plan_first_permissions"
| "permission_base P_direct_execute_default = direct_execute_permissions"
| "permission_base P_custom = []"

text \<open>\<open>v in VALID_VALUES\<close>: a list or a dict is not hashable.\<close>

fun in_valid_values :: "json \<Rightarrow> exn + bool" where
  "in_valid_values (JStr s) = Inr (s \<in> {''allow'', ''ask'', ''deny''})"
| "in_valid_values (JList _) = Inl (TypeError ''unhashable type: list'')"
| "in_valid_values (JObj _) = Inl (TypeError ''unhashable type: dict'')"
| "in_valid_values _ = Inr False"

fun merge_overrides :: "(string \<times> json) list \<Rightarrow> (string \<times> json) list \<Rightarrow> exn + (string \<times> json) list" where
  "merge_overrides [] base = Inr base"
| "merge_overrides ((k, v) # ovs) base =
     (case in_valid_values v of
        Inl e \<Rightarrow> Inl e
      | Inr ok \<Rightarrow> merge_overrides ovs (if ok then dict_set k v base else base))"

definition build_permission_json :: "permission_template \<Rightarrow> (string \<times> json) list \<Rightarrow> exn + json" where
  "build_permission_json template overrides =
     (case merge_overrides overrides (permission_base template) of
        Inl e \<Rightarrow> Inl e | Inr m \<Rightarrow> Inr (JObj m))"

definition provider_key_table :: "(string \<times> string) list" where
  "provider_key_table =
     [(''anthropic'', ''ANTHROPIC_API_KEY''), (''openai'', ''OPENAI_API_KEY''),
      (''alibaba'', ''ALIBABA_API_KEY''), (''alibaba-cn'', ''ALIBABA_CN_API_KEY''),
      (''alibabacloud'', ''DASHSCOPE_API_KEY''), (''dashscope'', ''DASHSCOPE_API_KEY''),
      (''deepseek'', ''DEEPSEEK_API_KEY''), (''gemini'', ''GEMINI_API_KEY'')]"

definition provider_key_env_var :: "string \<Rightarrow> string option" where
  "provider_key_env_var provider = map_of provider_key_table (str_lower provider)"

text \<open>\<open>entry.setdefault("options", {})\<close> and \<open>opts["apiKey"] = ...\<close> unless \<open>"apiKey" in opts\<close>,
  with the \<open>TypeError\<close> of an \<open>options\<close> that is not a dict.\<close>

definition inject_api_key :: "string \<Rightarrow> (string \<times> json) list \<Rightarrow> exn + (string \<times> json) list" where
  "inject_api_key key entry =
     (let opts = dict_get entry ''options'' (JObj [])
      in case opts of
           JObj kvs \<Rightarrow> Inr (dict_set ''options''
             (JObj (if map_of kvs ''apiKey'' = None
                    then dict_set ''apiKey'' (JStr (''{env:'' @ key @ ''}'')) kvs else kvs)) entry)
         | JStr s \<Rightarrow> (if sublist ''apiKey'' s then Inr entry
                     else Inl (TypeError ''str object does not support item assignment''))
         | JList xs \<Rightarrow> (if JStr ''apiKey'' \<in> set xs then Inr entry
                       else Inl (TypeError ''list indices must be integers or slices, not str''))
         | _ \<Rightarrow> Inl (TypeError ''argument is not iterable''))"

fun inject_providers ::
    "string list \<Rightarrow> (string \<times> (string \<times> json) list) list \<Rightarrow> exn + (string \<times> (string \<times> json) list) list" where
  "inject_providers [] block = Inr block"
| "inject_providers (p # ps) block =
     (case provider_key_env_var p of
        None \<Rightarrow> inject_providers ps block
      | Some key \<Rightarrow>
          (case inject_api_key key (case map_of block p of None \<Rightarrow> [] | Some e \<Rightarrow> e) of
             Inl e \<Rightarrow> Inl e
           | Inr entry \<Rightarrow> inject_providers ps (dict_set p entry block)))"

definition config_content :: "opencode_profile \<Rightarrow> exn + json" where
  "config_content profile =
     (case inject_providers (prof_providers profile) (prof_provider_extra_config profile) of
        Inl e \<Rightarrow> Inl e
      | Inr block \<Rightarrow> Inr (JObj
          ([(''autoupdate'', JBool False), (''plugin'', JList [JStr ''oh-my-openagent@latest''])] @
           (if prof_model profile = [] then [] else [(''model'', JStr (prof_model profile))]) @
           (if block = [] then [] else [(''provider'', JObj (map (\<lambda>(p, e). (p, JObj e)) block))]))))"

definition pass_provider_keys ::
    "(string \<times> string) list \<Rightarrow> string list \<Rightarrow> (string \<times> env_value) list \<Rightarrow> (string \<times> env_value) list" where
  "pass_provider_keys environ keys env =
     fold (\<lambda>k e. case map_of environ k of
              None \<Rightarrow> e | Some v \<Rightarrow> if v = [] then e else dict_set k (Env_text v) e) keys env"

definition pass_extra_env ::
    "(string \<times> string) list \<Rightarrow> (string \<times> env_value) list \<Rightarrow> (string \<times> env_value) list" where
  "pass_extra_env extra env =
     fold (\<lambda>(k, v) e. if starts_with ''OPENCODE_'' k then e else dict_set k (Env_text v) e) extra env"

definition broker_env :: "string \<Rightarrow> settings \<Rightarrow> (string \<times> env_value) list" where
  "broker_env tid st =
     (if st_broker_enabled st
      then [(''HTTP_PROXY'', Env_text (''http://broker:'' @ show_int (st_broker_port st))),
            (''HTTPS_PROXY'', Env_text (''http://broker:'' @ show_int (st_broker_port st))),
            (''WORKER_TASK_ID'', Env_text tid)]
      else [])"

definition build_container_env ::
    "string \<Rightarrow> task_request \<Rightarrow> settings \<Rightarrow> (string \<times> string) list \<Rightarrow> string \<Rightarrow> exn + (string \<times> env_value) list" where
  "build_container_env tid rq st environ password =
     (case config_content (rq_profile rq) of
        Inl e \<Rightarrow> Inl e
      | Inr cfg \<Rightarrow>
          (case build_permission_json (prof_permission_template (rq_profile rq))
                  (prof_permission_overrides (rq_profile rq)) of
             Inl e \<Rightarrow> Inl e
           | Inr perm \<Rightarrow> Inr
               (pass_extra_env (env_extra_env (rq_env_policy rq))
                 (pass_provider_keys environ (env_provider_keys (rq_env_policy rq))
                   ([(''OPENCODE_SERVER_PASSWORD'', Env_text password),
                     (''OPENCODE_CONFIG_CONTENT'', Env_json cfg),
                     (''OPENCODE_DISABLE_AUTOUPDATE'', Env_text ''1''),
                     (''OPENCODE_PERMISSION'', Env_json perm)] @ broker_env tid st)))))"

section \<open>The life of a task\<close>

record orch_env =
  oe_settings :: settings
  oe_docker :: docker_api
  oe_prepare_workspace :: "string \<Rightarrow> string \<Rightarrow> workspace_spec \<Rightarrow> string io"
  oe_cleanup_workspace :: "string \<Rightarrow> unit io"
  oe_probe :: "int \<Rightarrow> env_value \<Rightarrow> (nat \<times> bool) io"
  oe_drive :: "string \<Rightarrow> task_request \<Rightarrow> int \<Rightarrow> (string \<times> env_value) list \<Rightarrow> unit io"
  oe_free_port :: "int io"
  oe_token_hex :: "string io"
  oe_environ :: "(string \<times> string) list"

definition load_request :: "string \<Rightarrow> task_request option io" where
  "load_request tid = select (\<lambda>d. map_option tr_request (find_task tid d))"

definition workspaces_base :: "settings \<Rightarrow> string" where
  "workspaces_base st = path_join (st_data_dir st) ''workspaces''"

definition is_local :: "task_request \<Rightarrow> bool" where
  "is_local rq \<longleftrightarrow> ws_kind (rq_workspace rq) = ''local''"

definition set_policy :: "string \<Rightarrow> string list \<Rightarrow> unit io" where
  "set_policy tid hosts = modifyE (\<lambda>w. w\<lparr>w_policies := set_task_policy tid hosts (w_policies w)\<rparr>)"

definition drop_policy :: "string \<Rightarrow> unit io" where
  "drop_policy tid = modifyE (\<lambda>w. w\<lparr>w_policies := remove_task_policy tid (w_policies w)\<rparr>)"

definition container_spec_of ::
    "orch_env \<Rightarrow> string \<Rightarrow> task_request \<Rightarrow> string \<Rightarrow> (string \<times> env_value) list \<Rightarrow> int \<Rightarrow> container_spec" where
  "container_spec_of oe tid rq dir env port =
     (let st = oe_settings oe; lim = rq_limits rq
      in \<lparr>cs_task_id = tid, cs_image = st_sandbox_image st, cs_workspace_dir = dir, cs_env = env,
          cs_port_host = port, cs_cpu_limit = lim_cpu lim, cs_memory_limit = lim_memory lim,
          cs_pids_limit = lim_pids lim, cs_network_name = Some ''worker-sandbox-net'',
          cs_broker_host = (if st_broker_enabled st then Some (st_broker_host st) else None),
          cs_broker_port = (if st_broker_enabled st then Some (st_broker_port st) else None),
          cs_timeout_sec = lim_timeout_sec lim,
          cs_user = (if is_local rq then ''0:0'' else ''1000:1000''), cs_read_only = \<not> is_local rq\<rparr>)"

definition host_mount_error :: exn where
  "host_mount_error = PermissionError ''workspace.kind=local is disabled by policy''"

text \<open>Steps 0 to 5: the safety gate, the workspace, the network, the policy, the environment.\<close>

definition prepare_task :: "orch_env \<Rightarrow> string \<Rightarrow> task_request \<Rightarrow> container_spec io" where
  "prepare_task oe tid rq =
     (let st = oe_settings oe in
      thenE (whenE (is_local rq \<and> \<not> st_allow_host_mount st) (raiseE host_mount_error)) (
      thenE (update_task_status tid S_preparing_workspace) (
      thenE (bindE (insert_event tid K_task_started [(''phase'', JStr ''preparing_workspace'')]) (\<lambda>_. retE ())) (
      bindE (oe_prepare_workspace oe tid (workspaces_base st) (rq_workspace rq)) (\<lambda>dir.
      thenE (ensure_worker_network (oe_docker oe) ''worker-sandbox-net'') (
      thenE (whenE (st_broker_enabled st) (set_policy tid (bp_allow_egress_hosts (rq_broker rq)))) (
      bindE (oe_token_hex oe) (\<lambda>password.
      bindE (liftE (build_container_env tid rq st (oe_environ oe) password)) (\<lambda>env.
      bindE (oe_free_port oe) (\<lambda>port.
      retE (container_spec_of oe tid rq dir env port)))))))))))"

definition env_get :: "(string \<times> env_value) list \<Rightarrow> string \<Rightarrow> env_value" where
  "env_get env k = (case map_of env k of None \<Rightarrow> Env_text [] | Some v \<Rightarrow> v)"

text \<open>Steps 6 to 10: the container, its health, the session, completion.\<close>

definition execute_task :: "orch_env \<Rightarrow> string \<Rightarrow> task_request \<Rightarrow> container_spec \<Rightarrow> unit io" where
  "execute_task oe tid rq spec =
     thenE (update_task_status tid S_starting_container) (
     bindE (start_container (oe_docker oe) spec) (\<lambda>c.
     thenE (update_task_status_full tid S_starting_container (Some (ct_id c)) None) (
     thenE (bindE (insert_event tid K_container_started [(''container_id'', JStr (take 12 (ct_id c)))]) (\<lambda>_. retE ())) (
     thenE (update_task_status tid S_starting_opencode) (
     thenE (wait_for_health (oe_probe oe (cs_port_host spec) (env_get (cs_env spec) ''OPENCODE_SERVER_PASSWORD''))
              HEALTH_CHECK_MAX_RETRIES HEALTH_CHECK_INTERVAL) (
     thenE (bindE (insert_event tid K_opencode_ready [(''port'', JInt (cs_port_host spec))]) (\<lambda>_. retE ())) (
     thenE (oe_drive oe tid rq (cs_port_host spec) (cs_env spec))
       (complete_task tid))))))))"

definition cleanup_task :: "orch_env \<Rightarrow> string \<Rightarrow> task_request \<Rightarrow> unit io" where
  "cleanup_task oe tid rq =
     thenE (tryE (thenE (stop_container (oe_docker oe) tid 10) (remove_container (oe_docker oe) tid True)) swallow) (
     thenE (whenE (\<not> is_local rq)
              (tryE (oe_cleanup_workspace oe (path_join (workspaces_base (oe_settings oe)) tid)) swallow))
       (whenE (st_broker_enabled (oe_settings oe)) (tryE (drop_policy tid) swallow)))"

definition run_task :: "orch_env \<Rightarrow> string \<Rightarrow> unit io" where
  "run_task oe tid =
     thenE get_db (
     bindE (load_request tid) (\<lambda>rq.
     case rq of
       None \<Rightarrow> raiseE (RuntimeError (''TaskRequest not found for task_id='' @ tid))
     | Some r \<Rightarrow> finallyE (bindE (prepare_task oe tid r) (execute_task oe tid r)) (cleanup_task oe tid r)))"

section \<open>Permissions\<close>

lemma merge_overrides_ok:
  "(\<exists>e. merge_overrides ovs base = Inl e) \<longleftrightarrow> (\<exists>kv \<in> set ovs. \<exists>e. in_valid_values (snd kv) = Inl e)"
  by (induction ovs base rule: merge_overrides.induct) (auto split: sum.splits)

lemma in_valid_true: "in_valid_values v = Inr True \<longleftrightarrow> v \<in> {JStr ''allow'', JStr ''ask'', JStr ''deny''}"
  by (cases v) auto

lemma merge_overrides_lookup:
  "merge_overrides ovs base = Inr m \<Longrightarrow>
   map_of m k = (case find (\<lambda>kv. fst kv = k \<and> in_valid_values (snd kv) = Inr True) (rev ovs) of
     Some kv \<Rightarrow> Some (snd kv) | None \<Rightarrow> map_of base k)"
proof (induction ovs base arbitrary: m rule: merge_overrides.induct)
  case (2 k' v ovs base)
  from "2.prems" obtain ok where ok: "in_valid_values v = Inr ok"
    "merge_overrides ovs (if ok then dict_set k' v base else base) = Inr m"
    by (auto split: sum.splits)
  from "2.IH" [OF ok] show ?case
    using ok(1) by (cases ok) (auto simp: find_append split: option.splits)
qed simp

lemma permission_base_values: "map_of (permission_base t) k = Some v \<Longrightarrow> in_valid_values v = Inr True"
  by (cases t) (auto simp: plan_first_permissions_def direct_execute_permissions_def split: if_splits)

text \<open>The permission map a container gets holds only \<open>allow\<close>, \<open>ask\<close> and \<open>deny\<close>: a key has the
  value of its last valid override, else that of the template; an override that is a list or a
  dict makes the construction raise a \<open>TypeError\<close>, any other invalid one is ignored.\<close>

theorem permission_json_values:
  "case build_permission_json t ovs of
     Inl e \<Rightarrow> (\<exists>m. e = TypeError m) \<and> (\<exists>kv \<in> set ovs. case snd kv of JList _ \<Rightarrow> True | JObj _ \<Rightarrow> True | _ \<Rightarrow> False)
   | Inr perm \<Rightarrow> \<exists>m. perm = JObj m \<and>
       (\<forall>k. map_of m k =
          (case find (\<lambda>kv. fst kv = k \<and> in_valid_values (snd kv) = Inr True) (rev ovs) of
             Some kv \<Rightarrow> Some (snd kv) | None \<Rightarrow> map_of (permission_base t) k) \<and>
          (case map_of m k of None \<Rightarrow> True | Some v \<Rightarrow> v \<in> {JStr ''allow'', JStr ''ask'', JStr ''deny''}))"
proof (cases "merge_overrides ovs (permission_base t)")
  case (Inl e)
  have te: "merge_overrides ovs base = Inl e \<Longrightarrow> \<exists>m. e = TypeError m" for ovs base
    by (induction ovs base rule: merge_overrides.induct)
      (auto split: sum.splits elim!: in_valid_values.elims)
  obtain kv where "kv \<in> set ovs" "\<exists>e. in_valid_values (snd kv) = Inl e"
    using merge_overrides_ok [of ovs "permission_base t"] Inl by blast
  then have "\<exists>kv \<in> set ovs. case snd kv of JList _ \<Rightarrow> True | JObj _ \<Rightarrow> True | _ \<Rightarrow> False"
    by (intro bexI [of _ kv]) (cases "snd kv"; simp)+
  then show ?thesis using te [OF Inl] by (simp add: build_permission_json_def Inl)
next
  case (Inr m)
  have "in_valid_values v = Inr True" if "map_of m k = Some v" for k v
  proof (cases "find (\<lambda>kv. fst kv = k \<and> in_valid_values (snd kv) = Inr True) (rev ovs)")
    case None
    then show ?thesis using that merge_overrides_lookup [OF Inr, of k] by (simp add: permission_base_values)
  next
    case (Some kv)
    then show ?thesis using that merge_overrides_lookup [OF Inr, of k] find_holds [OF Some] by simp
  qed
  then have "case map_of m k of None \<Rightarrow> True | Some v \<Rightarrow> v \<in> {JStr ''allow'', JStr ''ask'', JStr ''deny''}" for k
    by (cases "map_of m k") (simp_all only: option.case in_valid_true [symmetric])
  moreover have "build_permission_json t ovs = Inr (JObj m)" by (simp add: build_permission_json_def Inr)
  ultimately show ?thesis
    unfolding sum.case by (simp only: sum.case json.inject ex_simps) (use merge_overrides_lookup [OF Inr] in blast)
qed

section \<open>The environment of the container\<close>

lemma pass_extra_env_system:
  "starts_with ''OPENCODE_'' k \<Longrightarrow> map_of (pass_extra_env extra env) k = map_of env k"
  unfolding pass_extra_env_def
  by (induction extra arbitrary: env) (auto split: prod.splits)

lemma pass_provider_keys_other:
  "k \<notin> set keys \<Longrightarrow> map_of (pass_provider_keys environ keys env) k = map_of env k"
  unfolding pass_provider_keys_def
  by (induction keys arbitrary: env) (auto split: option.splits)

text \<open>The variables the worker reserves are the user's only through \<open>provider_keys\<close>: whatever
  \<open>extra_env\<close> holds, the password, the configuration and the permissions of the container are
  those the worker built, as long as the request does not list them as provider keys.\<close>

theorem extra_env_cannot_touch_opencode_variables:
  assumes "build_container_env tid rq st environ password = Inr env"
    and "\<forall>k \<in> set (env_provider_keys (rq_env_policy rq)). \<not> starts_with ''OPENCODE_'' k"
  shows "map_of env ''OPENCODE_SERVER_PASSWORD'' = Some (Env_text password) \<and>
    (\<exists>perm. build_permission_json (prof_permission_template (rq_profile rq))
               (prof_permission_overrides (rq_profile rq)) = Inr perm \<and>
            map_of env ''OPENCODE_PERMISSION'' = Some (Env_json perm)) \<and>
    (\<exists>cfg. config_content (rq_profile rq) = Inr cfg \<and>
            map_of env ''OPENCODE_CONFIG_CONTENT'' = Some (Env_json cfg))"
proof -
  have "''OPENCODE_SERVER_PASSWORD'' \<notin> set (env_provider_keys (rq_env_policy rq))"
    "''OPENCODE_PERMISSION'' \<notin> set (env_provider_keys (rq_env_policy rq))"
    "''OPENCODE_CONFIG_CONTENT'' \<notin> set (env_provider_keys (rq_env_policy rq))"
    using assms(2) by (auto simp: starts_with_def)
  then show ?thesis
    using assms(1)
    by (auto simp: build_container_env_def pass_extra_env_system pass_provider_keys_other starts_with_def
        split: sum.splits)
qed

section \<open>The sandbox gate\<close>

text \<open>What every container of a task has: no capabilities, no new privileges, a port on the
  loopback only, and, unless the operator allowed host mounts, an unprivileged user on a
  read-only root file system.\<close>

definition hardened :: "settings \<Rightarrow> run_args \<Rightarrow> bool" where
  "hardened st a \<longleftrightarrow> ra_cap_drop a = [''ALL''] \<and> ra_security_opt a = [''no-new-privileges:true''] \<and>
     list_all (\<lambda>(port, host, n). host = ''127.0.0.1'') (ra_ports a) \<and>
     (ra_user a = ''1000:1000'' \<and> ra_read_only a \<or> st_allow_host_mount st)"

definition guarded_run :: "settings \<Rightarrow> (run_args \<Rightarrow> container io) \<Rightarrow> run_args \<Rightarrow> container io" where
  "guarded_run st f a = (if hardened st a then f a else raiseE (OtherError ''Unsafe'' ''container not hardened''))"

definition spec_safe :: "settings \<Rightarrow> container_spec \<Rightarrow> bool" where
  "spec_safe st s \<longleftrightarrow> cs_user s = ''1000:1000'' \<and> cs_read_only s \<or> st_allow_host_mount st"

lemma run_args_hardened: "spec_safe st s \<Longrightarrow> run_args_of dk s = Inr a \<Longrightarrow> hardened st a"
  by (auto simp: run_args_of_def hardened_def spec_safe_def split: sum.splits)

lemma start_container_guarded:
  assumes "spec_safe st s"
  shows "start_container (dk\<lparr>dk_run := guarded_run st (dk_run dk)\<rparr>) s = start_container dk s"
proof -
  have same: "run_args_of (dk\<lparr>dk_run := f\<rparr>) s = run_args_of dk s" for f
    by (simp add: run_args_of_def split: sum.splits)
  have "bindE (liftE (run_args_of dk s)) (\<lambda>a. bindE (guarded_run st (dk_run dk) a) g) =
      bindE (liftE (run_args_of dk s)) (\<lambda>a. bindE (dk_run dk a) g)" for g :: "container \<Rightarrow> container io"
  proof (rule bindE_cong)
    show "yields (hardened st) (liftE (run_args_of dk s))"
      using run_args_hardened [OF assms] by (auto simp: yields_def liftE_def)
  qed (simp add: guarded_run_def)
  then show ?thesis by (simp add: start_container_def same)
qed

lemma prepare_task_safe: "yields (spec_safe (oe_settings oe)) (prepare_task oe tid rq)"
proof (cases "is_local rq \<and> \<not> st_allow_host_mount (oe_settings oe)")
  case True
  then show ?thesis by (simp add: prepare_task_def whenE_def yields_raise)
next
  case False
  then have "spec_safe (oe_settings oe) (container_spec_of oe tid rq dir env port)" for dir env port
    by (auto simp: spec_safe_def container_spec_of_def Let_def)
  then show ?thesis
    unfolding prepare_task_def Let_def by (intro yields_then yields_bind yields_ret)
qed

lemma spec_of_docker: "container_spec_of (oe\<lparr>oe_docker := d\<rparr>) tid rq dir env port = container_spec_of oe tid rq dir env port"
  by (simp add: container_spec_of_def cong: if_cong)

lemma network_docker: "ensure_worker_network (dk\<lparr>dk_run := f\<rparr>) n = ensure_worker_network dk n"
  by (simp add: ensure_worker_network_def cong: if_cong)

text \<open>C10: The orchestrator never asks Docker for a container that is not hardened: replacing
  \<open>docker run\<close> by one that refuses such containers changes no run of any task, whatever the
  request, the settings and the rest of the world do. Root with a writable file system needs
  \<open>allow_host_mount\<close>.\<close>

theorem containers_are_hardened:
  "run_task (oe\<lparr>oe_docker := (oe_docker oe)\<lparr>dk_run := guarded_run (oe_settings oe) (dk_run (oe_docker oe))\<rparr>\<rparr>) tid =
   run_task oe tid"
proof -
  let ?dk = "oe_docker oe"
  let ?g = "oe\<lparr>oe_docker := ?dk\<lparr>dk_run := guarded_run (oe_settings oe) (dk_run ?dk)\<rparr>\<rparr>"
  have prep: "prepare_task ?g tid rq = prepare_task oe tid rq" for rq
    by (simp add: prepare_task_def Let_def spec_of_docker network_docker)
  have clean: "cleanup_task ?g tid rq = cleanup_task oe tid rq" for rq
    by (simp add: cleanup_task_def stop_container_def remove_container_def)
  have exec: "execute_task ?g tid rq s = execute_task oe tid rq s" if "spec_safe (oe_settings oe) s" for rq s
    by (simp add: execute_task_def start_container_guarded [OF that])
  have "bindE (prepare_task oe tid rq) (execute_task ?g tid rq) =
      bindE (prepare_task oe tid rq) (execute_task oe tid rq)" for rq
    using prepare_task_safe exec by (rule bindE_cong)
  then show ?thesis by (simp add: run_task_def prep clean cong: option.case_cong)
qed

text \<open>A request for a host mount that the operator did not allow starts nothing: the task goes
  straight to its clean-up with a \<open>PermissionError\<close>, before any state, event, workspace or
  container.\<close>

theorem host_mount_is_refused:
  assumes "w_connected w" and "w_faults w = []" and "find_task tid (w_db w) = Some r"
    and "is_local (tr_request r)" and "\<not> st_allow_host_mount (oe_settings oe)"
    and "raises (\<lambda>_. False) (cleanup_task oe tid (tr_request r))"
  shows "run_task oe tid w = (Inl host_mount_error, snd (cleanup_task oe tid (tr_request r) w))"
proof -
  have "prepare_task oe tid (tr_request r) = raiseE host_mount_error"
    using assms(4,5) by (simp add: prepare_task_def whenE_def Let_def)
  moreover obtain u where "cleanup_task oe tid (tr_request r) w = (Inr (), u)"
    using raises_nothing [OF assms(6), of w] by auto
  ultimately have "finallyE (bindE (prepare_task oe tid (tr_request r)) (execute_task oe tid (tr_request r)))
      (cleanup_task oe tid (tr_request r)) w = (Inl host_mount_error, snd (cleanup_task oe tid (tr_request r) w))"
    by (simp add: finallyE_def raiseE_def)
  then show ?thesis using assms(1-3) by (simp add: run_task_def thenE_step bindE_step load_request_def)
qed

section \<open>Clean-up\<close>

lemma raises_swallow: "raises is_Exception m \<Longrightarrow> raises P (tryE m swallow)"
  by (rule raises_try [where Q = is_Exception]) (simp_all add: swallow_def raises_ret)

text \<open>The clean-up calls of Docker and of the workspace raise ordinary exceptions only.\<close>

definition cleanup_calls_ok :: "orch_env \<Rightarrow> bool" where
  "cleanup_calls_ok oe \<longleftrightarrow>
     (\<forall>l st. raises is_Exception (dk_list (oe_docker oe) l st)) \<and>
     (\<forall>c n. raises is_Exception (dk_stop (oe_docker oe) c n)) \<and>
     (\<forall>c b. raises is_Exception (dk_remove (oe_docker oe) c b)) \<and>
     (\<forall>d. raises is_Exception (oe_cleanup_workspace oe d))"

lemma raises_catch_api [raises_intros]: "raises is_Exception m \<Longrightarrow> raises is_Exception (catch_api_error m)"
  unfolding catch_api_error_def
  by (rule raises_try [where Q = is_Exception]) (auto intro: raises_intros raises_raise)

lemma raises_drop_policy [raises_intros]: "raises P (drop_policy tid)"
  by (simp add: drop_policy_def raises_modify)

lemma cleanup_quiet: "cleanup_calls_ok oe \<Longrightarrow> raises P (cleanup_task oe tid rq)"
  unfolding cleanup_task_def cleanup_calls_ok_def stop_container_def remove_container_def
  by (intro raises_intros raises_swallow) blast+

lemma cleanup_drops_policy:
  assumes "cleanup_calls_ok oe" and "st_broker_enabled (oe_settings oe)"
  shows "map_of (w_policies (snd (cleanup_task oe tid rq w))) tid = None"
proof -
  let ?a = "tryE (thenE (stop_container (oe_docker oe) tid 10) (remove_container (oe_docker oe) tid True)) swallow"
  let ?b = "whenE (\<not> is_local rq)
              (tryE (oe_cleanup_workspace oe (path_join (workspaces_base (oe_settings oe)) tid)) swallow)"
  have "raises (\<lambda>_. False) ?a" "raises (\<lambda>_. False) ?b"
    using assms(1) unfolding cleanup_calls_ok_def stop_container_def remove_container_def
    by (intro raises_intros raises_swallow; blast)+
  then obtain u v where "?a w = (Inr (), u)" "?b u = (Inr (), v)"
    using raises_nothing by (metis (full_types) old.unit.exhaust)
  then have "cleanup_task oe tid rq w = whenE True (tryE (drop_policy tid) swallow) v"
    using assms(2) by (simp add: cleanup_task_def thenE_step)
  then show ?thesis
    by (simp add: whenE_def tryE_def drop_policy_def modifyE_def map_of_remove_policy)
qed

text \<open>C11: With the broker on, no run of a task leaves its egress policy behind: whether the task
  completed, failed, timed out or was aborted, afterwards the task is not allowed any host.\<close>

theorem policy_is_gone_after_the_task:
  assumes "cleanup_calls_ok oe" and "st_broker_enabled (oe_settings oe)"
    and "w_connected w" and "w_faults w = []" and "find_task tid (w_db w) \<noteq> None"
  shows "\<not> is_allowed (Some tid) h p (w_policies (snd (run_task oe tid w)))"
proof -
  obtain r where r: "find_task tid (w_db w) = Some r" using assms(5) by blast
  let ?m = "bindE (prepare_task oe tid (tr_request r)) (execute_task oe tid (tr_request r))"
  have run: "run_task oe tid w = finallyE ?m (cleanup_task oe tid (tr_request r)) w"
    using assms(3,4) r by (simp add: run_task_def thenE_step bindE_step load_request_def)
  have "snd (finallyE ?m (cleanup_task oe tid (tr_request r)) w) = snd (cleanup_task oe tid (tr_request r) (snd (?m w)))"
    by (auto simp: finallyE_def split: prod.splits sum.splits)
  then show ?thesis using cleanup_drops_policy [OF assms(1,2)] by (simp add: run is_allowed_def)
qed

section \<open>Witnesses\<close>

definition ex_docker :: docker_api where
  "ex_docker = \<lparr>dk_list = (\<lambda>_ _. retE []), dk_run = (\<lambda>_. retE \<lparr>ct_id = ''c1'', ct_labels = []\<rparr>),
     dk_stop = (\<lambda>_ _. retE ()), dk_remove = (\<lambda>_ _. retE ()), dk_network_get = (\<lambda>_. retE False),
     dk_network_remove = (\<lambda>_. retE ()), dk_network_create = (\<lambda>_ _. retE ()), dk_resolve = id\<rparr>"

definition ex_orch :: "settings \<Rightarrow> orch_env" where
  "ex_orch st = \<lparr>oe_settings = st, oe_docker = ex_docker, oe_prepare_workspace = (\<lambda>_ _ _. retE ''/w''),
     oe_cleanup_workspace = (\<lambda>_. retE ()), oe_probe = (\<lambda>_ _. retE (200, True)),
     oe_drive = (\<lambda>_ _ _ _. retE ()), oe_free_port = retE 40000, oe_token_hex = retE ''secret'', oe_environ = []\<rparr>"

lemma ex_orch_cleanup: "cleanup_calls_ok (ex_orch st)"
  by (simp add: cleanup_calls_ok_def ex_orch_def ex_docker_def raises_ret)

definition ex_local_world :: world where
  "ex_local_world = ex_world\<lparr>w_db := (w_db ex_world)\<lparr>db_tasks :=
     [ex_task_row\<lparr>tr_request := (tr_request ex_task_row)\<lparr>rq_workspace := default_workspace\<lparr>ws_kind := ''local''\<rparr>\<rparr>\<rparr>]\<rparr>\<rparr>"

lemma host_mount_is_refused_witness:
  "fst (run_task (ex_orch (default_settings ''s'')) ''t1'' ex_local_world) = Inl host_mount_error"
  using host_mount_is_refused [of ex_local_world "''t1''"
      "ex_task_row\<lparr>tr_request := (tr_request ex_task_row)\<lparr>rq_workspace := default_workspace\<lparr>ws_kind := ''local''\<rparr>\<rparr>\<rparr>"
      "ex_orch (default_settings ''s'')"] cleanup_quiet [OF ex_orch_cleanup]
  by (simp add: ex_local_world_def ex_world_def init_world_def find_task_def ex_task_row_def is_local_def
      ex_orch_def default_settings_def)

lemma policy_is_gone_witness:
  "\<not> is_allowed (Some ''t1'') ''pypi.org'' None
     (w_policies (snd (run_task (ex_orch ((default_settings ''s'')\<lparr>st_broker_enabled := True\<rparr>)) ''t1'' ex_world)))"
  using policy_is_gone_after_the_task [OF ex_orch_cleanup, of "(default_settings ''s'')\<lparr>st_broker_enabled := True\<rparr>" ex_world "''t1''"]
  by (simp add: ex_orch_def)

lemma extra_env_witness:
  "\<exists>env. build_container_env ''t1'' (minimal_request ''t1'' M_plan_first []\<lparr>rq_env_policy :=
        default_env_policy\<lparr>env_extra_env := [(''OPENCODE_PERMISSION'', ''x'')]\<rparr>\<rparr>)
      (default_settings ''s'') [] ''pw'' = Inr env \<and>
    map_of env ''OPENCODE_PERMISSION'' = Some (Env_json (JObj plan_first_permissions))"
proof -
  let ?rq = "minimal_request ''t1'' M_plan_first []\<lparr>rq_env_policy :=
        default_env_policy\<lparr>env_extra_env := [(''OPENCODE_PERMISSION'', ''x'')]\<rparr>\<rparr>"
  have perm: "build_permission_json (prof_permission_template (rq_profile ?rq)) (prof_permission_overrides (rq_profile ?rq)) =
      Inr (JObj plan_first_permissions)"
    by (simp add: build_permission_json_def minimal_request_def default_profile_def)
  have "\<exists>env. build_container_env ''t1'' ?rq (default_settings ''s'') [] ''pw'' = Inr env"
    by (simp add: build_container_env_def config_content_def build_permission_json_def minimal_request_def default_profile_def)
  then obtain env where env: "build_container_env ''t1'' ?rq (default_settings ''s'') [] ''pw'' = Inr env" by blast
  show ?thesis
    using extra_env_cannot_touch_opencode_variables [OF env] env perm
    by (simp add: default_env_policy_def)
qed

end
