(* ===== verification/Startup.thy ===== *)
theory Startup
  imports Task_Queue Sandbox
begin

text \<open>
  Start and stop of the process: \<open>src/worker/orchestrator/recovery.py\<close> and the lifespan of
  \<open>src/worker/main.py\<close>. At start the reaper removes the containers of a crashed worker and marks
  their tasks failed; the recovery scan marks every other task that is not terminal. At stop the
  background coroutines are cancelled and the database is closed.
\<close>

section \<open>Recovery\<close>

definition mark_failed :: "string \<Rightarrow> (string \<times> json) list \<Rightarrow> unit io" where
  "mark_failed tid payload =
     thenE (update_task_status tid S_failed)
       (bindE (insert_event tid K_task_failed payload) (\<lambda>_. retE ()))"

definition orphan_payload :: "(string \<times> json) list" where
  "orphan_payload = [(''error'', JStr ''orphaned_after_worker_restart''), (''error_type'', JStr ''WorkerRestartOrphan'')]"

fun recover_each :: "string list \<Rightarrow> (string \<times> string option) list \<Rightarrow> string list io" where
  "recover_each reaped [] = retE []"
| "recover_each reaped ((tid, c) # rest) =
     (if tid \<in> set reaped then recover_each reaped rest
      else bindE (tryE (thenE (mark_failed tid orphan_payload) (retE [tid]))
                    (\<lambda>e. if is_Exception e then retE [] else raiseE e)) (\<lambda>here.
           bindE (recover_each reaped rest) (\<lambda>more. retE (here @ more))))"

definition recover_orphaned_tasks :: "string list \<Rightarrow> string list io" where
  "recover_orphaned_tasks reaped =
     thenE get_db (bindE list_non_terminal_tasks (recover_each reaped))"

section \<open>The lifespan\<close>

definition reap_and_mark :: "docker_api \<Rightarrow> string list io" where
  "reap_and_mark dk =
     bindE (tryE (reap_orphaned_containers dk) (\<lambda>e. if is_Exception e then retE [] else raiseE e)) (\<lambda>reaped.
     thenE (tryE (whenE (reaped \<noteq> [])
              (thenE get_db (forE reaped (\<lambda>tid.
                 tryE (mark_failed tid [(''error'', JStr ''orphaned_after_worker_restart'')]) swallow)))) swallow)
       (retE reaped))"

definition startup :: "docker_api \<Rightarrow> unit io" where
  "startup dk =
     thenE init_db (
     bindE (reap_and_mark dk) (\<lambda>reaped.
     tryE (bindE (recover_orphaned_tasks reaped) (\<lambda>_. retE ())) swallow))"

text \<open>\<open>queue_wait\<close> and \<open>gc_wait\<close> are the outcomes of awaiting the two cancelled coroutines. Both
  are endless loops that let the cancellation through.\<close>

definition shutdown :: "unit io \<Rightarrow> unit io \<Rightarrow> unit io \<Rightarrow> unit io" where
  "shutdown queue_wait gc_wait close_docker =
     thenE (tryE queue_wait swallow) (
     thenE (tryE gc_wait swallow) (
     thenE (tryE close_docker swallow) close_db))"

section \<open>What recovery does\<close>

lemma mark_failed_run:
  assumes "w_faults w = []" and "fk_ok tid (w_db w)"
  shows "\<exists>w' r. mark_failed tid payload w = (Inr (), w') \<and> w_faults w' = [] \<and> w_clock w' = w_clock w \<and>
    w_connected w' = w_connected w \<and> db_foreign_keys (w_db w') = db_foreign_keys (w_db w) \<and>
    db_tasks (w_db w') = update_where (\<lambda>r. tr_id r = tid) (set_task_status S_failed None None (w_clock w)) (db_tasks (w_db w)) \<and>
    db_events (w_db w') = db_events (w_db w) @ [r] \<and> er_task_id r = tid \<and> er_kind r = ''task_failed''"
proof -
  let ?w1 = "snd (update_task_status tid S_failed w)"
  have w1: "update_task_status tid S_failed w = (Inr (), ?w1)" "w_faults ?w1 = []" "w_clock ?w1 = w_clock w"
    "w_connected ?w1 = w_connected w" "db_foreign_keys (w_db ?w1) = db_foreign_keys (w_db w)"
    "db_tasks (w_db ?w1) = update_where (\<lambda>r. tr_id r = tid) (set_task_status S_failed None None (w_clock w)) (db_tasks (w_db w))"
    "db_events (w_db ?w1) = db_events (w_db w)" "fk_ok tid (w_db ?w1)"
    using assms by (simp_all add: update_status_run fk_ok_update_tasks)
  note ev = insert_event_run [OF w1(2,8), of K_task_failed payload]
  obtain x where x: "insert_event tid K_task_failed payload ?w1 = (Inr x, snd (insert_event tid K_task_failed payload ?w1))"
    using ev(1) by (metis prod.collapse)
  have "mark_failed tid payload w = (Inr (), snd (insert_event tid K_task_failed payload ?w1))"
    unfolding mark_failed_def using w1(1) x by (simp add: thenE_step bindE_step retE_def)
  then show ?thesis using w1 ev by (simp add: new_event_row_def)
qed

lemma marked_map:
  assumes "tid \<notin> T"
  shows "map (\<lambda>r. if tr_id r \<in> T then set_task_status S_failed None None now r else r)
     (update_where (\<lambda>r. tr_id r = tid) (set_task_status S_failed None None now) rs) =
   map (\<lambda>r. if tr_id r \<in> insert tid T then set_task_status S_failed None None now r else r) rs"
  using assms by (auto simp: update_where_def set_task_status_def)

lemma fk_ok_foreign: "fk_ok tid d \<Longrightarrow> map tr_id (db_tasks d') = map tr_id (db_tasks d) \<Longrightarrow>
    db_foreign_keys d' = db_foreign_keys d \<Longrightarrow> fk_ok tid d'"
  unfolding fk_ok_def task_exists_def by (metis list.set_map)

lemma recover_each_run:
  assumes "w_faults w = []" and "\<forall>t \<in> fst ` set ps. fk_ok t (w_db w)" and "distinct (map fst ps)"
  shows "\<exists>w' rs. recover_each reaped ps w = (Inr (filter (\<lambda>t. t \<notin> set reaped) (map fst ps)), w') \<and>
    db_tasks (w_db w') =
      map (\<lambda>r. if tr_id r \<in> set (filter (\<lambda>t. t \<notin> set reaped) (map fst ps))
               then set_task_status S_failed None None (w_clock w) r else r) (db_tasks (w_db w)) \<and>
    db_events (w_db w') = db_events (w_db w) @ rs \<and>
    map er_task_id rs = filter (\<lambda>t. t \<notin> set reaped) (map fst ps) \<and> (\<forall>r \<in> set rs. er_kind r = ''task_failed'')"
  using assms
proof (induction ps arbitrary: w)
  case Nil
  then show ?case by (simp add: retE_def)
next
  case (Cons p ps)
  obtain tid c where p: "p = (tid, c)" by (cases p)
  show ?case
  proof (cases "tid \<in> set reaped")
    case True
    then show ?thesis using Cons.IH [OF Cons.prems(1)] Cons.prems(2,3) by (simp add: p)
  next
    case False
    obtain w1 r where w1: "mark_failed tid orphan_payload w = (Inr (), w1)" "w_faults w1 = []" "w_clock w1 = w_clock w"
      "db_foreign_keys (w_db w1) = db_foreign_keys (w_db w)"
      "db_tasks (w_db w1) = update_where (\<lambda>r. tr_id r = tid) (set_task_status S_failed None None (w_clock w)) (db_tasks (w_db w))"
      "db_events (w_db w1) = db_events (w_db w) @ [r]" "er_task_id r = tid" "er_kind r = ''task_failed''"
      using mark_failed_run [OF Cons.prems(1), of tid orphan_payload] Cons.prems(2) p by auto
    have "map tr_id (db_tasks (w_db w1)) = map tr_id (db_tasks (w_db w))"
      unfolding w1(5) by (rule map_update_where) (simp add: set_task_status_def)
    then have fk: "\<forall>t \<in> fst ` set ps. fk_ok t (w_db w1)"
      using Cons.prems(2) fk_ok_foreign w1(4) by auto
    obtain w2 rs where w2:
      "recover_each reaped ps w1 = (Inr (filter (\<lambda>t. t \<notin> set reaped) (map fst ps)), w2)"
      "db_tasks (w_db w2) = map (\<lambda>r. if tr_id r \<in> set (filter (\<lambda>t. t \<notin> set reaped) (map fst ps))
          then set_task_status S_failed None None (w_clock w) r else r) (db_tasks (w_db w1))"
      "db_events (w_db w2) = db_events (w_db w1) @ rs" "map er_task_id rs = filter (\<lambda>t. t \<notin> set reaped) (map fst ps)"
      "\<forall>r \<in> set rs. er_kind r = ''task_failed''"
      using Cons.IH [OF w1(2) fk] Cons.prems(3) w1(3) by auto
    have "tryE (thenE (mark_failed tid orphan_payload) (retE [tid]))
        (\<lambda>e. if is_Exception e then retE [] else raiseE e) w = (Inr [tid], w1)"
      using w1(1) by (simp add: tryE_def thenE_def bindE_def retE_def)
    then have "recover_each reaped (p # ps) w = (Inr (tid # filter (\<lambda>t. t \<notin> set reaped) (map fst ps)), w2)"
      using False w2(1) by (simp add: p bindE_step retE_def)
    moreover have "tid \<notin> set (filter (\<lambda>t. t \<notin> set reaped) (map fst ps))" using Cons.prems(3) p by auto
    note marked_map [OF this, of "w_clock w" "db_tasks (w_db w)"]
    ultimately show ?thesis
      using w2 w1(5-8) False by (intro exI [of _ w2] exI [of _ "r # rs"]) (simp add: p)
  qed
qed


section \<open>The reaper does not look at the task\<close>

text \<open>The start-up code marks the task of every container the reaper removed as failed,
  whatever its status: \<open>mark_failed\<close> raises nothing for a task that is already terminal, so a
  completed task whose stopped container was left behind becomes failed and gets a second
  terminal event.\<close>

theorem reaper_overwrites_terminal_tasks:
  assumes "w_connected w" and "w_faults w = []" and "find_task tid (w_db w) = Some r" and "fk_ok tid (w_db w)"
    and "reap_orphaned_containers dk w = (Inr [tid], w)"
  shows "\<exists>w' ev. reap_and_mark dk w = (Inr [tid], w') \<and>
    map_option tr_status (find_task tid (w_db w')) = Some ''failed'' \<and>
    db_events (w_db w') = db_events (w_db w) @ [ev] \<and> er_task_id ev = tid \<and> er_kind ev = ''task_failed''"
proof -
  let ?p = "[(''error'', JStr ''orphaned_after_worker_restart'')]"
  obtain w1 ev where w1: "mark_failed tid ?p w = (Inr (), w1)"
    "db_tasks (w_db w1) = update_where (\<lambda>r. tr_id r = tid) (set_task_status S_failed None None (w_clock w)) (db_tasks (w_db w))"
    "db_events (w_db w1) = db_events (w_db w) @ [ev]" "er_task_id ev = tid" "er_kind ev = ''task_failed''"
    using mark_failed_run [OF assms(2,4)] by blast
  have "forE [tid] (\<lambda>tid. tryE (mark_failed tid ?p) swallow) w = (Inr (), w1)"
    using w1(1) by (simp add: tryE_def thenE_def bindE_def retE_def)
  then have "tryE (whenE ([tid] \<noteq> []) (thenE get_db (forE [tid] (\<lambda>tid. tryE (mark_failed tid ?p) swallow)))) swallow w =
      (Inr (), w1)"
    using assms(1) by (intro tryE_ok) (simp add: whenE_def thenE_step)
  then have "reap_and_mark dk w = (Inr [tid], w1)"
    using assms(5) by (simp add: reap_and_mark_def bindE_def tryE_def thenE_def retE_def)
  moreover have "map_option tr_status (find_task tid (w_db w1)) = Some ''failed''"
    using find_updated_task [where tid = tid and d = "w_db w" and st = S_failed and c = None and s = None
        and now = "w_clock w"] assms(3)
    by (simp add: find_task_def w1(2))
  ultimately show ?thesis using w1(3-5) by blast
qed

section \<open>Stopping\<close>

text \<open>Awaiting the cancelled queue worker raises \<open>CancelledError\<close>, which \<open>except Exception\<close>
  does not catch: the shutdown stops there, and the database connection is never closed.\<close>

theorem shutdown_never_closes_the_database:
  "shutdown (raiseE CancelledError) gc_wait close_docker w = (Inl CancelledError, w) \<and>
   w_connected (snd (shutdown (raiseE CancelledError) gc_wait close_docker w)) = w_connected w"
  by (simp add: shutdown_def tryE_def swallow_def raiseE_def thenE_stop)

section \<open>Witnesses\<close>


definition one_dead_container :: docker_api where
  "one_dead_container = \<lparr>dk_list = (\<lambda>_ _. retE [\<lparr>ct_id = ''c1'', ct_labels = task_labels ''t1''\<rparr>]),
     dk_run = (\<lambda>_. raiseE CancelledError), dk_stop = (\<lambda>_ _. retE ()), dk_remove = (\<lambda>_ _. retE ()),
     dk_network_get = (\<lambda>_. retE False), dk_network_remove = (\<lambda>_. retE ()), dk_network_create = (\<lambda>_ _. retE ()),
     dk_resolve = id\<rparr>"

definition ex_completed_world :: world where
  "ex_completed_world = ex_world\<lparr>w_db := (w_db ex_world)\<lparr>db_tasks := [ex_task_row\<lparr>tr_status := ''completed''\<rparr>]\<rparr>\<rparr>"

lemma reaper_overwrites_terminal_tasks_witness:
  "map_option tr_status (find_task ''t1'' (w_db ex_completed_world)) = Some ''completed'' \<and>
   (\<exists>w'. reap_and_mark one_dead_container ex_completed_world = (Inr [''t1''], w') \<and>
      map_option tr_status (find_task ''t1'' (w_db w')) = Some ''failed'')"
proof -
  have reap: "reap_orphaned_containers one_dead_container ex_completed_world = (Inr [''t1''], ex_completed_world)"
    by (simp add: reap_orphaned_containers_def one_dead_container_def comp_defs container_task_id_def
        task_labels_def TASK_ID_LABEL_def WORKER_LABEL_def)
  have "w_connected ex_completed_world" "w_faults ex_completed_world = []" "fk_ok ''t1'' (w_db ex_completed_world)"
    "find_task ''t1'' (w_db ex_completed_world) = Some (ex_task_row\<lparr>tr_status := ''completed''\<rparr>)"
    by (simp_all add: ex_completed_world_def ex_world_def init_world_def find_task_def ex_task_row_def fk_ok_def)
  from reaper_overwrites_terminal_tasks [OF this(1,2,4,3) reap] this(4) show ?thesis by auto
qed

end
