(* ===== verification/Event_Lock.thy ===== *)
theory Event_Lock
  imports Repo_Laws
begin

text \<open>
  The interleavings of \<open>insert_event\<close> (\<open>src/worker/storage/repo.py\<close>). Each coroutine
  fetches the lock object of its task, acquires it, reads \<open>MAX(event_id) + 1\<close>, inserts the row
  and releases the lock; another coroutine may run at every \<open>await\<close>. A step is labelled by
  what ran. \<open>discard_task_locks\<close> may run between any two steps; the flag \<open>g\<close> of the relation
  says whether it waits until no coroutine of the task is inside \<open>insert_event\<close>, which the
  code does not check.
\<close>

section \<open>Coroutines and steps\<close>

datatype co_phase =
    P_start
  | P_wait nat
  | P_hold nat
  | P_read nat int
  | P_done int
  | P_raised exn

record lock_state =
  ls_db :: db
  ls_locks :: lock_table
  ls_held :: "nat set"
  ls_co :: "nat \<Rightarrow> co_phase"

fun in_flight :: "co_phase \<Rightarrow> bool" where
  "in_flight (P_wait l) = True"
| "in_flight (P_hold l) = True"
| "in_flight (P_read l n) = True"
| "in_flight _ = False"

fun lock_of :: "co_phase \<Rightarrow> nat option" where
  "lock_of (P_wait l) = Some l"
| "lock_of (P_hold l) = Some l"
| "lock_of (P_read l n) = Some l"
| "lock_of _ = None"

fun holds :: "co_phase \<Rightarrow> nat option" where
  "holds (P_hold l) = Some l"
| "holds (P_read l n) = Some l"
| "holds _ = None"

inductive lock_step :: "(nat \<Rightarrow> string) \<Rightarrow> bool \<Rightarrow> lock_state \<Rightarrow> lock_state \<Rightarrow> bool"
  for task_of :: "nat \<Rightarrow> string" and g :: bool where
  get_lock: "ls_co s i = P_start \<Longrightarrow> get_event_lock (task_of i) (ls_locks s) = (l, t) \<Longrightarrow>
    lock_step task_of g s (s\<lparr>ls_locks := t, ls_co := (ls_co s)(i := P_wait l)\<rparr>)"
| acquire: "ls_co s i = P_wait l \<Longrightarrow> l \<notin> ls_held s \<Longrightarrow>
    lock_step task_of g s (s\<lparr>ls_held := insert l (ls_held s), ls_co := (ls_co s)(i := P_hold l)\<rparr>)"
| read_max: "ls_co s i = P_hold l \<Longrightarrow>
    lock_step task_of g s (s\<lparr>ls_co := (ls_co s)(i := P_read l (next_event_id (task_of i) (ls_db s)))\<rparr>)"
| insert_row: "ls_co s i = P_read l n \<Longrightarrow> er_task_id r = task_of i \<Longrightarrow> er_event_id r = n \<Longrightarrow>
    event_violation r (ls_db s) = None \<Longrightarrow>
    lock_step task_of g s (s\<lparr>ls_db := (ls_db s)\<lparr>db_events := db_events (ls_db s) @ [r]\<rparr>,
      ls_held := ls_held s - {l}, ls_co := (ls_co s)(i := P_done n)\<rparr>)"
| violate: "ls_co s i = P_read l n \<Longrightarrow> er_task_id r = task_of i \<Longrightarrow> er_event_id r = n \<Longrightarrow>
    event_violation r (ls_db s) = Some e \<Longrightarrow>
    lock_step task_of g s (s\<lparr>ls_held := ls_held s - {l}, ls_co := (ls_co s)(i := P_raised e)\<rparr>)"
| refuse: "holds (ls_co s i) = Some l \<Longrightarrow>
    lock_step task_of g s (s\<lparr>ls_held := ls_held s - {l},
      ls_co := (ls_co s)(i := P_raised (OperationalError ''database is locked''))\<rparr>)"
| discard_locks: "(g \<Longrightarrow> \<forall>i. task_of i = tid \<longrightarrow> \<not> in_flight (ls_co s i)) \<Longrightarrow>
    lock_step task_of g s (s\<lparr>ls_locks := discard_lock tid (ls_locks s)\<rparr>)"

inductive_cases lock_stepE: "lock_step task_of g s s'"

inductive lock_reach :: "(nat \<Rightarrow> string) \<Rightarrow> bool \<Rightarrow> lock_state \<Rightarrow> lock_state \<Rightarrow> bool"
  for task_of :: "nat \<Rightarrow> string" and g :: bool and s0 :: lock_state where
  refl: "lock_reach task_of g s0 s0"
| step: "lock_reach task_of g s0 s \<Longrightarrow> lock_step task_of g s s' \<Longrightarrow> lock_reach task_of g s0 s'"

definition lock_init :: "db \<Rightarrow> lock_state" where
  "lock_init d = \<lparr>ls_db = d, ls_locks = \<lparr>lk_registry = [], lk_next = 0\<rparr>, ls_held = {}, ls_co = (\<lambda>_. P_start)\<rparr>"

section \<open>The invariant of the guarded protocol\<close>

definition registry_ok :: "lock_table \<Rightarrow> bool" where
  "registry_ok t \<longleftrightarrow> (\<forall>a l. map_of (lk_registry t) a = Some l \<longrightarrow> l < lk_next t) \<and>
     (\<forall>a b l. map_of (lk_registry t) a = Some l \<longrightarrow> map_of (lk_registry t) b = Some l \<longrightarrow> a = b)"

definition lock_inv :: "(nat \<Rightarrow> string) \<Rightarrow> lock_state \<Rightarrow> bool" where
  "lock_inv task_of s \<longleftrightarrow> registry_ok (ls_locks s) \<and>
     (\<forall>i l. lock_of (ls_co s i) = Some l \<longrightarrow> map_of (lk_registry (ls_locks s)) (task_of i) = Some l) \<and>
     (\<forall>i l. holds (ls_co s i) = Some l \<longrightarrow> l \<in> ls_held s) \<and>
     (\<forall>i j l. holds (ls_co s i) = Some l \<longrightarrow> holds (ls_co s j) = Some l \<longrightarrow> i = j) \<and>
     (\<forall>i l n. ls_co s i = P_read l n \<longrightarrow> n = next_event_id (task_of i) (ls_db s)) \<and>
     (\<forall>i e. ls_co s i = P_raised e \<longrightarrow> e = OperationalError ''database is locked'' \<or>
        e = IntegrityError ''FOREIGN KEY constraint failed'') \<and>
     (\<forall>tid. numbered (events_of tid (ls_db s)))"

lemma lock_invD:
  assumes "lock_inv task_of s"
  shows "registry_ok (ls_locks s)"
    and "\<And>i l. lock_of (ls_co s i) = Some l \<Longrightarrow> map_of (lk_registry (ls_locks s)) (task_of i) = Some l"
    and "\<And>i l. holds (ls_co s i) = Some l \<Longrightarrow> l \<in> ls_held s"
    and "\<And>i j l. holds (ls_co s i) = Some l \<Longrightarrow> holds (ls_co s j) = Some l \<Longrightarrow> i = j"
    and "\<And>i l n. ls_co s i = P_read l n \<Longrightarrow> n = next_event_id (task_of i) (ls_db s)"
    and "\<And>i e. ls_co s i = P_raised e \<Longrightarrow> e = OperationalError ''database is locked'' \<or>
        e = IntegrityError ''FOREIGN KEY constraint failed''"
    and "\<And>tid. numbered (events_of tid (ls_db s))"
  using assms unfolding lock_inv_def by blast+

lemma holds_lock_of: "holds p = Some l \<Longrightarrow> lock_of p = Some l"
  by (cases p) simp_all

lemma registry_ok_get:
  assumes "registry_ok t" and "get_event_lock tid t = (l, t')"
  shows "registry_ok t'" and "map_of (lk_registry t') tid = Some l"
    and "map_of (lk_registry t) a = Some k \<Longrightarrow> map_of (lk_registry t') a = Some k"
proof -
  have fresh: "map_of (lk_registry t) b \<noteq> Some (lk_next t)" for b
    using assms(1) unfolding registry_ok_def by blast
  show "registry_ok t'" and "map_of (lk_registry t') tid = Some l"
    and "map_of (lk_registry t) a = Some k \<Longrightarrow> map_of (lk_registry t') a = Some k"
    using assms fresh
    by (auto simp: registry_ok_def get_event_lock_def less_Suc_eq split: option.splits if_splits)
qed

lemma registry_ok_discard: "registry_ok t \<Longrightarrow> registry_ok (discard_lock tid t)"
  by (auto simp: registry_ok_def discard_lock_def split: if_splits)

lemma violation_of_fresh:
  "er_event_id r = next_event_id (er_task_id r) d \<Longrightarrow> event_violation r d = Some e \<Longrightarrow>
   e = IntegrityError ''FOREIGN KEY constraint failed''"
  using next_event_id_fresh [of "er_task_id r" d] by (auto simp: event_violation_def split: if_splits)

lemma events_of_append: "events_of tid (d\<lparr>db_events := db_events d @ [r]\<rparr>) =
    events_of tid d @ (if er_task_id r = tid then [r] else [])"
  by (simp add: events_of_def)

lemma next_event_id_other:
  "er_task_id r \<noteq> tid \<Longrightarrow> next_event_id tid (d\<lparr>db_events := db_events d @ [r]\<rparr>) = next_event_id tid d"
  by (simp add: next_event_id_def events_of_append)

lemma lock_inv_init: "events_ok d \<Longrightarrow> lock_inv task_of (lock_init d)"
  by (simp add: lock_inv_def lock_init_def registry_ok_def events_ok_def)

lemma lock_inv_step:
  assumes "lock_step task_of True s s'" and "lock_inv task_of s"
  shows "lock_inv task_of s'"
  using assms(1)
proof cases
  case (get_lock i l t)
  note inv = lock_invD [OF assms(2)]
  note reg = registry_ok_get [OF inv(1) get_lock(3)]
  show ?thesis
    unfolding lock_inv_def get_lock(1)
    using get_lock(2) reg inv by (auto split: if_splits)
next
  case (acquire i l)
  note inv = lock_invD [OF assms(2)]
  have "\<And>j. holds (ls_co s j) \<noteq> Some l" using inv(3) acquire(3) by blast
  then show ?thesis
    unfolding lock_inv_def acquire(1) using acquire(2) inv by (auto split: if_splits)
next
  case (read_max i l)
  note inv = lock_invD [OF assms(2)]
  show ?thesis
    unfolding lock_inv_def read_max(1)
    using read_max(2) inv(1-7) inv(3) [of i l] inv(2) [of i l] inv(4) [of i l] inv(4) [of _ l i]
    by (auto split: if_splits)
next
  case (insert_row i l n r)
  note inv = lock_invD [OF assms(2)]
  have mine: "lock_of (ls_co s j) = Some l \<Longrightarrow> task_of j = task_of i" for j
    using inv(1,2) insert_row(2) unfolding registry_ok_def by (metis lock_of.simps(3))
  have only: "holds (ls_co s j) = Some l \<Longrightarrow> j = i" for j
    using inv(4) insert_row(2) by (metis holds.simps(2))
  have other: "task_of j \<noteq> task_of i" if "ls_co s j = P_read k m" "j \<noteq> i" for j k m
  proof
    assume "task_of j = task_of i"
    then have "k = l" using inv(2) [of j k] inv(2) [of i l] that(1) insert_row(2) by simp
    then show False using only [of j] that by simp
  qed
  have num: "numbered (events_of tid (ls_db s))" for tid by (rule inv(7))
  have n: "n = int (Suc (length (events_of (task_of i) (ls_db s))))"
    using inv(5) [OF insert_row(2)] num by (simp add: next_event_id_def coalesce_max_numbered)
  have num': "numbered (events_of tid (ls_db s'))" for tid
    using num n insert_row(3,4) by (auto simp: insert_row(1) events_of_append intro: numbered_snoc)
  have nxt: "m = next_event_id (task_of j) (ls_db s')" if "ls_co s j = P_read k m" "j \<noteq> i" for j k m
    using inv(5) [OF that(1)] other [OF that] insert_row(3)
    by (simp add: insert_row(1) next_event_id_other)
  have held: "holds (ls_co s j) = Some k \<Longrightarrow> j \<noteq> i \<Longrightarrow> k \<in> ls_held s - {l}" for j k
    using inv(3) only by blast
  show ?thesis
    unfolding lock_inv_def using num' nxt held inv(1,2,4,6)
    by (auto simp: insert_row(1) split: if_splits)
next
  case (violate i l n r e)
  note inv = lock_invD [OF assms(2)]
  have only: "holds (ls_co s j) = Some l \<Longrightarrow> j = i" for j
    using inv(4) violate(2) by (metis holds.simps(2))
  have e: "e = IntegrityError ''FOREIGN KEY constraint failed''"
    using violation_of_fresh [of r "ls_db s" e] inv(5) [OF violate(2)] violate by simp
  have held: "holds (ls_co s j) = Some k \<Longrightarrow> j \<noteq> i \<Longrightarrow> k \<in> ls_held s - {l}" for j k
    using inv(3) only by blast
  show ?thesis
    unfolding lock_inv_def violate(1) using e held inv by (auto split: if_splits)
next
  case (refuse i l)
  note inv = lock_invD [OF assms(2)]
  have only: "holds (ls_co s j) = Some l \<Longrightarrow> j = i" for j using inv(4) refuse(2) by blast
  have held: "holds (ls_co s j) = Some k \<Longrightarrow> j \<noteq> i \<Longrightarrow> k \<in> ls_held s - {l}" for j k
    using inv(3) only by blast
  show ?thesis
    unfolding lock_inv_def refuse(1) using held inv by (auto split: if_splits)
next
  case (discard_locks tid)
  note inv = lock_invD [OF assms(2)]
  have "lock_of (ls_co s i) = Some l \<Longrightarrow> in_flight (ls_co s i)" for i l by (cases "ls_co s i") simp_all
  then have "lock_of (ls_co s i) = Some l \<Longrightarrow> task_of i \<noteq> tid" for i l using discard_locks(2) by blast
  then show ?thesis
    unfolding lock_inv_def discard_locks(1) using inv registry_ok_discard [OF inv(1)]
    by (auto simp: discard_lock_def)
qed

lemma lock_inv_reach: "lock_reach task_of True s0 s \<Longrightarrow> lock_inv task_of s0 \<Longrightarrow> lock_inv task_of s"
  by (induction rule: lock_reach.induct) (auto intro: lock_inv_step)

section \<open>The lock serialises, unless it is discarded under its holder\<close>

definition unique_error :: exn where
  "unique_error = IntegrityError ''UNIQUE constraint failed: task_events.task_id, task_events.event_id''"


text \<open>The schedule in which the queue discards the lock of a task while one of its coroutines
  waits for SQLite inside \<open>insert_event\<close>.\<close>

definition race_row :: event_row where
  "race_row = \<lparr>er_event_id = 1, er_task_id = ''t1'', er_kind = ''heartbeat'',
     er_payload = JText (JObj []), er_ts = 1\<rparr>"

definition race_state :: "(string \<times> nat) list \<Rightarrow> nat \<Rightarrow> nat set \<Rightarrow> co_phase \<Rightarrow> co_phase \<Rightarrow> event_row list \<Rightarrow> lock_state" where
  "race_state reg nxt h p q rs = \<lparr>ls_db = empty_db\<lparr>db_events := rs\<rparr>,
     ls_locks = \<lparr>lk_registry = reg, lk_next = nxt\<rparr>, ls_held = h, ls_co = (\<lambda>_. P_start)(0 := p, 1 := q)\<rparr>"

abbreviation race_step :: "lock_state \<Rightarrow> lock_state \<Rightarrow> bool" where
  "race_step \<equiv> lock_step (\<lambda>_. ''t1'') False"

lemma lock_step_eq: "lock_step f g s t \<Longrightarrow> t = s' \<Longrightarrow> lock_step f g s s'"
  by simp

lemma race_init: "lock_init empty_db = race_state [] 0 {} P_start P_start []"
  by (simp add: lock_init_def race_state_def empty_db_def fun_eq_iff)

lemmas race_simps = race_state_def fun_eq_iff get_event_lock_def discard_lock_def dict_pop_def
  next_event_id_def events_of_def empty_db_def event_violation_def race_row_def fk_ok_def unique_error_def

lemma race_1: "race_step (race_state [] 0 {} P_start P_start []) (race_state [(''t1'', 0)] 1 {} (P_wait 0) P_start [])"
  by (rule lock_step_eq [OF get_lock [where i = 0]]) (auto simp: race_simps)

lemma race_2: "race_step (race_state [(''t1'', 0)] 1 {} (P_wait 0) P_start [])
    (race_state [(''t1'', 0)] 1 {0} (P_hold 0) P_start [])"
  by (rule lock_step_eq [OF acquire [where i = 0 and l = 0]]) (auto simp: race_simps)

lemma race_3: "race_step (race_state [(''t1'', 0)] 1 {0} (P_hold 0) P_start [])
    (race_state [(''t1'', 0)] 1 {0} (P_read 0 1) P_start [])"
  by (rule lock_step_eq [OF read_max [where i = 0 and l = 0]]) (auto simp: race_simps)

lemma race_4: "race_step (race_state [(''t1'', 0)] 1 {0} (P_read 0 1) P_start [])
    (race_state [] 1 {0} (P_read 0 1) P_start [])"
  by (rule lock_step_eq [OF discard_locks [where tid = "''t1''"]]) (auto simp: race_simps)

lemma race_5: "race_step (race_state [] 1 {0} (P_read 0 1) P_start [])
    (race_state [(''t1'', 1)] 2 {0} (P_read 0 1) (P_wait 1) [])"
  by (rule lock_step_eq [OF get_lock [where i = 1]]) (auto simp: race_simps)

lemma race_6: "race_step (race_state [(''t1'', 1)] 2 {0} (P_read 0 1) (P_wait 1) [])
    (race_state [(''t1'', 1)] 2 {1, 0} (P_read 0 1) (P_hold 1) [])"
  by (rule lock_step_eq [OF acquire [where i = 1 and l = 1]]) (auto simp: race_simps)

lemma race_7: "race_step (race_state [(''t1'', 1)] 2 {1, 0} (P_read 0 1) (P_hold 1) [])
    (race_state [(''t1'', 1)] 2 {1, 0} (P_read 0 1) (P_read 1 1) [])"
  by (rule lock_step_eq [OF read_max [where i = 1 and l = 1]]) (auto simp: race_simps)

lemma race_8: "race_step (race_state [(''t1'', 1)] 2 {1, 0} (P_read 0 1) (P_read 1 1) [])
    (race_state [(''t1'', 1)] 2 {1} (P_done 1) (P_read 1 1) [race_row])"
  by (rule lock_step_eq [OF insert_row [where i = 0 and l = 0 and n = 1 and r = race_row]]) (auto simp: race_simps)

lemma race_9: "race_step (race_state [(''t1'', 1)] 2 {1} (P_done 1) (P_read 1 1) [race_row])
    (race_state [(''t1'', 1)] 2 {} (P_done 1) (P_raised unique_error) [race_row])"
  by (rule lock_step_eq [OF violate [where i = 1 and l = 1 and n = 1 and r = race_row and e = unique_error]])
    (auto simp: race_simps)

text \<open>\<open>discard_task_locks\<close> itself checks nothing. If it runs while a coroutine of the task is
  between reading the next event id and inserting the row, a second coroutine gets a new lock,
  reads the same id, and one of the two fails on the UNIQUE constraint.\<close>

theorem unguarded_discard_breaks_lock:
  "\<exists>s. lock_reach (\<lambda>_. ''t1'') False (lock_init empty_db) s \<and> ls_co s 1 = P_raised unique_error"
proof (intro exI conjI)
  show "lock_reach (\<lambda>_. ''t1'') False (lock_init empty_db)
      (race_state [(''t1'', 1)] 2 {} (P_done 1) (P_raised unique_error) [race_row])"
    unfolding race_init
    by (rule lock_reach.step [OF lock_reach.step [OF lock_reach.step [OF lock_reach.step [OF lock_reach.step
        [OF lock_reach.step [OF lock_reach.step [OF lock_reach.step [OF lock_reach.step
          [OF lock_reach.refl race_1] race_2] race_3] race_4] race_5] race_6] race_7] race_8] race_9])
  show "ls_co (race_state [(''t1'', 1)] 2 {} (P_done 1) (P_raised unique_error) [race_row]) 1 = P_raised unique_error"
    by (simp add: race_state_def)
qed


end
