(* ===== verification/Py_Fnmatch.thy ===== *)
theory Py_Fnmatch
  imports Py_Strings
begin

text \<open>
  \<open>fnmatch.fnmatchcase\<close> of the standard library (on POSIX \<open>fnmatch.fnmatch\<close> is the same
  function): \<open>*\<close>, \<open>?\<close>, \<open>[seq]\<close> and \<open>[!seq]\<close> with ranges; a bracket that is never closed
  is an ordinary character, an empty range matches nothing. The driver uses it for the
  auto-approval patterns, the backtest interceptor for its tool pattern.
\<close>

datatype fn_tok = FnStar | FnAny | FnChar char | FnClass bool "(char \<times> char) list"

text \<open>The members of a bracket: a character, or a range \<open>a-b\<close>.\<close>

fun fn_items :: "string \<Rightarrow> (char \<times> char) list" where
  "fn_items [] = []"
| "fn_items (a # s) =
     (case s of
        d # b # r \<Rightarrow> if d = CHR ''-'' then (a, b) # fn_items r else (a, a) # fn_items s
      | _ \<Rightarrow> (a, a) # fn_items s)"

text \<open>The text of a bracket, up to the closing bracket, and what follows it. A \<open>]\<close> that
  stands first is a member.\<close>

definition fn_bracket :: "string \<Rightarrow> (bool \<times> string \<times> string) option" where
  "fn_bracket s =
     (let (neg, s1) = (case s of c # r \<Rightarrow> if c = CHR ''!'' then (True, r) else (False, s) | [] \<Rightarrow> (False, []));
          (lead, s2) = (case s1 of c # r \<Rightarrow> if c = CHR '']'' then ([c], r) else ([], s1) | [] \<Rightarrow> ([], []));
          body = takeWhile (\<lambda>c. c \<noteq> CHR '']'') s2
      in (case dropWhile (\<lambda>c. c \<noteq> CHR '']'') s2 of
            [] \<Rightarrow> None
          | _ # rest \<Rightarrow> Some (neg, lead @ body, rest)))"

lemma fn_bracket_shorter: "fn_bracket s = Some (n, b, r) \<Longrightarrow> length r < length s"
proof -
  assume h: "fn_bracket s = Some (n, b, r)"
  have drop: "dropWhile P xs = y # ys \<Longrightarrow> length ys < length xs" for P :: "char \<Rightarrow> bool" and xs y ys
    by (metis Suc_le_eq length_Cons length_dropWhile_le)
  show ?thesis
    using h
    by (auto simp: fn_bracket_def Let_def split: list.splits if_splits prod.splits dest!: drop)
qed

function fn_parse :: "string \<Rightarrow> fn_tok list" where
  "fn_parse [] = []"
| "fn_parse (c # s) =
     (if c = CHR ''*'' then FnStar # fn_parse s
      else if c = CHR ''?'' then FnAny # fn_parse s
      else if c = CHR ''['' then
        (case fn_bracket s of
           None \<Rightarrow> FnChar c # fn_parse s
         | Some (neg, body, rest) \<Rightarrow> FnClass neg (fn_items body) # fn_parse rest)
      else FnChar c # fn_parse s)"
  by pat_completeness auto
termination
  by (relation "measure length") (auto dest: fn_bracket_shorter)

definition fn_in :: "char \<Rightarrow> (char \<times> char) list \<Rightarrow> bool" where
  "fn_in c is \<longleftrightarrow> (\<exists>(a, b) \<in> set is. (of_char a :: nat) \<le> of_char c \<and> (of_char c :: nat) \<le> of_char b)"

fun fn_match :: "fn_tok list \<Rightarrow> string \<Rightarrow> bool" where
  "fn_match [] s = (s = [])"
| "fn_match (FnStar # ts) [] = fn_match ts []"
| "fn_match (FnStar # ts) (c # s) = (fn_match ts (c # s) \<or> fn_match (FnStar # ts) s)"
| "fn_match (FnAny # ts) s = (case s of [] \<Rightarrow> False | _ # r \<Rightarrow> fn_match ts r)"
| "fn_match (FnChar a # ts) s = (case s of [] \<Rightarrow> False | c # r \<Rightarrow> c = a \<and> fn_match ts r)"
| "fn_match (FnClass neg is # ts) s =
     (case s of [] \<Rightarrow> False | c # r \<Rightarrow> fn_in c is \<noteq> neg \<and> fn_match ts r)"

definition fnmatch :: "string \<Rightarrow> string \<Rightarrow> bool" where
  "fnmatch name pat = fn_match (fn_parse pat) name"

definition fn_plain :: "string \<Rightarrow> bool" where
  "fn_plain s \<longleftrightarrow> (\<forall>c \<in> set s. c \<noteq> CHR ''*'' \<and> c \<noteq> CHR ''?'' \<and> c \<noteq> CHR ''['')"

lemma fn_parse_plain_append: "fn_plain p \<Longrightarrow> fn_parse (p @ s) = map FnChar p @ fn_parse s"
  by (induction p) (auto simp: fn_plain_def)

lemma fn_match_chars: "fn_match (map FnChar p @ ts) s = (\<exists>r. s = p @ r \<and> fn_match ts r)"
  by (induction p arbitrary: s) (auto split: list.splits)

lemma fn_match_star: "fn_match [FnStar] s"
  by (induction s) auto

text \<open>A pattern without wildcards matches its own text only; a plain prefix followed by a star
  matches exactly the names with that prefix.\<close>

lemma fnmatch_plain: "fn_plain p \<Longrightarrow> fnmatch s p = (s = p)"
  using fn_parse_plain_append [of p "[]"] fn_match_chars [of p "[]" s] by (auto simp: fnmatch_def)

lemma fnmatch_prefix_star: "fn_plain p \<Longrightarrow> fnmatch s (p @ ''*'') = starts_with p s"
  by (auto simp: fnmatch_def fn_parse_plain_append fn_match_chars fn_match_star starts_with_iff)

end
