(* ===== verification/Event_Stream.thy ===== *)
theory Event_Stream
  imports Contract
begin

text \<open>
  The events of opencode, \<open>src/worker/adapters/opencode/event_stream.py\<close>: normalisation to the
  worker's event kinds, permission requests, the idle signal and diffs. An event is the
  dictionary the SSE line holds; its values are whatever JSON opencode sends, so each
  \<open>isinstance\<close> test and each attribute access on a wrong type is a branch.
\<close>

type_synonym dict = "(string \<times> json) list"

datatype opencode_event_type =
    OE_server_connected | OE_server_heartbeat | OE_message_updated | OE_message_part_updated
  | OE_message_part_delta | OE_session_updated | OE_session_status | OE_session_diff
  | OE_session_idle | OE_sync

fun oe_value :: "opencode_event_type \<Rightarrow> string" where
  "oe_value OE_server_connected = ''server.connected''"
| "oe_value OE_server_heartbeat = ''server.heartbeat''"
| "oe_value OE_message_updated = ''message.updated''"
| "oe_value OE_message_part_updated = ''message.part.updated''"
| "oe_value OE_message_part_delta = ''message.part.delta''"
| "oe_value OE_session_updated = ''session.updated''"
| "oe_value OE_session_status = ''session.status''"
| "oe_value OE_session_diff = ''session.diff''"
| "oe_value OE_session_idle = ''session.idle''"
| "oe_value OE_sync = ''sync''"

definition has_type :: "dict \<Rightarrow> opencode_event_type \<Rightarrow> bool" where
  "has_type event t \<longleftrightarrow> dict_get event ''type'' (JStr []) = JStr (oe_value t)"

definition event_payload :: "dict \<Rightarrow> json" where
  "event_payload event = dict_get event ''payload'' (JObj [])"

text \<open>\<open>d.get(k)\<close> and \<open>d.get(k1) or d.get(k2) or dflt\<close>.\<close>

definition get_or :: "dict \<Rightarrow> string \<Rightarrow> string \<Rightarrow> json \<Rightarrow> json" where
  "get_or d k1 k2 dflt = py_or (py_or (dict_get d k1 JNull) (dict_get d k2 JNull)) dflt"

section \<open>Normalisation\<close>

record normalized_event =
  ne_kind :: string
  ne_payload :: dict
  ne_raw_type :: string
  ne_raw_payload :: json

fun extract_delta_content :: "json \<Rightarrow> json option" where
  "extract_delta_content (JObj d) =
     (case dict_get d ''part'' (JObj d) of
        JObj part \<Rightarrow> (let v = get_or part ''text'' ''content'' JNull in if v = JNull then None else Some v)
      | _ \<Rightarrow> None)"
| "extract_delta_content _ = None"

text \<open>\<open>" ".join(c.get("text", "") for c in content if isinstance(c, dict))\<close>.\<close>

fun part_texts :: "json list \<Rightarrow> exn + string list" where
  "part_texts [] = Inr []"
| "part_texts (JObj c # cs) =
     (case dict_get c ''text'' (JStr []) of
        JStr s \<Rightarrow> (case part_texts cs of Inl e \<Rightarrow> Inl e | Inr ss \<Rightarrow> Inr (s # ss))
      | _ \<Rightarrow> Inl (TypeError ''sequence item: expected str instance''))"
| "part_texts (_ # cs) = part_texts cs"

definition result_content :: "json \<Rightarrow> exn + json" where
  "result_content v =
     (case v of
        JList cs \<Rightarrow> (case part_texts cs of Inl e \<Rightarrow> Inl e | Inr ss \<Rightarrow> Inr (JStr (str_join '' '' ss)))
      | _ \<Rightarrow> Inr v)"

definition normalize_part_updated :: "json \<Rightarrow> exn + normalized_event option" where
  "normalize_part_updated payload =
     (case payload of
        JObj d \<Rightarrow>
          (case dict_get d ''part'' (JObj []) of
             JObj part \<Rightarrow>
               if dict_get part ''type'' (JStr []) = JStr ''tool-use''
               then Inr (Some \<lparr>ne_kind = ''tool_call_started'',
                      ne_payload = [(''tool'', get_or part ''toolName'' ''tool'' (JStr ''unknown'')),
                        (''args'', get_or part ''input'' ''args'' (JObj [])),
                        (''tool_use_id'', py_or (dict_get part ''toolUseId'' JNull) (dict_get part ''id'' JNull))],
                      ne_raw_type = ''message.part.updated'', ne_raw_payload = payload\<rparr>)
               else if dict_get part ''type'' (JStr []) = JStr ''tool-result''
               then (case result_content (dict_get part ''content'' (JStr [])) of
                       Inl e \<Rightarrow> Inl e
                     | Inr content \<Rightarrow> Inr (Some \<lparr>ne_kind = ''tool_call_finished'',
                         ne_payload = [(''tool_use_id'', py_or (dict_get part ''toolUseId'' JNull) (dict_get part ''id'' JNull)),
                           (''result'', content), (''is_error'', dict_get part ''isError'' (JBool False))],
                         ne_raw_type = ''message.part.updated'', ne_raw_payload = payload\<rparr>))
               else Inr None
           | _ \<Rightarrow> Inr None)
      | _ \<Rightarrow> Inr None)"

definition normalize_opencode_event :: "dict \<Rightarrow> exn + normalized_event option" where
  "normalize_opencode_event event =
     (let payload = event_payload event in
      if has_type event OE_message_part_delta
      then Inr (case extract_delta_content payload of
                  None \<Rightarrow> None
                | Some content \<Rightarrow> Some \<lparr>ne_kind = ''assistant_delta'', ne_payload = [(''content'', content)],
                    ne_raw_type = ''message.part.delta'', ne_raw_payload = payload\<rparr>)
      else if has_type event OE_message_part_updated then normalize_part_updated payload
      else Inr None)"

section \<open>Signals\<close>

record perm_request =
  pr_permission_id :: string
  pr_tool :: json
  pr_description :: json
  pr_args :: json
  pr_title :: json

text \<open>\<open>pid and str(pid).startswith("per")\<close>: of all JSON values only a string prints like this.\<close>

definition permission_id_of :: "json \<Rightarrow> string option" where
  "permission_id_of pid = (case pid of JStr s \<Rightarrow> if starts_with ''per'' s then Some s else None | _ \<Rightarrow> None)"

definition permission_in_status :: "dict \<Rightarrow> exn + perm_request option" where
  "permission_in_status payload =
     (case get_or payload ''permissions'' ''pendingPermissions'' (JList []) of
        JList (JObj perm # _) \<Rightarrow>
          Inr (map_option (\<lambda>pid. \<lparr>pr_permission_id = pid, pr_tool = get_or perm ''tool'' ''toolName'' (JStr ''unknown''),
                 pr_description = get_or perm ''description'' ''message'' (JStr []),
                 pr_args = get_or perm ''input'' ''args'' (JObj []),
                 pr_title = py_or (dict_get perm ''title'' JNull) (JStr [])\<rparr>)
               (permission_id_of (py_or (dict_get perm ''id'' JNull) (dict_get perm ''permissionId'' JNull))))
      | JList (_ # _) \<Rightarrow> Inl (AttributeError ''object has no attribute get'')
      | _ \<Rightarrow> Inr None)"

definition permission_in_part :: "dict \<Rightarrow> perm_request option" where
  "permission_in_part payload =
     (case dict_get payload ''part'' (JObj []) of
        JObj part \<Rightarrow>
          map_option (\<lambda>pid. \<lparr>pr_permission_id = pid, pr_tool = get_or part ''toolName'' ''tool'' (JStr ''unknown''),
              pr_description = get_or part ''message'' ''description'' (JStr []),
              pr_args = get_or part ''input'' ''args'' (JObj []),
              pr_title = py_or (dict_get part ''title'' JNull) (JStr [])\<rparr>)
            (permission_id_of (py_or (dict_get part ''permissionId'' JNull) (dict_get part ''permId'' JNull)))
      | _ \<Rightarrow> None)"

definition extract_permission_request :: "dict \<Rightarrow> exn + perm_request option" where
  "extract_permission_request event =
     (case event_payload event of
        JObj payload \<Rightarrow>
          if has_type event OE_session_status then permission_in_status payload
          else if has_type event OE_message_part_updated then Inr (permission_in_part payload)
          else Inr None
      | _ \<Rightarrow> Inr None)"

definition is_session_idle :: "dict \<Rightarrow> bool" where
  "is_session_idle event \<longleftrightarrow>
     has_type event OE_session_idle \<or>
     has_type event OE_session_status \<and>
       (case event_payload event of JObj p \<Rightarrow> dict_get p ''status'' JNull = JStr ''idle'' | _ \<Rightarrow> False)"

definition extract_diff :: "dict \<Rightarrow> json list option" where
  "extract_diff event =
     (if \<not> has_type event OE_session_diff then None
      else (case event_payload event of
              JObj p \<Rightarrow> (case dict_get p ''diff'' JNull of JList l \<Rightarrow> Some l | _ \<Rightarrow> None)
            | _ \<Rightarrow> None))"

section \<open>Normalised events are the worker's\<close>

lemma part_texts_raises: "part_texts cs = Inl e \<Longrightarrow> \<exists>m. e = TypeError m"
  by (induction cs rule: part_texts.induct) (auto split: json.splits sum.splits)

lemma delta_content_truthy: "extract_delta_content p = Some v \<Longrightarrow> py_truthy v"
  by (cases p) (auto simp: get_or_def py_or_def Let_def split: json.splits if_splits)

text \<open>C28: Whatever opencode sends, a normalised event has one of three kinds, each of which is a
  kind of the worker's event log, so the branch for an unknown kind is never taken; a text delta
  carries a non-empty content; normalising raises at most a \<open>TypeError\<close>, and only for a tool
  result whose content list holds a text that is no string.\<close>

theorem normalised_events_are_known:
  "case normalize_opencode_event event of
     Inl e \<Rightarrow> (\<exists>m. e = TypeError m) \<and> has_type event OE_message_part_updated
   | Inr None \<Rightarrow> True
   | Inr (Some n) \<Rightarrow> (\<exists>k. event_kind_of (ne_kind n) = Some k \<and>
        k \<in> {K_assistant_delta, K_tool_call_started, K_tool_call_finished}) \<and>
        (ne_kind n = ''assistant_delta'' \<longleftrightarrow> has_type event OE_message_part_delta) \<and>
        (case map_of (ne_payload n) ''content'' of None \<Rightarrow> True | Some v \<Rightarrow> py_truthy v)"
proof -
  have ek: "event_kind_of ''assistant_delta'' = Some K_assistant_delta"
    "event_kind_of ''tool_call_started'' = Some K_tool_call_started"
    "event_kind_of ''tool_call_finished'' = Some K_tool_call_finished"
    by (simp_all add: event_kind_of_def enum_of_def all_event_kinds_def)
  have excl: "\<not> (has_type event OE_message_part_delta \<and> has_type event OE_message_part_updated)"
    by (simp add: has_type_def)
  show ?thesis
    using excl ek delta_content_truthy part_texts_raises
    by (auto simp: normalize_opencode_event_def normalize_part_updated_def result_content_def Let_def
        split: option.splits json.splits sum.splits if_splits)
qed

end
