(* ===== verification/Interceptors.thy ===== *)
theory Interceptors
  imports Repo_Laws Event_Stream
begin

text \<open>
  The interceptors of the driver: their data (\<open>interceptors/types.py\<close>), the name rule of
  \<open>interceptors/base.py\<close>, the factories of \<open>interceptors/__init__.py\<close> and the runner that isolates
  their errors (\<open>interceptors/runner.py\<close>). An interceptor is its name and three arbitrary
  computations on a state \<open>'w\<close>, the world of the driver or the memory of the recorders.
  \<open>asyncio.gather\<close> runs the hooks of the active interceptors concurrently; here they
  run in registration order.
\<close>

section \<open>Data\<close>

record interceptor_event =
  ie_task_id :: string
  ie_session_id :: "string option"
  ie_normalized_kind :: "string option"
  ie_normalized_payload :: "dict option"
  ie_raw_type :: string
  ie_raw_payload :: dict
  ie_received_at :: timestamp

record terminal_signal =
  tg_task_id :: string
  tg_session_id :: "string option"
  tg_status :: string
  tg_reason :: "string option"
  tg_ended_at :: timestamp

record interceptor_artifact =
  ia_artifact_type :: string
  ia_filename :: string
  ia_local_path :: string
  ia_metadata :: dict
  ia_size_bytes :: "int option"

record 'w interceptor =
  ic_name :: string
  ic_on_event :: "interceptor_event \<Rightarrow> ('w, exn, unit) comp"
  ic_on_terminal :: "terminal_signal \<Rightarrow> ('w, exn, unit) comp"
  ic_flush :: "('w, exn, interceptor_artifact option) comp"

text \<open>\<open>re.match(r"^[a-z][a-z0-9-]{2,40}$", name)\<close>: \<open>$\<close> also matches before a final newline.\<close>

definition name_char :: "char \<Rightarrow> bool" where
  "name_char c \<longleftrightarrow> is_lower c \<or> is_digit c \<or> c = CHR ''-''"

definition name_body_ok :: "string \<Rightarrow> bool" where
  "name_body_ok s \<longleftrightarrow> (case s of [] \<Rightarrow> False
     | c # cs \<Rightarrow> is_lower c \<and> 2 \<le> length cs \<and> length cs \<le> 40 \<and> list_all name_char cs)"

definition valid_name :: "string \<Rightarrow> bool" where
  "valid_name s \<longleftrightarrow> name_body_ok s \<or> (s \<noteq> [] \<and> last s = CHR 0x0A \<and> name_body_ok (butlast s))"

section \<open>Factories\<close>

type_synonym 'w factories = "(string \<times> (dict \<Rightarrow> exn + 'w interceptor)) list"

definition register_factory :: "string \<Rightarrow> (dict \<Rightarrow> exn + 'w interceptor) \<Rightarrow> 'w factories \<Rightarrow> exn + 'w factories" where
  "register_factory name f fs =
     (if map_of fs name \<noteq> None then Inl (ValueError (''interceptor factory '' @ name @ '' already registered''))
      else Inr (dict_set name f fs))"

definition unregister_factory :: "string \<Rightarrow> 'w factories \<Rightarrow> 'w factories" where
  "unregister_factory name fs = dict_pop name fs"

definition build_interceptor :: "string \<Rightarrow> dict \<Rightarrow> 'w factories \<Rightarrow> exn + 'w interceptor" where
  "build_interceptor name options fs =
     (case map_of fs name of None \<Rightarrow> Inl (KeyError (''unknown interceptor '' @ name)) | Some f \<Rightarrow> f options)"

definition list_factories :: "'w factories \<Rightarrow> string list" where
  "list_factories fs = sort (map fst fs)"

fun build_interceptors_from_config :: "interceptor_config list \<Rightarrow> 'w factories \<Rightarrow> exn + 'w interceptor list" where
  "build_interceptors_from_config [] fs = Inr []"
| "build_interceptors_from_config (c # cs) fs =
     (case (if icfg_name c = [] then None else map_of fs (icfg_name c)) of
        None \<Rightarrow> build_interceptors_from_config cs fs
      | Some f \<Rightarrow>
          (case f (icfg_options c) of
             Inl e \<Rightarrow> Inl e
           | Inr ic \<Rightarrow>
               (case build_interceptors_from_config cs fs of
                  Inl e \<Rightarrow> Inl e | Inr ics \<Rightarrow> Inr (ic # ics))))"

text \<open>The dictionary form of the configuration, options by name.\<close>

fun build_interceptors_from_mapping :: "(string \<times> dict) list \<Rightarrow> 'w factories \<Rightarrow> exn + 'w interceptor list" where
  "build_interceptors_from_mapping [] fs = Inr []"
| "build_interceptors_from_mapping ((name, options) # cs) fs =
     (case map_of fs name of
        None \<Rightarrow> build_interceptors_from_mapping cs fs
      | Some f \<Rightarrow>
          (case f options of
             Inl e \<Rightarrow> Inl e
           | Inr ic \<Rightarrow>
               (case build_interceptors_from_mapping cs fs of
                  Inl e \<Rightarrow> Inl e | Inr ics \<Rightarrow> Inr (ic # ics))))"

text \<open>The registration at import; \<open>mk\<close> makes the factory of a recorder.\<close>

definition BUILTIN_INTERCEPTORS :: "string list" where
  "BUILTIN_INTERCEPTORS = [''conversations'', ''backtest'', ''mcp-fields'']"

definition register_builtin_factories :: "(string \<Rightarrow> dict \<Rightarrow> exn + 'w interceptor) \<Rightarrow> 'w factories \<Rightarrow> exn + 'w factories" where
  "register_builtin_factories mk fs0 =
     fold (\<lambda>name r. case r of Inl e \<Rightarrow> Inl e
       | Inr fs \<Rightarrow> if name \<in> fst ` set fs then Inr fs else register_factory name (mk name) fs) BUILTIN_INTERCEPTORS (Inr fs0)"

lemma register_new:
  "\<exists>fs'. (if name \<in> fst ` set fs then Inr fs else register_factory name f fs) = Inr fs' \<and>
     map_of fs' = (\<lambda>n. case map_of fs n of Some g \<Rightarrow> Some g | None \<Rightarrow> if n = name then Some f else None)"
proof (cases "map_of fs name")
  case None
  then have "name \<notin> fst ` set fs" by (simp add: map_of_eq_None_iff)
  then show ?thesis using None by (simp add: register_factory_def fun_eq_iff split: option.split)
next
  case (Some g)
  then have "name \<in> fst ` set fs" by (metis map_of_eq_None_iff option.distinct(1))
  then show ?thesis using Some by (auto simp: fun_eq_iff split: option.split)
qed

text \<open>It never fails, keeps what is registered and adds the built-in names that are not.\<close>

lemma register_builtin_run:
  "\<exists>fs'. register_builtin_factories mk fs = Inr fs' \<and>
     map_of fs' = (\<lambda>n. case map_of fs n of Some f \<Rightarrow> Some f
       | None \<Rightarrow> if n \<in> set BUILTIN_INTERCEPTORS then Some (mk n) else None)"
proof -
  obtain fs1 where 1: "(if ''conversations'' \<in> fst ` set fs then Inr fs
        else register_factory ''conversations'' (mk ''conversations'') fs) = Inr fs1"
      "map_of fs1 = (\<lambda>n. case map_of fs n of Some g \<Rightarrow> Some g | None \<Rightarrow> if n = ''conversations'' then Some (mk ''conversations'') else None)"
    using register_new by blast
  obtain fs2 where 2: "(if ''backtest'' \<in> fst ` set fs1 then Inr fs1 else register_factory ''backtest'' (mk ''backtest'') fs1) = Inr fs2"
      "map_of fs2 = (\<lambda>n. case map_of fs1 n of Some g \<Rightarrow> Some g | None \<Rightarrow> if n = ''backtest'' then Some (mk ''backtest'') else None)"
    using register_new by blast
  obtain fs3 where 3: "(if ''mcp-fields'' \<in> fst ` set fs2 then Inr fs2 else register_factory ''mcp-fields'' (mk ''mcp-fields'') fs2) = Inr fs3"
      "map_of fs3 = (\<lambda>n. case map_of fs2 n of Some g \<Rightarrow> Some g | None \<Rightarrow> if n = ''mcp-fields'' then Some (mk ''mcp-fields'') else None)"
    using register_new by blast
  have "register_builtin_factories mk fs = Inr fs3"
    by (simp only: register_builtin_factories_def BUILTIN_INTERCEPTORS_def fold_simps id_apply comp_apply sum.case 1 2 3)
  moreover have "map_of fs3 = (\<lambda>n. case map_of fs n of Some f \<Rightarrow> Some f
       | None \<Rightarrow> if n \<in> set BUILTIN_INTERCEPTORS then Some (mk n) else None)"
    by (rule ext) (simp add: 1(2) 2(2) 3(2) BUILTIN_INTERCEPTORS_def split: option.split)
  ultimately show ?thesis by blast
qed

section \<open>The runner\<close>

record 'w runner =
  rn_interceptors :: "'w interceptor list"
  rn_budget :: nat
  rn_counts :: "(string \<times> nat) list"
  rn_disabled :: "string list"

definition DEFAULT_ERROR_BUDGET :: nat where "DEFAULT_ERROR_BUDGET = 10"

fun check_names :: "string list \<Rightarrow> 'w interceptor list \<Rightarrow> exn option" where
  "check_names seen [] = None"
| "check_names seen (ic # ics) =
     (if \<not> valid_name (ic_name ic) then Some (ValueError ''interceptor name must match'')
      else if ic_name ic \<in> set seen then Some (ValueError (''duplicate interceptor name: '' @ ic_name ic))
      else check_names (ic_name ic # seen) ics)"

definition new_runner :: "'w interceptor list \<Rightarrow> nat \<Rightarrow> exn + 'w runner" where
  "new_runner ics budget =
     (case check_names [] ics of
        Some e \<Rightarrow> Inl e
      | None \<Rightarrow> Inr \<lparr>rn_interceptors = ics, rn_budget = budget,
          rn_counts = map (\<lambda>ic. (ic_name ic, 0)) ics, rn_disabled = []\<rparr>)"

definition is_disabled :: "string \<Rightarrow> 'w runner \<Rightarrow> bool" where
  "is_disabled name r \<longleftrightarrow> name \<in> set (rn_disabled r)"

definition error_count :: "string \<Rightarrow> 'w runner \<Rightarrow> nat" where
  "error_count name r = (case map_of (rn_counts r) name of None \<Rightarrow> 0 | Some n \<Rightarrow> n)"

definition active_interceptors :: "'w runner \<Rightarrow> 'w interceptor list" where
  "active_interceptors r = filter (\<lambda>ic. \<not> is_disabled (ic_name ic) r) (rn_interceptors r)"

definition record_error :: "string \<Rightarrow> 'w runner \<Rightarrow> 'w runner" where
  "record_error name r =
     (let n = Suc (error_count name r);
          r1 = r\<lparr>rn_counts := dict_set name n (rn_counts r)\<rparr>
      in if rn_budget r \<le> n then r1\<lparr>rn_disabled := name # rn_disabled r1\<rparr> else r1)"

text \<open>The hook runs on the world, its error is booked on the runner.\<close>

type_synonym ('w, 'a) rio = "('w runner \<times> 'w, exn, 'a) comp"

definition safe_call :: "string \<Rightarrow> ('w, exn, 'a) comp \<Rightarrow> ('w, 'a option) rio" where
  "safe_call name hook = (\<lambda>(r, w).
     case hook w of
       (Inr x, w1) \<Rightarrow> (Inr (Some x), (r, w1))
     | (Inl e, w1) \<Rightarrow> if is_Exception e then (Inr None, (record_error name r, w1)) else (Inl e, (r, w1)))"

fun call_each :: "('w interceptor \<Rightarrow> ('w, exn, unit) comp) \<Rightarrow> 'w interceptor list \<Rightarrow> ('w, unit) rio" where
  "call_each hook [] = retE ()"
| "call_each hook (ic # ics) = bindE (safe_call (ic_name ic) (hook ic)) (\<lambda>_. call_each hook ics)"

definition dispatch_event :: "interceptor_event \<Rightarrow> ('w, unit) rio" where
  "dispatch_event ev = bindE (getE fst) (\<lambda>r. call_each (\<lambda>ic. ic_on_event ic ev) (active_interceptors r))"

definition dispatch_terminal :: "terminal_signal \<Rightarrow> ('w, unit) rio" where
  "dispatch_terminal sg = bindE (getE fst) (\<lambda>r. call_each (\<lambda>ic. ic_on_terminal ic sg) (active_interceptors r))"

fun flush_each :: "'w interceptor list \<Rightarrow> ('w, interceptor_artifact list) rio" where
  "flush_each [] = retE []"
| "flush_each (ic # ics) =
     bindE (getE fst) (\<lambda>r.
     if is_disabled (ic_name ic) r then flush_each ics
     else bindE (safe_call (ic_name ic) (ic_flush ic)) (\<lambda>a.
          bindE (flush_each ics) (\<lambda>rest.
          retE (case a of Some (Some art) \<Rightarrow> art # rest | _ \<Rightarrow> rest))))"

definition collect_artifacts :: "('w, interceptor_artifact list) rio" where
  "collect_artifacts = bindE (getE fst) (\<lambda>r. flush_each (rn_interceptors r))"

section \<open>No exception passes\<close>

text \<open>Whatever a hook raises, a \<open>BaseException\<close> apart, stays inside the runner.\<close>

lemma safe_call_quiet:
  assumes "raises is_Exception hook"
  shows "\<exists>x rw'. safe_call name hook rw = (Inr x, rw') \<and> rn_interceptors (fst rw') = rn_interceptors (fst rw)"
proof -
  obtain r w where rw: "rw = (r, w)" by (cases rw)
  obtain res w1 where h: "hook w = (res, w1)" by (metis prod.exhaust)
  show ?thesis
  proof (cases res)
    case (Inl e)
    then have "is_Exception e" using assms h by (auto dest: raisesD)
    then show ?thesis using h Inl rw by (simp add: safe_call_def record_error_def Let_def)
  qed (simp add: safe_call_def rw h)
qed

lemma call_each_quiet:
  assumes "\<And>ic. ic \<in> set ics \<Longrightarrow> raises is_Exception (hook ic)"
  shows "\<exists>rw'. call_each hook ics rw = (Inr (), rw') \<and> rn_interceptors (fst rw') = rn_interceptors (fst rw)"
  using assms
proof (induction ics arbitrary: rw)
  case Nil
  then show ?case by (simp add: retE_def)
next
  case (Cons ic ics)
  obtain x rw1 where s: "safe_call (ic_name ic) (hook ic) rw = (Inr x, rw1)" "rn_interceptors (fst rw1) = rn_interceptors (fst rw)"
    using safe_call_quiet [of "hook ic" "ic_name ic" rw] Cons.prems by auto
  then show ?case using Cons.IH [of rw1] Cons.prems by (simp add: bindE_def)
qed

lemma flush_each_quiet:
  assumes "\<And>ic. ic \<in> set ics \<Longrightarrow> raises is_Exception (ic_flush ic)"
  shows "\<exists>arts rw'. flush_each ics rw = (Inr arts, rw')"
  using assms
proof (induction ics arbitrary: rw)
  case Nil
  then show ?case by (simp add: retE_def)
next
  case (Cons ic ics)
  obtain x rw1 where s: "safe_call (ic_name ic) (ic_flush ic) rw = (Inr x, rw1)"
    using safe_call_quiet [of "ic_flush ic" "ic_name ic" rw] Cons.prems by auto
  obtain a1 t1 where 1: "flush_each ics rw = (Inr a1, t1)" using Cons.IH [of rw] Cons.prems by auto
  obtain a2 t2 where 2: "flush_each ics rw1 = (Inr a2, t2)" using Cons.IH [of rw1] Cons.prems by auto
  have "bindE (safe_call (ic_name ic) (ic_flush ic)) (\<lambda>a. bindE (flush_each ics) (h a)) rw = h x a2 t2"
    for h :: "interceptor_artifact option option \<Rightarrow> interceptor_artifact list \<Rightarrow> ('a, interceptor_artifact list) rio"
    using s 2 by (simp add: bindE_def)
  then show ?case using 1 by (simp add: run_getE retE_def)
qed

section \<open>Isolation\<close>

text \<open>An interceptor is disabled exactly when its errors have used up the budget, and no one is
  booked who is not registered.\<close>

definition runner_ok :: "'w runner \<Rightarrow> bool" where
  "runner_ok r \<longleftrightarrow> distinct (map ic_name (rn_interceptors r)) \<and>
     map fst (rn_counts r) = map ic_name (rn_interceptors r) \<and>
     (\<forall>name \<in> set (map ic_name (rn_interceptors r)).
        is_disabled name r \<longleftrightarrow> rn_budget r \<le> error_count name r)"

lemma error_count_record [simp]:
  "error_count n (record_error name r) = (if n = name then Suc (error_count name r) else error_count n r)"
  by (simp add: record_error_def error_count_def Let_def)

lemma record_error_fields [simp]:
  "rn_interceptors (record_error name r) = rn_interceptors r" "rn_budget (record_error name r) = rn_budget r"
  by (simp_all add: record_error_def Let_def)

lemma is_disabled_record:
  "is_disabled n (record_error name r) \<longleftrightarrow>
     is_disabled n r \<or> n = name \<and> rn_budget r \<le> Suc (error_count name r)"
  by (auto simp: record_error_def is_disabled_def Let_def)

lemma dict_set_keys: "k \<in> fst ` set ps \<Longrightarrow> map fst (dict_set k v ps) = map fst ps"
  by (induction ps rule: dict_set.induct) auto

lemma runner_ok_record:
  assumes "runner_ok r" and "name \<in> ic_name ` set (rn_interceptors r)"
  shows "runner_ok (record_error name r)"
proof -
  have keys: "map fst (rn_counts r) = map ic_name (rn_interceptors r)" using assms(1) by (simp add: runner_ok_def)
  then have "name \<in> fst ` set (rn_counts r)" using assms(2) by (metis list.set_map)
  then have "map fst (rn_counts (record_error name r)) = map ic_name (rn_interceptors r)"
    using keys by (simp add: record_error_def Let_def dict_set_keys)
  moreover have "\<forall>n \<in> set (map ic_name (rn_interceptors r)). is_disabled n r \<longleftrightarrow> rn_budget r \<le> error_count n r"
    using assms(1) by (simp add: runner_ok_def)
  ultimately show ?thesis
    using assms by (auto simp: runner_ok_def is_disabled_record)
qed

text \<open>The state a dispatch may leave: the same interceptors and budget, no error forgotten.\<close>

definition runner_after :: "'w runner \<Rightarrow> 'w runner \<Rightarrow> bool" where
  "runner_after r r' \<longleftrightarrow> rn_interceptors r' = rn_interceptors r \<and> rn_budget r' = rn_budget r \<and>
     (\<forall>n. error_count n r \<le> error_count n r' \<and> (is_disabled n r \<longrightarrow> is_disabled n r'))"

lemma runner_after_refl [simp]: "runner_after r r"
  by (simp add: runner_after_def)

lemma runner_after_trans: "runner_after a b \<Longrightarrow> runner_after b c \<Longrightarrow> runner_after a c"
  by (auto simp: runner_after_def intro: order_trans)

lemma safe_call_run:
  assumes "runner_ok r" and "name \<in> ic_name ` set (rn_interceptors r)" and "raises is_Exception hook"
  shows "\<exists>x r' w'. safe_call name hook (r, w) = (Inr x, (r', w')) \<and> runner_ok r' \<and> runner_after r r' \<and>
    w' = snd (hook w) \<and> error_count name r' = error_count name r + (if isl (fst (hook w)) then 1 else 0) \<and>
    (\<forall>n. n \<noteq> name \<longrightarrow> error_count n r' = error_count n r)"
proof (cases "hook w")
  case (Pair res w1)
  show ?thesis
  proof (cases res)
    case (Inl e)
    then have "is_Exception e" using assms(3) Pair by (auto dest: raisesD)
    then show ?thesis
      using Pair Inl runner_ok_record [OF assms(1,2)]
      by (auto simp: safe_call_def runner_after_def is_disabled_record)
  next
    case (Inr x)
    then show ?thesis using Pair assms(1) by (auto simp: safe_call_def)
  qed
qed

lemma call_each_run:
  assumes "runner_ok r" and "set ics \<subseteq> set (rn_interceptors r)" and "distinct (map ic_name ics)"
    and "\<forall>ic \<in> set ics. raises is_Exception (hook ic)"
  shows "\<exists>r'. call_each hook ics (r, w) = (Inr (), (r', fold (\<lambda>ic w. snd (hook ic w)) ics w)) \<and>
    runner_ok r' \<and> runner_after r r' \<and>
    (\<forall>n. n \<notin> ic_name ` set ics \<longrightarrow> error_count n r' = error_count n r) \<and>
    (\<forall>ic \<in> set ics. error_count (ic_name ic) r' \<le> Suc (error_count (ic_name ic) r))"
  using assms
proof (induction ics arbitrary: r w)
  case Nil
  then show ?case by (simp add: retE_def)
next
  case (Cons ic ics)
  have name: "ic_name ic \<in> ic_name ` set (rn_interceptors r)" and hook: "raises is_Exception (hook ic)"
    using Cons.prems(2,4) by auto
  obtain x r1 where s: "safe_call (ic_name ic) (hook ic) (r, w) = (Inr x, (r1, snd (hook ic w)))" "runner_ok r1"
    "runner_after r r1" "error_count (ic_name ic) r1 = error_count (ic_name ic) r + (if isl (fst (hook ic w)) then 1 else 0)"
    "\<forall>n. n \<noteq> ic_name ic \<longrightarrow> error_count n r1 = error_count n r"
    using safe_call_run [OF Cons.prems(1) name hook, of w] by blast
  have sub: "set ics \<subseteq> set (rn_interceptors r1)" and dist: "distinct (map ic_name ics)"
    and hooks: "\<forall>ic \<in> set ics. raises is_Exception (hook ic)"
    using Cons.prems(2-4) s(3) by (simp_all add: runner_after_def)
  obtain r2 where rest: "call_each hook ics (r1, snd (hook ic w)) =
      (Inr (), (r2, fold (\<lambda>ic w. snd (hook ic w)) ics (snd (hook ic w))))" "runner_ok r2" "runner_after r1 r2"
    "\<forall>n. n \<notin> ic_name ` set ics \<longrightarrow> error_count n r2 = error_count n r1"
    "\<forall>ic \<in> set ics. error_count (ic_name ic) r2 \<le> Suc (error_count (ic_name ic) r1)"
    using Cons.IH [OF s(2) sub dist hooks] by blast
  have new: "ic_name ic \<notin> ic_name ` set ics" using Cons.prems(3) by simp
  have run: "call_each hook (ic # ics) (r, w) = (Inr (), (r2, fold (\<lambda>ic w. snd (hook ic w)) (ic # ics) w))"
    using s(1) rest(1) by (simp add: bindE_step)
  have others: "n \<notin> ic_name ` set (ic # ics) \<Longrightarrow> error_count n r2 = error_count n r" for n
    using s(5) rest(4) by simp
  have "error_count (ic_name ic) r2 \<le> Suc (error_count (ic_name ic) r)"
    using rest(4) new s(4) by simp
  moreover have "error_count (ic_name j) r2 \<le> Suc (error_count (ic_name j) r)" if j: "j \<in> set ics" for j
  proof -
    have "ic_name j \<noteq> ic_name ic" using new j by (metis image_eqI)
    then show ?thesis using rest(5) s(5) j by fastforce
  qed
  ultimately show ?case
    using run others rest(2) runner_after_trans [OF s(3) rest(3)] by (intro exI [of _ r2]) simp
qed

text \<open>The invariant that the driver relies on: nobody errs beyond the budget.\<close>

definition runner_inv :: "'w runner \<Rightarrow> bool" where
  "runner_inv r \<longleftrightarrow> runner_ok r \<and> (\<forall>n. error_count n r \<le> rn_budget r)"

definition hooks_ok :: "'w interceptor list \<Rightarrow> bool" where
  "hooks_ok ics \<longleftrightarrow> (\<forall>ic \<in> set ics. (\<forall>ev. raises is_Exception (ic_on_event ic ev)) \<and>
     (\<forall>sg. raises is_Exception (ic_on_terminal ic sg)) \<and> raises is_Exception (ic_flush ic))"

lemma active_room:
  assumes "runner_ok r" and "ic \<in> set (active_interceptors r)"
  shows "error_count (ic_name ic) r < rn_budget r"
proof -
  have "ic_name ic \<in> set (map ic_name (rn_interceptors r))" "\<not> is_disabled (ic_name ic) r"
    using assms(2) by (auto simp: active_interceptors_def)
  then show ?thesis using assms(1) unfolding runner_ok_def by (meson leI)
qed

lemma call_active_run:
  assumes inv: "runner_inv r" and "\<forall>ic \<in> set (rn_interceptors r). raises is_Exception (hook ic)"
  shows "\<exists>r'. call_each hook (active_interceptors r) (r, w) =
      (Inr (), (r', fold (\<lambda>ic w. snd (hook ic w)) (active_interceptors r) w)) \<and> runner_inv r' \<and> runner_after r r'"
proof -
  let ?a = "active_interceptors r"
  have ok: "runner_ok r" and le: "error_count n r \<le> rn_budget r" for n using inv by (simp_all add: runner_inv_def)
  have sub: "set ?a \<subseteq> set (rn_interceptors r)" by (auto simp: active_interceptors_def)
  have dist: "distinct (map ic_name ?a)"
    using ok by (simp add: runner_ok_def active_interceptors_def distinct_map_filter)
  obtain r' where r': "call_each hook ?a (r, w) = (Inr (), (r', fold (\<lambda>ic w. snd (hook ic w)) ?a w))"
    "runner_ok r'" "runner_after r r'" "\<forall>n. n \<notin> ic_name ` set ?a \<longrightarrow> error_count n r' = error_count n r"
    "\<forall>ic \<in> set ?a. error_count (ic_name ic) r' \<le> Suc (error_count (ic_name ic) r)"
    using call_each_run [OF ok sub dist, of hook w] assms(2) sub by blast
  have "error_count n r' \<le> rn_budget r'" for n
  proof (cases "n \<in> ic_name ` set ?a")
    case True
    then obtain ic where "ic \<in> set ?a" "n = ic_name ic" by blast
    then show ?thesis using r'(3,5) active_room [OF ok, of ic] by (fastforce simp: runner_after_def)
  next
    case False
    then show ?thesis using r'(3,4) le by (simp add: runner_after_def)
  qed
  then show ?thesis using r' by (auto simp: runner_inv_def)
qed

lemma flush_each_run:
  assumes "runner_inv r" and "set ics \<subseteq> set (rn_interceptors r)" and "\<forall>ic \<in> set ics. raises is_Exception (ic_flush ic)"
  shows "\<exists>arts r' w'. flush_each ics (r, w) = (Inr arts, (r', w')) \<and> runner_inv r' \<and> runner_after r r'"
  using assms
proof (induction ics arbitrary: r w)
  case Nil
  then show ?case by (simp add: retE_def)
next
  case (Cons ic ics)
  have ok: "runner_ok r" using Cons.prems(1) by (simp add: runner_inv_def)
  show ?case
  proof (cases "is_disabled (ic_name ic) r")
    case True
    then show ?thesis using Cons.IH [OF Cons.prems(1)] Cons.prems(2,3) by (simp add: bindE_def getE_def)
  next
    case False
    have name: "ic_name ic \<in> ic_name ` set (rn_interceptors r)" and hook: "raises is_Exception (ic_flush ic)"
      using Cons.prems(2,3) by auto
    obtain x r1 where s: "safe_call (ic_name ic) (ic_flush ic) (r, w) = (Inr x, (r1, snd (ic_flush ic w)))" "runner_ok r1"
      "runner_after r r1" "error_count (ic_name ic) r1 = error_count (ic_name ic) r + (if isl (fst (ic_flush ic w)) then 1 else 0)"
      "\<forall>n. n \<noteq> ic_name ic \<longrightarrow> error_count n r1 = error_count n r"
      using safe_call_run [OF ok name hook, of w] by blast
    have "error_count (ic_name ic) r < rn_budget r"
      using active_room [OF ok, of ic] False Cons.prems(2) by (simp add: active_interceptors_def)
    then have "error_count n r1 \<le> rn_budget r1" for n
      using s(3,4,5) Cons.prems(1) by (cases "n = ic_name ic") (auto simp: runner_after_def runner_inv_def)
    then have inv1: "runner_inv r1" using s(2) by (simp add: runner_inv_def)
    have sub: "set ics \<subseteq> set (rn_interceptors r1)" using Cons.prems(2) s(3) by (simp add: runner_after_def)
    obtain arts r2 w2 where rest: "flush_each ics (r1, snd (ic_flush ic w)) = (Inr arts, (r2, w2))"
      "runner_inv r2" "runner_after r1 r2"
      using Cons.IH [OF inv1 sub] Cons.prems(3) by fastforce
    then show ?thesis using False s(1) runner_after_trans [OF s(3) rest(3)]
      by (simp add: bindE_def getE_def retE_def)
  qed
qed

text \<open>Any sequence of calls the driver makes.\<close>

datatype hook_call = Hook_event interceptor_event | Hook_terminal terminal_signal | Hook_flush

fun run_hook :: "hook_call \<Rightarrow> ('w, unit) rio" where
  "run_hook (Hook_event ev) = dispatch_event ev"
| "run_hook (Hook_terminal sg) = dispatch_terminal sg"
| "run_hook Hook_flush = bindE collect_artifacts (\<lambda>_. retE ())"

lemma run_hook_run:
  assumes "runner_inv r" and "hooks_ok (rn_interceptors r)"
  shows "\<exists>r' w'. run_hook c (r, w) = (Inr (), (r', w')) \<and> runner_inv r' \<and> runner_after r r'"
proof (cases c)
  case (Hook_event ev)
  then show ?thesis
    using call_active_run [OF assms(1), of "\<lambda>ic. ic_on_event ic ev" w] assms(2)
    by (fastforce simp: dispatch_event_def bindE_def getE_def hooks_ok_def)
next
  case (Hook_terminal sg)
  then show ?thesis
    using call_active_run [OF assms(1), of "\<lambda>ic. ic_on_terminal ic sg" w] assms(2)
    by (fastforce simp: dispatch_terminal_def bindE_def getE_def hooks_ok_def)
next
  case Hook_flush
  then show ?thesis
    using flush_each_run [OF assms(1), of "rn_interceptors r" w] assms(2)
    by (fastforce simp: collect_artifacts_def bindE_def getE_def retE_def hooks_ok_def)
qed

lemma run_hooks_run:
  assumes "runner_inv r" and "hooks_ok (rn_interceptors r)"
  shows "\<exists>r' w'. forE calls run_hook (r, w) = (Inr (), (r', w')) \<and> runner_inv r' \<and> runner_after r r'"
  using assms
proof (induction calls arbitrary: r w)
  case Nil
  then show ?case by (simp add: retE_def)
next
  case (Cons c calls)
  obtain r1 w1 where c: "run_hook c (r, w) = (Inr (), (r1, w1))" "runner_inv r1" "runner_after r r1"
    using run_hook_run [OF Cons.prems, of c w] by blast
  then have "hooks_ok (rn_interceptors r1)" using Cons.prems(2) by (simp add: runner_after_def)
  from Cons.IH [OF c(2) this, of w1] show ?case
    using c(1) runner_after_trans [OF c(3)] by (auto simp: thenE_step)
qed

lemma check_names_distinct:
  "check_names seen ics = None \<Longrightarrow> distinct (map ic_name ics) \<and> set seen \<inter> ic_name ` set ics = {}"
  by (induction seen ics rule: check_names.induct) (auto split: if_splits)

lemma new_runner_inv:
  assumes "new_runner ics budget = Inr r" and "0 < budget"
  shows "runner_inv r \<and> rn_interceptors r = ics \<and> rn_budget r = budget"
proof -
  have r: "check_names [] ics = None" "r = \<lparr>rn_interceptors = ics, rn_budget = budget,
      rn_counts = map (\<lambda>ic. (ic_name ic, 0)) ics, rn_disabled = []\<rparr>"
    using assms(1) by (auto simp: new_runner_def split: option.splits)
  have "map_of (map (\<lambda>ic. (ic_name ic, 0::nat)) ics) n = Some k \<Longrightarrow> k = 0" for n k
    by (induction ics) (auto split: if_splits)
  then have "error_count n r = 0" for n by (simp add: error_count_def r(2) split: option.splits)
  then show ?thesis using assms(2) check_names_distinct [OF r(1)]
    by (simp add: runner_inv_def runner_ok_def r(2) is_disabled_def comp_def)
qed

text \<open>C24: However the interceptors fail, no call of the runner raises: after any sequence of event,
  terminal and flush calls the next event reaches every interceptor that is not disabled, in
  order and whatever its siblings do, and no disabled one; an interceptor is disabled exactly
  when its errors have reached the budget, which they never exceed.\<close>

theorem interceptors_are_isolated:
  assumes "new_runner ics budget = Inr r0" and "0 < budget" and "hooks_ok ics"
  shows "\<exists>r w'. forE calls run_hook (r0, w) = (Inr (), (r, w')) \<and>
    (\<exists>r2. dispatch_event ev (r, w') =
       (Inr (), (r2, fold (\<lambda>ic v. snd (ic_on_event ic ev v)) (filter (\<lambda>ic. \<not> is_disabled (ic_name ic) r) ics) w'))) \<and>
    (\<forall>ic \<in> set ics. error_count (ic_name ic) r \<le> budget \<and>
       (is_disabled (ic_name ic) r \<longleftrightarrow> error_count (ic_name ic) r = budget))"
proof -
  have r0: "runner_inv r0" "rn_interceptors r0 = ics" "rn_budget r0 = budget"
    using new_runner_inv [OF assms(1,2)] by simp_all
  obtain r w' where r: "forE calls run_hook (r0, w) = (Inr (), (r, w'))" "runner_inv r" "runner_after r0 r"
    using run_hooks_run [OF r0(1)] assms(3) r0(2) by blast
  then have f: "rn_interceptors r = ics" "rn_budget r = budget" using r0 by (simp_all add: runner_after_def)
  have "\<exists>r2. dispatch_event ev (r, w') =
       (Inr (), (r2, fold (\<lambda>ic v. snd (ic_on_event ic ev v)) (filter (\<lambda>ic. \<not> is_disabled (ic_name ic) r) ics) w'))"
    using call_active_run [OF r(2), of "\<lambda>ic. ic_on_event ic ev" w'] assms(3) f
    by (auto simp: dispatch_event_def bindE_def getE_def hooks_ok_def active_interceptors_def)
  moreover have "\<forall>ic \<in> set ics. error_count (ic_name ic) r \<le> budget \<and>
       (is_disabled (ic_name ic) r \<longleftrightarrow> error_count (ic_name ic) r = budget)"
    using r(2) f by (auto simp: runner_inv_def runner_ok_def intro: antisym)
  ultimately show ?thesis using r(1) by blast
qed

section \<open>Witness\<close>

definition faulty_interceptor :: "world interceptor" where
  "faulty_interceptor = \<lparr>ic_name = ''faulty'', ic_on_event = (\<lambda>_. raiseE (RuntimeError ''boom'')),
     ic_on_terminal = (\<lambda>_. retE ()), ic_flush = retE None\<rparr>"

lemma interceptors_are_isolated_witness:
  "\<exists>r w'. forE [Hook_flush] run_hook
      (\<lparr>rn_interceptors = [faulty_interceptor], rn_budget = 10, rn_counts = [(''faulty'', 0)], rn_disabled = []\<rparr>, init_world)
      = (Inr (), (r, w')) \<and> error_count ''faulty'' r \<le> 10"
proof -
  have "new_runner [faulty_interceptor] 10 = Inr \<lparr>rn_interceptors = [faulty_interceptor], rn_budget = 10,
      rn_counts = [(''faulty'', 0)], rn_disabled = []\<rparr>"
    by (simp add: new_runner_def faulty_interceptor_def valid_name_def name_body_ok_def name_char_def is_lower_def is_digit_def)
  moreover have "hooks_ok [faulty_interceptor]"
    by (simp add: hooks_ok_def faulty_interceptor_def raises_raise raises_ret)
  moreover have "ic_name faulty_interceptor = ''faulty''" by (simp add: faulty_interceptor_def)
  ultimately show ?thesis
    using interceptors_are_isolated [of "[faulty_interceptor]" 10 _ "[Hook_flush]" init_world] by fastforce
qed

end
