(* ===== verification/Driver.thy ===== *)
theory Driver
  imports Repo_Props Config Py_Fnmatch Interceptors Artifact_Gc
begin

text \<open>
  The driver of one opencode session, \<open>src/worker/adapters/opencode/driver.py\<close>. Its state is the
  object's attributes beside the world; what it calls outside the process (the opencode client, the
  operating system) is a field of \<open>driver_env\<close>, any computation. Two fields stand for the
  scheduler: \<open>dc_while_waiting\<close>, what the other coroutines do during the n-th sleep of a wait, and
  \<open>dc_run_spawned\<close>, what the permission handlers spawned so far do while the driver waits for the
  session. \<open>str()\<close> of a JSON value that is no string is the field \<open>dc_show\<close>, and \<open>dc_size\<close> the
  size of the file a JSON value is dumped to.
\<close>

section \<open>State\<close>

record client_api =
  cl_create_session :: "dict io"
  cl_send_message :: "string \<Rightarrow> json \<Rightarrow> unit io"
  cl_prompt_async :: "string \<Rightarrow> json \<Rightarrow> string \<Rightarrow> string \<Rightarrow> unit io"
  cl_abort_session :: "string \<Rightarrow> unit io"
  cl_delete_session :: "string \<Rightarrow> unit io"
  cl_respond_permission :: "string \<Rightarrow> string \<Rightarrow> string \<Rightarrow> unit io"
  cl_get_diff :: "string \<Rightarrow> json list io"
  cl_get_messages :: "string \<Rightarrow> json list io"
  cl_aclose :: "unit io"

text \<open>\<open>dv_abort\<close> is the abort signal with its reason and decision, \<open>None\<close> while it is not set;
  \<open>dv_spawned\<close> the permission handlers started with \<open>create_task\<close>.\<close>

record driver_state =
  dv_world :: world
  dv_session :: "string option"
  dv_abort :: "(string \<times> string option) option"
  dv_buffer :: "json list"
  dv_plan :: "string option"
  dv_diff :: "json list"
  dv_rejects :: nat
  dv_runner :: "world runner"
  dv_spawned :: "perm_request list"

record driver_env =
  dc_task_id :: string
  dc_request :: task_request
  dc_settings :: settings
  dc_client :: client_api
  dc_os :: os_files
  dc_mkdir :: "string \<Rightarrow> unit io"
  dc_show :: "json \<Rightarrow> string"
  dc_size :: "json \<Rightarrow> int"
  dc_while_waiting :: "nat \<Rightarrow> driver_state \<Rightarrow> driver_state"
  dc_run_spawned :: "driver_state \<Rightarrow> driver_state"

type_synonym 'a drv = "(driver_state, exn, 'a) comp"

definition inW :: "'a io \<Rightarrow> 'a drv" where
  "inW m s = (case m (dv_world s) of (r, w) \<Rightarrow> (r, s\<lparr>dv_world := w\<rparr>))"

definition inR :: "(world, 'a) rio \<Rightarrow> 'a drv" where
  "inR m s = (case m (dv_runner s, dv_world s) of (x, (r, w)) \<Rightarrow> (x, s\<lparr>dv_runner := r, dv_world := w\<rparr>))"

definition new_driver :: "world runner \<Rightarrow> world \<Rightarrow> driver_state" where
  "new_driver r w = \<lparr>dv_world = w, dv_session = None, dv_abort = None, dv_buffer = [], dv_plan = None,
     dv_diff = [], dv_rejects = 0, dv_runner = r, dv_spawned = []\<rparr>"

definition AGENT_PROMETHEUS :: string where "AGENT_PROMETHEUS = ''Prometheus''"
definition AGENT_SISYPHUS :: string where "AGENT_SISYPHUS = ''Sisyphus''"
definition HITL_POLL_INTERVAL :: real where "HITL_POLL_INTERVAL = 2"
definition DEFAULT_TIMEOUT_SEC :: int where "DEFAULT_TIMEOUT_SEC = 1800"
definition REJECT_THRESHOLD :: nat where "REJECT_THRESHOLD = 3"

definition timeout_sec :: "driver_env \<Rightarrow> int" where
  "timeout_sec dc = (let t = lim_timeout_sec (rq_limits (dc_request dc))
                     in if t \<noteq> 0 then t else DEFAULT_TIMEOUT_SEC)"

section \<open>Small operations\<close>

definition log_event :: "driver_env \<Rightarrow> event_kind \<Rightarrow> dict \<Rightarrow> unit drv" where
  "log_event dc kind payload = inW (bindE (insert_event (dc_task_id dc) kind payload) (\<lambda>_. retE ()))"

definition set_status :: "driver_env \<Rightarrow> task_status \<Rightarrow> unit drv" where
  "set_status dc st = inW (update_task_status (dc_task_id dc) st)"

definition swallow_exn :: "exn \<Rightarrow> unit drv" where
  "swallow_exn e = (if is_Exception e then retE () else raiseE e)"

definition signal_abort :: "string \<Rightarrow> string option \<Rightarrow> unit drv" where
  "signal_abort reason did = modifyE (\<lambda>s. if dv_abort s = None then s\<lparr>dv_abort := Some (reason, did)\<rparr> else s)"

definition dispatch_to_interceptors ::
    "driver_env \<Rightarrow> string option \<Rightarrow> dict option \<Rightarrow> string \<Rightarrow> dict \<Rightarrow> unit drv" where
  "dispatch_to_interceptors dc kind payload raw_type raw_payload =
     bindE (getE id) (\<lambda>s.
     if rn_interceptors (dv_runner s) = [] then retE ()
     else bindE (inW time_now) (\<lambda>now.
          inR (dispatch_event \<lparr>ie_task_id = dc_task_id dc, ie_session_id = dv_session s, ie_normalized_kind = kind,
            ie_normalized_payload = payload, ie_raw_type = raw_type, ie_raw_payload = raw_payload,
            ie_received_at = now\<rparr>)))"

definition match_auto_approve :: "driver_env \<Rightarrow> decision_kind \<Rightarrow> string \<Rightarrow> string option" where
  "match_auto_approve dc kind key =
     find (fnmatch (decision_kind_value kind @ '':'' @ key)) (hitl_auto_approve (rq_hitl (dc_request dc)))"

definition resolve_hitl_timeout_policy :: "driver_env \<Rightarrow> string \<times> decision_choice" where
  "resolve_hitl_timeout_policy dc =
     (let raw = hitl_on_timeout (rq_hitl (dc_request dc));
          action = str_lower (if raw = [] then ''abort'' else raw)
      in if action = ''abort'' then (action, C_abort)
         else if action \<in> {''continue'', ''escalate''} then (action, C_approve)
         else (''abort'', C_abort))"

section \<open>Waiting for a decision\<close>

text \<open>One sleep: at least two seconds pass, and other coroutines run.\<close>

definition slept :: "driver_env \<Rightarrow> nat \<Rightarrow> driver_state \<Rightarrow> driver_state" where
  "slept dc n s =
     (let t = dc_while_waiting dc n s; w = dv_world t
      in t\<lparr>dv_world := w\<lparr>w_clock := max (w_clock w) (w_clock (dv_world s) + HITL_POLL_INTERVAL)\<rparr>\<rparr>)"

lemma get_resolved_clock:
  assumes "get_resolved_decision did w = (r, w')"
  shows "w_clock w' = w_clock w"
  using outerD(2) [OF outer_repo(10), of did w] assms by simp

function (sequential) wait_for_decision ::
    "driver_env \<Rightarrow> nat \<Rightarrow> string \<Rightarrow> real \<Rightarrow> driver_state \<Rightarrow> (exn + pending_decision option) \<times> driver_state" where
  "wait_for_decision dc n did deadline s =
     (case inW (get_resolved_decision did) s of
        (Inl e, s1) \<Rightarrow> (Inl e, s1)
      | (Inr (Some d), s1) \<Rightarrow> (Inr (Some d), s1)
      | (Inr None, s1) \<Rightarrow>
          if deadline - w_clock (dv_world s1) \<le> 0 then (Inr None, s1)
          else wait_for_decision dc (Suc n) did deadline (slept dc n s1))"
  by pat_completeness auto

lemma slept_clock: "w_clock (dv_world s) + 2 \<le> w_clock (dv_world (slept dc n s))"
  by (simp add: slept_def Let_def HITL_POLL_INTERVAL_def)

lemma ceiling_step:
  assumes "(0::real) < d" and "d' \<le> d - 2"
  shows "nat \<lceil>d'\<rceil> < nat \<lceil>d\<rceil>"
proof -
  have "\<lceil>d'\<rceil> \<le> \<lceil>d\<rceil> - 2" using ceiling_mono [OF assms(2)] by simp
  moreover have "0 < \<lceil>d\<rceil>" using assms(1) by simp
  ultimately show ?thesis by linarith
qed

lemma poll_clock:
  "inW (get_resolved_decision did) s = (r, s1) \<Longrightarrow> w_clock (dv_world s1) = w_clock (dv_world s)"
  by (auto simp: inW_def dest: get_resolved_clock split: prod.splits)

termination wait_for_decision
proof (relation "measure (\<lambda>(dc, n, did, deadline, s). nat \<lceil>deadline - w_clock (dv_world s)\<rceil>)", goal_cases)
  case 1
  show ?case by simp
next
  case (2 dc n did deadline s x s1 y)
  have "w_clock (dv_world s1) = w_clock (dv_world s)" using 2 by (metis poll_clock)
  then show ?case
    using 2 slept_clock [of s1 dc n] ceiling_step [of "deadline - w_clock (dv_world s)"] by simp
qed

declare wait_for_decision.simps [simp del]

text \<open>\<open>_wait_for_decision\<close> with its observed duration.\<close>

definition await_decision :: "driver_env \<Rightarrow> string \<Rightarrow> pending_decision option drv" where
  "await_decision dc did =
     bindE (inW time_now) (\<lambda>t0.
     bindE (wait_for_decision dc 0 did (t0 + real_of_int (hitl_decision_timeout_sec (rq_hitl (dc_request dc))))) (\<lambda>d.
     bindE (inW time_now) (\<lambda>t.
     thenE (inW (metric (observe_hitl_wait (t - t0)))) (retE d))))"

section \<open>Permissions\<close>

text \<open>The summaries are Chinese text, kept as its UTF-8 bytes.\<close>

definition permission_summary :: "string \<Rightarrow> string \<Rightarrow> string" where
  "permission_summary tool desc = ''opencode'' @
   [CHR 0x20, CHR 0xE8, CHR 0xAF, CHR 0xB7, CHR 0xE6, CHR 0xB1, CHR 0x82, CHR 0xE6,
    CHR 0x89, CHR 0xA7, CHR 0xE8, CHR 0xA1, CHR 0x8C, CHR 0xE5, CHR 0xB7, CHR 0xA5,
    CHR 0xE5, CHR 0x85, CHR 0xB7, CHR 0xEF, CHR 0xBC, CHR 0x9A] @ tool @ [CHR 0x0A] @ desc"

definition plan_summary :: string where
  "plan_summary = ''Prometheus'' @
   [CHR 0x20, CHR 0xE5, CHR 0xB7, CHR 0xB2, CHR 0xE7, CHR 0x94, CHR 0x9F, CHR 0xE6,
    CHR 0x88, CHR 0x90, CHR 0xE6, CHR 0x89, CHR 0xA7, CHR 0xE8, CHR 0xA1, CHR 0x8C,
    CHR 0xE8, CHR 0xAE, CHR 0xA1, CHR 0xE5, CHR 0x88, CHR 0x92, CHR 0xEF, CHR 0xBC,
    CHR 0x8C, CHR 0xE8, CHR 0xAF, CHR 0xB7, CHR 0xE5, CHR 0xAE, CHR 0xA1, CHR 0xE6,
    CHR 0x89, CHR 0xB9, CHR 0xE5, CHR 0x90, CHR 0x8E, CHR 0xE7, CHR 0xBB, CHR 0xA7,
    CHR 0xE7, CHR 0xBB, CHR 0xAD, CHR 0xE3, CHR 0x80, CHR 0x82]"

definition auto_approve_permission :: "driver_env \<Rightarrow> string \<Rightarrow> string \<Rightarrow> json \<Rightarrow> string \<Rightarrow> unit drv" where
  "auto_approve_permission dc sid pid tool pat =
     bindE (inW uuid4) (\<lambda>did.
     let payload = [(''decision_id'', JStr did), (''choice'', JStr ''once''), (''permission_id'', JStr pid),
                    (''auto_approved'', JBool True), (''matched_pattern'', JStr pat), (''tool'', tool)]
     in thenE (log_event dc K_decision_received payload) (
        thenE (dispatch_to_interceptors dc (Some ''decision_received'') (Some payload) ''<synthesized:decision_received>'' []) (
        thenE (modifyE (\<lambda>s. s\<lparr>dv_rejects := 0\<rparr>))
          (tryE (inW (cl_respond_permission (dc_client dc) sid pid ''once'')) swallow_exn))))"

definition py_str :: "driver_env \<Rightarrow> json \<Rightarrow> string" where
  "py_str dc v = (case v of JStr s \<Rightarrow> s | _ \<Rightarrow> dc_show dc v)"

definition permission_decision :: "driver_env \<Rightarrow> string \<Rightarrow> perm_request \<Rightarrow> decision_request" where
  "permission_decision dc did pr =
     \<lparr>dq_decision_id = did, dq_kind = DK_tool_permission,
      dq_summary = permission_summary (py_str dc (pr_tool pr)) (py_str dc (pr_description pr)),
      dq_options = [C_approve, C_reject, C_abort],
      dq_default_on_timeout = snd (resolve_hitl_timeout_policy dc), dq_expires_at = None,
      dq_ctx = [(''tool'', pr_tool pr), (''permission_id'', JStr (pr_permission_id pr)),
                (''args'', pr_args pr), (''title'', pr_title pr)]\<rparr>"

text \<open>The answer for opencode and the bookkeeping of each choice.\<close>

definition escalation_payload :: "nat \<Rightarrow> dict" where
  "escalation_payload n =
     [(''reason'', JStr ''reject_threshold_exceeded''), (''reject_count'', JInt (int n)),
      (''threshold'', JInt (int REJECT_THRESHOLD)),
      (''suggestion'', JStr (''Repeated rejects detected; aborting to break loop. '' @
         ''Consider resubmitting with a different mode or scope-limited permissions.''))]"

definition settle_choice :: "driver_env \<Rightarrow> string \<Rightarrow> decision_choice \<Rightarrow> string drv" where
  "settle_choice dc did ch =
     (if ch = C_approve then thenE (modifyE (\<lambda>s. s\<lparr>dv_rejects := 0\<rparr>)) (retE ''once'')
      else if ch = C_abort then thenE (signal_abort ''permission_rejected'' (Some did)) (retE ''reject'')
      else thenE (modifyE (\<lambda>s. s\<lparr>dv_rejects := Suc (dv_rejects s)\<rparr>)) (
           bindE (getE dv_rejects) (\<lambda>n.
           thenE (whenE (REJECT_THRESHOLD \<le> n)
                    (thenE (log_event dc K_mode_escalation_suggested (escalation_payload n))
                       (signal_abort ''reject_threshold_exceeded'' (Some did))))
             (retE ''reject''))))"

definition settle_timeout :: "driver_env \<Rightarrow> string \<Rightarrow> string \<Rightarrow> string drv" where
  "settle_timeout dc did pid =
     (let (action, choice) = resolve_hitl_timeout_policy dc in
      thenE (inW (bindE (expire_decision did) (\<lambda>_. retE ()))) (
      thenE (log_event dc K_hitl_timeout
               [(''decision_id'', JStr did), (''kind'', JStr ''tool_permission''), (''permission_id'', JStr pid),
                (''on_timeout'', JStr action), (''resolved_choice'', JStr (decision_choice_value choice))]) (
      if choice = C_abort then thenE (signal_abort ''hitl_timeout'' (Some did)) (retE ''reject'')
      else retE ''once'')))"

definition settle_permission :: "driver_env \<Rightarrow> string \<Rightarrow> string \<Rightarrow> pending_decision option \<Rightarrow> string drv" where
  "settle_permission dc did pid resolved =
     (case (case resolved of None \<Rightarrow> None | Some d \<Rightarrow> pd_response d) of
        Some r \<Rightarrow> settle_choice dc did (dp_choice r)
      | None \<Rightarrow> settle_timeout dc did pid)"

definition reply_permission :: "driver_env \<Rightarrow> string \<Rightarrow> string \<Rightarrow> string \<Rightarrow> string \<Rightarrow> unit drv" where
  "reply_permission dc sid pid did answer =
     (let payload = [(''decision_id'', JStr did), (''choice'', JStr answer), (''permission_id'', JStr pid)]
      in tryE (thenE (inW (cl_respond_permission (dc_client dc) sid pid answer)) (
               thenE (log_event dc K_decision_received payload)
                 (dispatch_to_interceptors dc (Some ''decision_received'') (Some payload) ''<synthesized:decision_received>'' [])))
           swallow_exn)"

definition resume_task :: "driver_env \<Rightarrow> unit drv" where
  "resume_task dc =
     bindE (getE dv_abort) (\<lambda>a.
     whenE (a = None) (set_status dc (if rq_mode (dc_request dc) = M_plan_first then S_planning else S_executing)))"

definition finish_permission :: "driver_env \<Rightarrow> string \<Rightarrow> string \<Rightarrow> string \<Rightarrow> pending_decision option \<Rightarrow> unit drv" where
  "finish_permission dc sid pid did resolved =
     bindE (settle_permission dc did pid resolved) (\<lambda>answer.
     thenE (reply_permission dc sid pid did answer) (resume_task dc))"

definition ask_permission :: "driver_env \<Rightarrow> string \<Rightarrow> perm_request \<Rightarrow> unit drv" where
  "ask_permission dc sid pr =
     bindE (inW uuid4) (\<lambda>did.
     let req = permission_decision dc did pr in
     thenE (inW (bindE (insert_decision (dc_task_id dc) req) (\<lambda>_. retE ()))) (
     thenE (log_event dc K_hitl_required
              [(''decision_id'', JStr did), (''kind'', JStr ''tool_permission''), (''summary'', JStr (dq_summary req)),
               (''permission_id'', JStr (pr_permission_id pr))]) (
     thenE (set_status dc S_awaiting_human) (
     bindE (await_decision dc did) (finish_permission dc sid (pr_permission_id pr) did)))))"

definition handle_permission :: "driver_env \<Rightarrow> string \<Rightarrow> perm_request \<Rightarrow> unit drv" where
  "handle_permission dc sid pr =
     (case match_auto_approve dc DK_tool_permission (py_str dc (pr_tool pr)) of
        Some pat \<Rightarrow> auto_approve_permission dc sid (pr_permission_id pr) (pr_tool pr) pat
      | None \<Rightarrow> ask_permission dc sid pr)"

section \<open>Consuming the events of opencode\<close>

definition MODE_ESCALATION_THRESHOLD :: nat where "MODE_ESCALATION_THRESHOLD = 3"

text \<open>What one event does to the loop, which keeps the permission ids seen and their number.\<close>

datatype flow = Go_on "string list" nat | Stop

definition session_error :: "driver_env \<Rightarrow> dict \<Rightarrow> exn" where
  "session_error dc ev =
     (case event_payload ev of
        JObj p \<Rightarrow> RuntimeError (''opencode session.error: '' @
          py_str dc (get_or p ''error'' ''message'' (JStr (py_str dc (dict_get ev ''payload'' (JStr []))))))
      | _ \<Rightarrow> AttributeError ''object has no attribute get'')"

definition note_permission :: "driver_env \<Rightarrow> perm_request \<Rightarrow> string list \<Rightarrow> nat \<Rightarrow> flow drv" where
  "note_permission dc pr seen asks =
     (if pr_permission_id pr \<in> set seen then retE (Go_on seen asks)
      else thenE (modifyE (\<lambda>s. s\<lparr>dv_spawned := dv_spawned s @ [pr]\<rparr>)) (
           thenE (whenE (rq_mode (dc_request dc) = M_direct_execute \<and> Suc asks = MODE_ESCALATION_THRESHOLD)
                    (log_event dc K_mode_escalation_suggested
                       [(''reason'', JStr ''repeated_permission_asks''), (''ask_count'', JInt (int (Suc asks))),
                        (''suggestion'', JStr ''Consider resubmitting with mode=plan_first'')]))
             (retE (Go_on (pr_permission_id pr # seen) (Suc asks)))))"

text \<open>\<open>dict(raw_event.get("payload") or {})\<close>, for a payload that a normalised event has.\<close>

definition raw_payload_of :: "dict \<Rightarrow> dict" where
  "raw_payload_of ev = obj_of (event_payload ev)"

definition record_event :: "driver_env \<Rightarrow> dict \<Rightarrow> normalized_event \<Rightarrow> unit drv" where
  "record_event dc ev n =
     thenE (dispatch_to_interceptors dc (Some (ne_kind n)) (Some (ne_payload n)) (ne_raw_type n) (raw_payload_of ev)) (
     thenE (modifyE (\<lambda>s. if ne_kind n = ''assistant_delta'' \<and> py_truthy (dict_get (ne_payload n) ''content'' (JStr []))
                         then s\<lparr>dv_buffer := dv_buffer s @ [dict_get (ne_payload n) ''content'' (JStr [])]\<rparr> else s))
       (case event_kind_of (ne_kind n) of None \<Rightarrow> retE () | Some k \<Rightarrow> log_event dc k (ne_payload n)))"

definition sse_step :: "driver_env \<Rightarrow> string list \<Rightarrow> nat \<Rightarrow> dict \<Rightarrow> flow drv" where
  "sse_step dc seen asks ev =
     bindE (getE dv_abort) (\<lambda>a.
     if a \<noteq> None then retE Stop
     else if is_session_idle ev then retE Stop
     else if dict_get ev ''type'' JNull = JStr ''session.error'' then raiseE (session_error dc ev)
     else thenE (modifyE (\<lambda>s. case extract_diff ev of None \<Rightarrow> s | Some d \<Rightarrow> s\<lparr>dv_diff := d\<rparr>)) (
          bindE (liftE (extract_permission_request ev)) (\<lambda>perm.
          case perm of
            Some pr \<Rightarrow> note_permission dc pr seen asks
          | None \<Rightarrow>
              bindE (liftE (normalize_opencode_event ev)) (\<lambda>norm.
              case norm of
                None \<Rightarrow> retE (Go_on seen asks)
              | Some n \<Rightarrow> thenE (record_event dc ev n) (retE (Go_on seen asks))))))"

text \<open>The stream: an item is an event, a JSON value that is no dictionary, or the exception that
  ends it.\<close>

fun sse_loop :: "driver_env \<Rightarrow> string list \<Rightarrow> nat \<Rightarrow> (exn + json) list \<Rightarrow> unit drv" where
  "sse_loop dc seen asks [] = retE ()"
| "sse_loop dc seen asks (Inl e # evs) = raiseE e"
| "sse_loop dc seen asks (Inr v # evs) =
     (case v of
        JObj ev \<Rightarrow>
          bindE (sse_step dc seen asks ev) (\<lambda>f.
          case f of Stop \<Rightarrow> retE () | Go_on seen' asks' \<Rightarrow> sse_loop dc seen' asks' evs)
      | _ \<Rightarrow> bindE (getE dv_abort) (\<lambda>a.
               if a \<noteq> None then retE () else raiseE (AttributeError ''object has no attribute get'')))"

text \<open>\<open>"".join(self._assistant_buffer)\<close>.\<close>

fun join_texts :: "json list \<Rightarrow> exn + string" where
  "join_texts [] = Inr []"
| "join_texts (JStr s # vs) = (case join_texts vs of Inl e \<Rightarrow> Inl e | Inr r \<Rightarrow> Inr (s @ r))"
| "join_texts (_ # vs) = Inl (TypeError ''sequence item: expected str instance'')"

definition save_plan :: "driver_env \<Rightarrow> unit drv" where
  "save_plan dc =
     bindE (getE dv_buffer) (\<lambda>buf.
     whenE (rq_mode (dc_request dc) = M_plan_first \<and> buf \<noteq> [])
       (bindE (liftE (join_texts buf)) (\<lambda>t. modifyE (\<lambda>s. s\<lparr>dv_plan := Some t\<rparr>))))"

definition consume_sse :: "driver_env \<Rightarrow> (exn + json) list \<Rightarrow> unit drv" where
  "consume_sse dc evs = thenE (tryE (sse_loop dc [] 0 evs) swallow_exn) (save_plan dc)"

text \<open>\<open>_consume_sse\<close> cancelled in the middle: the events it got to, and nothing after the loop.\<close>

definition consume_sse_cancelled :: "driver_env \<Rightarrow> (exn + json) list \<Rightarrow> unit drv" where
  "consume_sse_cancelled dc evs = tryE (sse_loop dc [] 0 evs) swallow_exn"

section \<open>Polling\<close>

fun session_idle_rev :: "json list \<Rightarrow> exn + bool" where
  "session_idle_rev [] = Inr False"
| "session_idle_rev (JObj m # ms) =
     (case dict_get m ''info'' (JObj []) of
        JObj info \<Rightarrow>
          if dict_get info ''role'' JNull = JStr ''assistant''
          then Inr (case dict_get info ''time'' (JObj []) of
                      JObj t \<Rightarrow> py_truthy (dict_get t ''completed'' JNull) | _ \<Rightarrow> False)
          else session_idle_rev ms
      | _ \<Rightarrow> session_idle_rev ms)"
| "session_idle_rev (_ # ms) = Inl (AttributeError ''object has no attribute get'')"

definition is_session_messages_idle :: "json list \<Rightarrow> exn + bool" where
  "is_session_messages_idle ms = session_idle_rev (rev ms)"

text \<open>\<open>waits\<close> is what happens during each sleep of five seconds; \<open>True\<close> means the poll returned,
  \<open>False\<close> that it still runs after the last of them.\<close>

fun poll_session_idle :: "driver_env \<Rightarrow> string \<Rightarrow> (driver_state \<Rightarrow> driver_state) list \<Rightarrow> bool drv" where
  "poll_session_idle dc sid [] = bindE (getE dv_abort) (\<lambda>a. retE (a \<noteq> None))"
| "poll_session_idle dc sid (env # waits) =
     bindE (getE dv_abort) (\<lambda>a.
     if a \<noteq> None then retE True
     else thenE (modifyE env) (
          bindE (getE dv_abort) (\<lambda>b.
          if b \<noteq> None then retE True
          else bindE (tryE (bindE (inW (cl_get_messages (dc_client dc) sid)) (\<lambda>ms. liftE (is_session_messages_idle ms)))
                        (\<lambda>e. if is_Exception e then retE False else raiseE e)) (\<lambda>idle.
               if idle then retE True else poll_session_idle dc sid waits))))"

section \<open>Artifacts\<close>

definition task_artifacts_dir :: "driver_env \<Rightarrow> string" where
  "task_artifacts_dir dc = path_join (artifacts_dir (dc_settings dc)) (dc_task_id dc)"

definition expiry :: "driver_env \<Rightarrow> timestamp \<Rightarrow> timestamp" where
  "expiry dc now = now + real_of_int (st_artifact_retention_days (dc_settings dc) * 86400)"

text \<open>\<open>Path.write_text\<close> of a dumped JSON value.\<close>

definition write_json :: "driver_env \<Rightarrow> string \<Rightarrow> json \<Rightarrow> unit drv" where
  "write_json dc path v =
     bindE (liftE (os_resolve (dc_os dc) path)) (\<lambda>rp.
     inW (modifyE (\<lambda>w. w\<lparr>w_files := dict_set rp v (w_files w)\<rparr>)))"

definition register_artifact ::
    "driver_env \<Rightarrow> artifact_type \<Rightarrow> string \<Rightarrow> string \<Rightarrow> int \<Rightarrow> timestamp \<Rightarrow> dict \<Rightarrow> dict \<Rightarrow> unit drv" where
  "register_artifact dc ty filename path sz now meta event_meta =
     bindE (inW uuid4) (\<lambda>aid.
     thenE (inW (insert_artifact
        \<lparr>art_id = aid, art_task_id = dc_task_id dc, art_type = ty, art_filename = filename, art_size = Some sz,
         art_created_at = now, art_expires_at = Some (expiry dc now), art_download_url = None, art_metadata = meta\<rparr>
        (Some path)))
       (log_event dc K_artifact_ready
          ([(''artifact_id'', JStr aid), (''type'', JStr (artifact_type_value ty)), (''filename'', JStr filename)] @ event_meta)))"

text \<open>One of the two artifacts of a session: its data, if any, is written and registered.\<close>

definition save_artifact :: "driver_env \<Rightarrow> timestamp \<Rightarrow> artifact_type \<Rightarrow> string \<Rightarrow> json list \<Rightarrow> unit drv" where
  "save_artifact dc now ty filename data =
     (let path = path_join (task_artifacts_dir dc) filename in
      whenE (data \<noteq> [])
        (thenE (write_json dc path (JList data))
           (register_artifact dc ty filename path (dc_size dc (JList data)) now [] [])))"

definition collect_session_artifacts :: "driver_env \<Rightarrow> string \<Rightarrow> unit drv" where
  "collect_session_artifacts dc sid =
     thenE (inW (dc_mkdir dc (task_artifacts_dir dc))) (
     bindE (inW time_now) (\<lambda>now.
     thenE (tryE (bindE (inW (cl_get_diff (dc_client dc) sid)) (\<lambda>d.
                    bindE (getE dv_diff) (\<lambda>last_diff.
                    save_artifact dc now A_diff ''changes.diff.json'' (if d = [] then last_diff else d)))) swallow_exn)
       (tryE (bindE (inW (cl_get_messages (dc_client dc) sid)) (save_artifact dc now A_transcript ''transcript.json''))
          swallow_exn)))"

text \<open>The size of a directory is that of \<open>JNull\<close>.\<close>

definition register_interceptor_artifact :: "driver_env \<Rightarrow> interceptor_artifact \<Rightarrow> unit drv" where
  "register_interceptor_artifact dc art =
     bindE (liftE (os_resolve (dc_os dc) (task_artifacts_dir dc))) (\<lambda>base.
     bindE (liftE (os_resolve (dc_os dc) (ia_local_path art))) (\<lambda>target.
     bindE (inW (getE w_files)) (\<lambda>fs.
     if \<not> in_subtree base target then retE ()
     else if \<not> list_ex (\<lambda>f. prefix target (fst f)) fs then retE ()
     else (case artifact_type_of (ia_artifact_type art) of
             None \<Rightarrow> retE ()
           | Some ty \<Rightarrow>
               bindE (inW time_now) (\<lambda>now.
               register_artifact dc ty (ia_filename art) (path_text target)
                 (case ia_size_bytes art of Some n \<Rightarrow> n
                  | None \<Rightarrow> (case map_of fs target of Some v \<Rightarrow> dc_size dc v | None \<Rightarrow> dc_size dc JNull))
                 now (ia_metadata art) [(''metadata'', JObj (ia_metadata art))])))))"

definition dispatch_terminal_and_flush :: "driver_env \<Rightarrow> task_status \<Rightarrow> string option \<Rightarrow> unit drv" where
  "dispatch_terminal_and_flush dc st reason =
     bindE (getE id) (\<lambda>s.
     if rn_interceptors (dv_runner s) = [] then retE ()
     else bindE (inW time_now) (\<lambda>now.
          thenE (tryE (inR (dispatch_terminal \<lparr>tg_task_id = dc_task_id dc, tg_session_id = dv_session s,
                   tg_status = task_status_value st, tg_reason = reason, tg_ended_at = now\<rparr>)) swallow_exn) (
          bindE (tryE (bindE (inR collect_artifacts) (\<lambda>arts. retE (Some arts)))
                   (\<lambda>e. if is_Exception e then retE None else raiseE e)) (\<lambda>arts.
          case arts of
            None \<Rightarrow> retE ()
          | Some as \<Rightarrow> forE as (\<lambda>a. tryE (register_interceptor_artifact dc a) swallow_exn)))))"

section \<open>The session\<close>

definition text_part :: "string \<Rightarrow> json" where
  "text_part t = JList [JObj [(''type'', JStr ''text''), (''text'', JStr t)]]"

definition inject_messages :: "driver_env \<Rightarrow> string \<Rightarrow> unit drv" where
  "inject_messages dc sid =
     forE (filter (\<lambda>m. msg_role m = ''user'') (rq_messages (dc_request dc)))
       (\<lambda>m. inW (cl_send_message (dc_client dc) sid (text_part (msg_content m))))"

definition build_prompt_parts :: "driver_env \<Rightarrow> json" where
  "build_prompt_parts dc =
     (case find (\<lambda>m. msg_role m = ''user'') (rev (rq_messages (dc_request dc))) of
        Some m \<Rightarrow> text_part (msg_content m) | None \<Rightarrow> text_part ''Begin task.'')"

definition announce_messages :: "driver_env \<Rightarrow> unit drv" where
  "announce_messages dc =
     forE (rq_messages (dc_request dc)) (\<lambda>m.
       dispatch_to_interceptors dc (Some (''initial_'' @ msg_role m @ ''_message''))
         (Some [(''role'', JStr (msg_role m)), (''content'', JStr (msg_content m))]) ''<synthesized:initial_message>'' [])"

definition plan_decision :: "driver_env \<Rightarrow> string \<Rightarrow> string \<Rightarrow> decision_request" where
  "plan_decision dc did plan =
     \<lparr>dq_decision_id = did, dq_kind = DK_plan_approval, dq_summary = plan_summary,
      dq_options = [C_approve, C_reject, C_revise, C_abort],
      dq_default_on_timeout = snd (resolve_hitl_timeout_policy dc), dq_expires_at = None,
      dq_ctx = [(''plan_text'', JStr plan)]\<rparr>"

definition settle_plan :: "driver_env \<Rightarrow> string \<Rightarrow> pending_decision option \<Rightarrow> decision_choice drv" where
  "settle_plan dc did resolved =
     (case (case resolved of None \<Rightarrow> None | Some d \<Rightarrow> pd_response d) of
        Some r \<Rightarrow> retE (dp_choice r)
      | None \<Rightarrow>
          (let (action, choice) = resolve_hitl_timeout_policy dc in
           thenE (inW (bindE (expire_decision did) (\<lambda>_. retE ()))) (
           thenE (log_event dc K_hitl_timeout
                    [(''decision_id'', JStr did), (''kind'', JStr ''plan_approval''), (''on_timeout'', JStr action),
                     (''resolved_choice'', JStr (decision_choice_value choice))])
             (retE choice))))"

text \<open>After the approval the session goes on with \<open>/start-work\<close>; the events \<open>evs\<close> of the second
  subscription are consumed once the prompt is sent.\<close>

definition execute_plan :: "driver_env \<Rightarrow> string \<Rightarrow> (exn + json) list \<Rightarrow> unit drv" where
  "execute_plan dc sid evs =
     thenE (set_status dc S_executing) (
     thenE (log_event dc K_execution_started [(''mode'', JStr ''plan_first''), (''plan_approved'', JBool True)]) (
     thenE (modifyE (\<lambda>s. s\<lparr>dv_buffer := [], dv_plan := None\<rparr>)) (
     thenE (inW (cl_prompt_async (dc_client dc) sid (text_part ''/start-work'') AGENT_SISYPHUS
                   (prof_model (rq_profile (dc_request dc)))))
       (consume_sse dc evs))))"

definition handle_plan_approval :: "driver_env \<Rightarrow> string \<Rightarrow> (exn + json) list \<Rightarrow> unit drv" where
  "handle_plan_approval dc sid evs =
     bindE (getE dv_plan) (\<lambda>p.
     let plan = (case p of None \<Rightarrow> [] | Some t \<Rightarrow> t) in
     bindE (inW uuid4) (\<lambda>did.
     thenE (log_event dc K_plan_ready [(''plan_text'', JStr plan), (''decision_id'', JStr did)]) (
     thenE (inW (bindE (insert_decision (dc_task_id dc) (plan_decision dc did plan)) (\<lambda>_. retE ()))) (
     thenE (log_event dc K_hitl_required
              [(''decision_id'', JStr did), (''kind'', JStr ''plan_approval''), (''summary'', JStr plan_summary)]) (
     thenE (set_status dc S_awaiting_human) (
     bindE (await_decision dc did) (\<lambda>resolved.
     bindE (settle_plan dc did resolved) (\<lambda>choice.
     let payload = [(''decision_id'', JStr did), (''choice'', JStr (decision_choice_value choice))] in
     thenE (log_event dc K_decision_received payload) (
     thenE (dispatch_to_interceptors dc (Some ''decision_received'') (Some payload) ''<synthesized:decision_received>'' []) (
     if choice = C_approve then execute_plan dc sid evs
     else thenE (signal_abort ''plan_rejected'' (Some did))
            (raiseE (TaskAbortedError ''plan_rejected''
               (''plan rejected/aborted by user (choice='' @ [CHR 0x27] @ decision_choice_value choice @ [CHR 0x27] @ '')'') (Some did)))))))))))))"

text \<open>Which of the two background coroutines ends first, and the events consumed by then.\<close>

datatype race = Sse_ends "(exn + json) list" | Poll_ends "(exn + json) list"

definition await_session :: "driver_env \<Rightarrow> race \<Rightarrow> unit drv" where
  "await_session dc r =
     thenE (case r of Sse_ends evs \<Rightarrow> consume_sse dc evs | Poll_ends evs \<Rightarrow> consume_sse_cancelled dc evs)
       (modifyE (dc_run_spawned dc))"

definition start_mode :: "driver_env \<Rightarrow> string drv" where
  "start_mode dc =
     (if rq_mode (dc_request dc) = M_plan_first
      then thenE (set_status dc S_planning) (
           thenE (log_event dc K_task_started [(''phase'', JStr ''planning'')]) (retE AGENT_PROMETHEUS))
      else thenE (set_status dc S_executing) (
           thenE (log_event dc K_execution_started [(''mode'', JStr (task_mode_value (rq_mode (dc_request dc))))])
             (retE AGENT_SISYPHUS)))"

definition run_inner :: "driver_env \<Rightarrow> race \<Rightarrow> (exn + json) list \<Rightarrow> unit drv" where
  "run_inner dc r exec_events =
     bindE (inW (cl_create_session (dc_client dc))) (\<lambda>d.
     let v = py_or (dict_get d ''id'' JNull) (dict_get d ''sessionId'' JNull) in
     if \<not> py_truthy v then raiseE (RuntimeError ''opencode create_session returned no id'')
     else
      let sid = py_str dc v in
      thenE (modifyE (\<lambda>s. s\<lparr>dv_session := Some sid\<rparr>)) (
      thenE (inW (update_task_status_full (dc_task_id dc) S_starting_opencode None (Some sid))) (
      thenE (whenE (rq_messages (dc_request dc) \<noteq> []) (thenE (inject_messages dc sid) (announce_messages dc))) (
      bindE (start_mode dc) (\<lambda>agent.
      thenE (inW (cl_prompt_async (dc_client dc) sid (build_prompt_parts dc) agent (prof_model (rq_profile (dc_request dc))))) (
      thenE (await_session dc r) (
      bindE (getE dv_abort) (\<lambda>a.
      thenE (whenE (rq_mode (dc_request dc) = M_plan_first \<and> a = None) (handle_plan_approval dc sid exec_events)) (
      bindE (getE dv_abort) (\<lambda>b.
      thenE (whenE (b = None) (collect_session_artifacts dc sid)) (
      bindE (getE dv_abort) (\<lambda>c.
      case c of
        None \<Rightarrow> retE ()
      | Some (reason, did) \<Rightarrow>
          raiseE (task_aborted_error (if reason = [] then ''system'' else reason) None did)))))))))))))"

text \<open>\<open>asyncio.timeout\<close>: either the body ends in time, or the timeout fires in a state that some
  prefix of it reached.\<close>

definition in_time :: "(driver_state \<Rightarrow> driver_state) option \<Rightarrow> unit drv \<Rightarrow> unit drv" where
  "in_time fired body = (case fired of None \<Rightarrow> body | Some f \<Rightarrow> thenE (modifyE f) (raiseE TimeoutError))"

fun final_outcome :: "exn + unit \<Rightarrow> task_status \<times> string option" where
  "final_outcome (Inr _) = (S_completed, None)"
| "final_outcome (Inl (TaskAbortedError reason _ _)) = (S_aborted, Some reason)"
| "final_outcome (Inl (TaskTimedOutError _ _)) = (S_timed_out, Some ''timeout'')"
| "final_outcome (Inl TimeoutError) = (S_timed_out, Some ''timeout'')"
| "final_outcome (Inl CancelledError) = (S_completed, None)"
| "final_outcome (Inl e) = (S_failed, Some (exn_name e))"

definition on_timeout :: "driver_env \<Rightarrow> exn \<Rightarrow> unit drv" where
  "on_timeout dc e =
     (if e = TimeoutError
      then bindE (getE dv_session) (\<lambda>sid.
           thenE (case sid of None \<Rightarrow> retE () | Some x \<Rightarrow> if x = [] then retE () else inW (cl_abort_session (dc_client dc) x))
             (raiseE (task_timed_out_error (timeout_sec dc) None)))
      else raiseE e)"

definition close_session :: "driver_env \<Rightarrow> unit drv" where
  "close_session dc =
     bindE (getE dv_session) (\<lambda>sid.
     thenE (case sid of None \<Rightarrow> retE () | Some x \<Rightarrow> if x = [] then retE () else inW (cl_delete_session (dc_client dc) x))
       (inW (cl_aclose (dc_client dc))))"

text \<open>\<open>run\<close>: the outcome is announced before the session is closed; the exception of the
  \<open>finally\<close> block, if any, replaces that of the body.\<close>

definition run_driver :: "driver_env \<Rightarrow> (driver_state \<Rightarrow> driver_state) option \<Rightarrow> race \<Rightarrow> (exn + json) list \<Rightarrow> unit drv" where
  "run_driver dc fired r exec_events s =
     (case in_time fired (run_inner dc r exec_events) s of (out, s1) \<Rightarrow>
       finallyE (tryE (\<lambda>s. (out, s)) (on_timeout dc))
         (thenE (dispatch_terminal_and_flush dc (fst (final_outcome out)) (snd (final_outcome out))) (close_session dc)) s1)"

text \<open>\<open>_drive_opencode\<close>: the interceptors of the profile, a driver, its run.\<close>

definition drive_opencode ::
    "driver_env \<Rightarrow> world factories \<Rightarrow> (driver_state \<Rightarrow> driver_state) option \<Rightarrow> race \<Rightarrow> (exn + json) list \<Rightarrow> unit io" where
  "drive_opencode dc fs fired r exec_events =
     thenE get_db (
     bindE (liftE (build_interceptors_from_config (prof_interceptors (rq_profile (dc_request dc))) fs)) (\<lambda>ics.
     bindE (liftE (new_runner ics DEFAULT_ERROR_BUDGET)) (\<lambda>rn.
     (\<lambda>w. case run_driver dc fired r exec_events (new_driver rn w) of (out, s) \<Rightarrow> (out, dv_world s)))))"

end
