(* ===== verification/Driver_Props.thy ===== *)
theory Driver_Props
  imports Driver Api
begin

text \<open>
  Properties of the opencode driver: how a permission is settled, that waiting for a decision is
  bounded, that every permission of a stream is handled once, that its outcome is the one the
  queue records, and where the code departs from its comments.
\<close>

section \<open>Steps in a calm world\<close>

definition drv_ready :: "driver_env \<Rightarrow> driver_state \<Rightarrow> bool" where
  "drv_ready dc s \<longleftrightarrow> calm (dv_world s) \<and> fk_ok (dc_task_id dc) (w_db (dv_world s))"

abbreviation task_log_of :: "driver_env \<Rightarrow> driver_state \<Rightarrow> view list" where
  "task_log_of dc s \<equiv> log_view (dc_task_id dc) (dv_world s)"

abbreviation status_of :: "driver_env \<Rightarrow> driver_state \<Rightarrow> string option" where
  "status_of dc s \<equiv> map_option tr_status (find_task (dc_task_id dc) (w_db (dv_world s)))"

lemma log_event_run:
  assumes "drv_ready dc s"
  shows "\<exists>w. log_event dc k p s = (Inr (), s\<lparr>dv_world := w\<rparr>) \<and> drv_ready dc (s\<lparr>dv_world := w\<rparr>) \<and>
    status_of dc (s\<lparr>dv_world := w\<rparr>) = status_of dc s \<and>
    task_log_of dc (s\<lparr>dv_world := w\<rparr>) =
      task_log_of dc s @ [(int (Suc (length (task_log_of dc s))), event_kind_value k, JText (JObj p))] \<and>
    db_decisions (w_db w) = db_decisions (w_db (dv_world s))"
proof -
  obtain ev w where w: "insert_event (dc_task_id dc) k p (dv_world s) = (Inr ev, w)" "calm w"
    "fk_ok (dc_task_id dc) (w_db w)" "db_tasks (w_db w) = db_tasks (w_db (dv_world s))"
    "log_view (dc_task_id dc) w = task_log_of dc s @ [(int (Suc (length (task_log_of dc s))), event_kind_value k, JText (JObj p))]"
    using insert_event_calm [of "dv_world s" "dc_task_id dc" k p] assms by (auto simp: drv_ready_def)
  have "log_event dc k p s = (Inr (), s\<lparr>dv_world := w\<rparr>)"
    using w(1) by (simp add: log_event_def inW_def bindE_def retE_def)
  moreover have "db_decisions (w_db w) = db_decisions (w_db (dv_world s))"
    using insert_event_run(2) [of "dv_world s" "dc_task_id dc" k p] w(1) assms by (simp add: drv_ready_def calm_def)
  ultimately show ?thesis using w by (intro exI [of _ w]) (simp add: drv_ready_def find_task_def)
qed

lemma set_status_run:
  assumes "drv_ready dc s"
  shows "\<exists>w. set_status dc st s = (Inr (), s\<lparr>dv_world := w\<rparr>) \<and> drv_ready dc (s\<lparr>dv_world := w\<rparr>) \<and>
    status_of dc (s\<lparr>dv_world := w\<rparr>) = map_option (\<lambda>_. task_status_value st) (status_of dc s) \<and>
    task_log_of dc (s\<lparr>dv_world := w\<rparr>) = task_log_of dc s \<and> db_decisions (w_db w) = db_decisions (w_db (dv_world s))"
proof -
  let ?w = "dv_world s"
  let ?w' = "snd (update_task_status (dc_task_id dc) st ?w)"
  have f: "w_faults ?w = []" "db_ok (w_db ?w)" using assms by (simp_all add: drv_ready_def calm_def)
  have run: "update_task_status (dc_task_id dc) st ?w = (Inr (), ?w')"
    using f by (simp add: update_status_run)
  have "db_ok (w_db ?w')" using db_safeD [OF db_safe_update_task_status] f(2) by blast
  then show ?thesis
    using assms f run
    by (intro exI [of _ ?w'])
      (simp add: set_status_def inW_def drv_ready_def calm_def update_status_run fk_ok_update_tasks log_view_def events_of_def
        find_updated_task option.map_comp comp_def)
qed

lemma expire_run:
  assumes "drv_ready dc s"
  shows "\<exists>w. inW (bindE (expire_decision did) (\<lambda>_. retE ())) s = (Inr (), s\<lparr>dv_world := w\<rparr>) \<and> drv_ready dc (s\<lparr>dv_world := w\<rparr>) \<and>
    status_of dc (s\<lparr>dv_world := w\<rparr>) = status_of dc s \<and> task_log_of dc (s\<lparr>dv_world := w\<rparr>) = task_log_of dc s"
proof -
  let ?w = "dv_world s"
  have f: "w_faults ?w = []" "db_ok (w_db ?w)" using assms by (simp_all add: drv_ready_def calm_def)
  obtain b w' where run: "expire_decision did ?w = (Inr b, w')" "w_faults w' = []"
    "db_tasks (w_db w') = db_tasks (w_db ?w)" "db_events (w_db w') = db_events (w_db ?w)"
    "db_foreign_keys (w_db w') = db_foreign_keys (w_db ?w)"
    using f(1) by (simp add: expire_decision_def comp_defs update_db_def)
  have "db_ok (w_db w')" using db_safeD [OF db_safe_expire_decision f(2), of did] run(1) by simp
  then show ?thesis
    using assms run
    by (intro exI [of _ w'])
      (simp add: inW_def bindE_def retE_def drv_ready_def calm_def log_view_def events_of_def find_task_def fk_ok_def task_exists_def)
qed

lemma signal_abort_run:
  "signal_abort reason did s = (Inr (), s\<lparr>dv_abort := (case dv_abort s of None \<Rightarrow> Some (reason, did) | Some a \<Rightarrow> Some a)\<rparr>)"
  by (simp add: signal_abort_def modifyE_def split: option.split)

lemma drv_ready_abort [simp]: "drv_ready dc (s\<lparr>dv_abort := a\<rparr>) = drv_ready dc s" "drv_ready dc (s\<lparr>dv_rejects := n\<rparr>) = drv_ready dc s"
  by (simp_all add: drv_ready_def)

section \<open>Settling a permission\<close>

text \<open>The specification: what opencode is told, the reason of an abort, the reject count after.\<close>

fun verdict :: "decision_choice option \<Rightarrow> decision_choice \<Rightarrow> nat \<Rightarrow> string \<times> string option \<times> nat" where
  "verdict (Some C_approve) dflt n = (''once'', None, 0)"
| "verdict (Some C_abort) dflt n = (''reject'', Some ''permission_rejected'', n)"
| "verdict (Some _) dflt n =
     (''reject'', if REJECT_THRESHOLD \<le> Suc n then Some ''reject_threshold_exceeded'' else None, Suc n)"
| "verdict None C_abort n = (''reject'', Some ''hitl_timeout'', n)"
| "verdict None _ n = (''once'', None, n)"

definition settled :: "driver_env \<Rightarrow> driver_state \<Rightarrow> string \<Rightarrow> string \<times> string option \<times> nat \<Rightarrow> driver_state \<Rightarrow> bool" where
  "settled dc s did v s' \<longleftrightarrow>
     dv_rejects s' = snd (snd v) \<and>
     dv_abort s' = (case dv_abort s of Some a \<Rightarrow> Some a | None \<Rightarrow> map_option (\<lambda>r. (r, Some did)) (fst (snd v))) \<and>
     drv_ready dc s' \<and> status_of dc s' = status_of dc s \<and> prefix (task_log_of dc s) (task_log_of dc s')"

lemma settle_choice_run:
  assumes "drv_ready dc s"
  shows "\<exists>s'. settle_choice dc did ch s = (Inr (fst (verdict (Some ch) dflt (dv_rejects s))), s') \<and>
    settled dc s did (verdict (Some ch) dflt (dv_rejects s)) s'"
proof -
  consider "ch = C_approve" | "ch = C_abort" | "ch = C_reject \<or> ch = C_revise" by (cases ch) auto
  then show ?thesis
  proof cases
    case 1
    then show ?thesis using assms
      by (simp add: settle_choice_def thenE_def bindE_def modifyE_def retE_def settled_def split: option.split)
  next
    case 2
    then show ?thesis using assms
      by (simp add: settle_choice_def thenE_def bindE_def signal_abort_run retE_def settled_def split: option.split)
  next
    case 3
    let ?s1 = "s\<lparr>dv_rejects := Suc (dv_rejects s)\<rparr>"
    have v: "verdict (Some ch) dflt n =
      (''reject'', if REJECT_THRESHOLD \<le> Suc n then Some ''reject_threshold_exceeded'' else None, Suc n)" for n
      using 3 by auto
    have ne: "ch \<noteq> C_approve" "ch \<noteq> C_abort" using 3 by auto
    obtain w where w: "log_event dc K_mode_escalation_suggested (escalation_payload (Suc (dv_rejects s))) ?s1 = (Inr (), ?s1\<lparr>dv_world := w\<rparr>)"
      "drv_ready dc (?s1\<lparr>dv_world := w\<rparr>)" "status_of dc (?s1\<lparr>dv_world := w\<rparr>) = status_of dc ?s1"
      "prefix (task_log_of dc ?s1) (task_log_of dc (?s1\<lparr>dv_world := w\<rparr>))"
      using log_event_run [of dc ?s1 K_mode_escalation_suggested "escalation_payload (Suc (dv_rejects s))"] assms
      by fastforce
    then show ?thesis unfolding v using ne assms
      by (simp add: settle_choice_def thenE_def bindE_def modifyE_def getE_def retE_def whenE_def signal_abort_run settled_def
          split: option.split)
  qed
qed

lemma settle_timeout_run:
  assumes "drv_ready dc s"
  shows "\<exists>s'. settle_timeout dc did pid s =
      (Inr (fst (verdict None (snd (resolve_hitl_timeout_policy dc)) (dv_rejects s))), s') \<and>
    settled dc s did (verdict None (snd (resolve_hitl_timeout_policy dc)) (dv_rejects s)) s'"
proof -
  obtain action ch where pol: "resolve_hitl_timeout_policy dc = (action, ch)" by (metis prod.exhaust)
  have ch: "ch = C_abort \<or> ch = C_approve"
    using pol by (auto simp: resolve_hitl_timeout_policy_def Let_def split: if_splits)
  obtain w where w: "inW (bindE (expire_decision did) (\<lambda>_. retE ())) s = (Inr (), s\<lparr>dv_world := w\<rparr>)"
    "drv_ready dc (s\<lparr>dv_world := w\<rparr>)" "status_of dc (s\<lparr>dv_world := w\<rparr>) = status_of dc s"
    "task_log_of dc (s\<lparr>dv_world := w\<rparr>) = task_log_of dc s"
    using expire_run [OF assms, of did] by blast
  let ?p = "[(''decision_id'', JStr did), (''kind'', JStr ''tool_permission''), (''permission_id'', JStr pid),
                (''on_timeout'', JStr action), (''resolved_choice'', JStr (decision_choice_value ch))]"
  obtain w2 where w2: "log_event dc K_hitl_timeout ?p (s\<lparr>dv_world := w\<rparr>) = (Inr (), s\<lparr>dv_world := w2\<rparr>)"
    "drv_ready dc (s\<lparr>dv_world := w2\<rparr>)" "status_of dc (s\<lparr>dv_world := w2\<rparr>) = status_of dc s"
    "prefix (task_log_of dc s) (task_log_of dc (s\<lparr>dv_world := w2\<rparr>))"
    using log_event_run [OF w(2), of K_hitl_timeout ?p] w(3,4) by fastforce
  show ?thesis using ch w(1) w2
    by (auto simp: settle_timeout_def pol thenE_def bindE_def signal_abort_run retE_def settled_def split: option.split)
qed

text \<open>C22: A permission is settled as specified: an approval answers \<open>once\<close> and clears the reject
  count; a rejection or revision answers \<open>reject\<close> and, at the third in a row, aborts the task; an
  abort answers \<open>reject\<close> and aborts; no response in time follows the task's timeout policy. The
  first abort keeps its reason whatever is settled later, and settling leaves the task's status
  alone and only adds to its log.\<close>

theorem permission_is_settled_as_specified:
  assumes "calm (dv_world s)" and "fk_ok (dc_task_id dc) (w_db (dv_world s))"
    and "choice = map_option dp_choice (case resolved of None \<Rightarrow> None | Some d \<Rightarrow> pd_response d)"
    and "v = verdict choice (snd (resolve_hitl_timeout_policy dc)) (dv_rejects s)"
  shows "\<exists>s'. settle_permission dc did pid resolved s = (Inr (fst v), s') \<and>
    dv_rejects s' = snd (snd v) \<and>
    dv_abort s' = (case dv_abort s of Some a \<Rightarrow> Some a | None \<Rightarrow> map_option (\<lambda>r. (r, Some did)) (fst (snd v))) \<and>
    status_of dc s' = status_of dc s \<and> prefix (task_log_of dc s) (task_log_of dc s')"
proof -
  have r: "drv_ready dc s" using assms(1,2) by (simp add: drv_ready_def)
  show ?thesis
  proof (cases "case resolved of None \<Rightarrow> None | Some d \<Rightarrow> pd_response d")
    case None
    then show ?thesis using settle_timeout_run [OF r, of did pid] assms(3,4)
      by (auto simp: settle_permission_def settled_def)
  next
    case (Some x)
    then show ?thesis
      using settle_choice_run [OF r, of did "dp_choice x" "snd (resolve_hitl_timeout_policy dc)"] assms(3,4)
      by (auto simp: settle_permission_def settled_def)
  qed
qed

section \<open>Answering opencode and going on\<close>

text \<open>What the driver may assume of a call to opencode: it leaves the worker's own state alone
  and fails with an ordinary exception only.\<close>

definition outside_call :: "'a io \<Rightarrow> bool" where
  "outside_call m \<longleftrightarrow> preserves id m \<and> raises is_Exception m"

lemma outside_call_cases:
  assumes "outside_call m"
  obtains x where "m w = (Inr x, w)" | e where "m w = (Inl e, w)" "is_Exception e"
proof (cases "m w")
  case (Pair r w')
  have "w' = w" using assms preservesD [of id m w] Pair by (simp add: outside_call_def)
  then show thesis using that assms Pair by (cases r) (auto simp: outside_call_def dest: raisesD)
qed

lemma dispatch_none:
  "rn_interceptors (dv_runner s) = [] \<Longrightarrow> dispatch_to_interceptors dc k p rt rp s = (Inr (), s)"
  by (simp add: dispatch_to_interceptors_def bindE_def getE_def retE_def)

lemma reply_permission_run:
  assumes "drv_ready dc s" and "rn_interceptors (dv_runner s) = []"
    and "outside_call (cl_respond_permission (dc_client dc) sid pid answer)"
  shows "\<exists>w. reply_permission dc sid pid did answer s = (Inr (), s\<lparr>dv_world := w\<rparr>) \<and> drv_ready dc (s\<lparr>dv_world := w\<rparr>) \<and>
    status_of dc (s\<lparr>dv_world := w\<rparr>) = status_of dc s \<and> prefix (task_log_of dc s) (task_log_of dc (s\<lparr>dv_world := w\<rparr>))"
proof -
  let ?p = "[(''decision_id'', JStr did), (''choice'', JStr answer), (''permission_id'', JStr pid)]"
  show ?thesis using assms(3)
  proof (rule outside_call_cases [where w = "dv_world s"])
    fix x assume x: "cl_respond_permission (dc_client dc) sid pid answer (dv_world s) = (Inr x, dv_world s)"
    obtain w where w: "log_event dc K_decision_received ?p s = (Inr (), s\<lparr>dv_world := w\<rparr>)" "drv_ready dc (s\<lparr>dv_world := w\<rparr>)"
      "status_of dc (s\<lparr>dv_world := w\<rparr>) = status_of dc s" "prefix (task_log_of dc s) (task_log_of dc (s\<lparr>dv_world := w\<rparr>))"
      using log_event_run [OF assms(1), of K_decision_received ?p] by fastforce
    have "dispatch_to_interceptors dc (Some ''decision_received'') (Some ?p) ''<synthesized:decision_received>'' []
        (s\<lparr>dv_world := w\<rparr>) = (Inr (), s\<lparr>dv_world := w\<rparr>)"
      using assms(2) by (simp add: dispatch_none)
    then show ?thesis using x w
      by (intro exI [of _ w]) (simp add: reply_permission_def tryE_def thenE_def bindE_def inW_def Let_def)
  next
    fix e assume "cl_respond_permission (dc_client dc) sid pid answer (dv_world s) = (Inl e, dv_world s)" "is_Exception e"
    then show ?thesis using assms(1)
      by (intro exI [of _ "dv_world s"])
        (simp add: reply_permission_def tryE_def thenE_def bindE_def inW_def swallow_exn_def retE_def Let_def)
  qed
qed

lemma resume_task_run:
  assumes "drv_ready dc s"
  shows "\<exists>s'. resume_task dc s = (Inr (), s') \<and> drv_ready dc s' \<and> task_log_of dc s' = task_log_of dc s \<and>
    status_of dc s' = (if dv_abort s = None
      then map_option (\<lambda>_. task_status_value (if rq_mode (dc_request dc) = M_plan_first then S_planning else S_executing))
             (status_of dc s)
      else status_of dc s)"
proof (cases "dv_abort s = None")
  case True
  then show ?thesis
    using set_status_run [OF assms, of "if rq_mode (dc_request dc) = M_plan_first then S_planning else S_executing"]
    by (auto simp: resume_task_def bindE_def getE_def whenE_def)
next
  case False
  then show ?thesis using assms by (auto simp: resume_task_def bindE_def getE_def whenE_def retE_def)
qed

text \<open>A permission handler ends by writing \<open>executing\<close> (or \<open>planning\<close>) whatever the status of
  the task is by then. The handlers are tasks of their own that nobody awaits or cancels, so one
  that is answered after the task has completed, failed or was aborted over the API brings the
  task back to a running status that nothing will end.\<close>

theorem late_permission_revives_the_task:
  assumes "calm (dv_world s)" and "fk_ok (dc_task_id dc) (w_db (dv_world s))"
    and "rn_interceptors (dv_runner s) = []" and "dv_abort s = None"
    and "\<forall>a. outside_call (cl_respond_permission (dc_client dc) sid pid a)"
    and "status_of dc s = Some st" and "pd_response d = Some r" and "dp_choice r = C_approve"
  shows "\<exists>s'. finish_permission dc sid pid did (Some d) s = (Inr (), s') \<and>
    status_of dc s' = Some (if rq_mode (dc_request dc) = M_plan_first then ''planning'' else ''executing'')"
proof -
  have rdy: "drv_ready dc s" using assms(1,2) by (simp add: drv_ready_def)
  let ?s1 = "s\<lparr>dv_rejects := 0\<rparr>"
  have settle: "settle_permission dc did pid (Some d) s = (Inr ''once'', ?s1)"
    using assms(7,8) by (simp add: settle_permission_def settle_choice_def thenE_def bindE_def modifyE_def retE_def)
  obtain w where w: "reply_permission dc sid pid did ''once'' ?s1 = (Inr (), ?s1\<lparr>dv_world := w\<rparr>)"
    "drv_ready dc (?s1\<lparr>dv_world := w\<rparr>)" "status_of dc (?s1\<lparr>dv_world := w\<rparr>) = status_of dc ?s1"
    using reply_permission_run [of dc ?s1 sid pid "''once''" did] rdy assms(3,5) by auto
  obtain s' where s': "resume_task dc (?s1\<lparr>dv_world := w\<rparr>) = (Inr (), s')"
    "status_of dc s' = Some (if rq_mode (dc_request dc) = M_plan_first then ''planning'' else ''executing'')"
    using resume_task_run [OF w(2)] w(3) assms(4,6) by auto
  show ?thesis
    using settle w(1) s' by (intro exI [of _ s']) (simp add: finish_permission_def thenE_def bindE_def)
qed

section \<open>Waiting is bounded\<close>

text \<open>The state before the k-th further poll of a wait.\<close>

fun poll_state :: "driver_env \<Rightarrow> nat \<Rightarrow> string \<Rightarrow> driver_state \<Rightarrow> nat \<Rightarrow> driver_state" where
  "poll_state dc n did s 0 = s"
| "poll_state dc n did s (Suc k) =
     poll_state dc (Suc n) did (slept dc n (snd (inW (get_resolved_decision did) s))) k"

text \<open>C23: Waiting for a decision ends, whatever the other coroutines do meanwhile: it makes at most
  one poll per two seconds of the timeout and one more, and its result is that of the last poll.
  A decision is returned by the first poll that finds it, a database error ends the wait, and
  \<open>None\<close> is returned only once the deadline has passed.\<close>

theorem wait_for_decision_is_bounded:
  "\<exists>k. 2 * real k < max 0 (deadline - w_clock (dv_world s)) + 2 \<and>
     wait_for_decision dc n did deadline s = inW (get_resolved_decision did) (poll_state dc n did s k) \<and>
     (\<forall>j < k. fst (inW (get_resolved_decision did) (poll_state dc n did s j)) = Inr None) \<and>
     (fst (wait_for_decision dc n did deadline s) = Inr None \<longrightarrow>
        deadline \<le> w_clock (dv_world (snd (wait_for_decision dc n did deadline s))))"
proof (induction dc n did deadline s rule: wait_for_decision.induct)
  case (1 dc n did deadline s)
  obtain r s1 where p: "inW (get_resolved_decision did) s = (r, s1)" by (metis prod.exhaust)
  show ?case
  proof (cases "r = Inr None \<and> 0 < deadline - w_clock (dv_world s1)")
    case False
    have "wait_for_decision dc n did deadline s = (r, s1)"
      using p False by (subst wait_for_decision.simps) (auto split: sum.split option.split)
    then show ?thesis using p False by (intro exI [of _ 0]) auto
  next
    case True
    let ?t = "slept dc n s1"
    have run: "wait_for_decision dc n did deadline s = wait_for_decision dc (Suc n) did deadline ?t"
      using p True by (subst wait_for_decision.simps) simp
    obtain k where k: "2 * real k < max 0 (deadline - w_clock (dv_world ?t)) + 2"
      "wait_for_decision dc (Suc n) did deadline ?t = inW (get_resolved_decision did) (poll_state dc (Suc n) did ?t k)"
      "\<forall>j < k. fst (inW (get_resolved_decision did) (poll_state dc (Suc n) did ?t j)) = Inr None"
      "fst (wait_for_decision dc (Suc n) did deadline ?t) = Inr None \<longrightarrow>
        deadline \<le> w_clock (dv_world (snd (wait_for_decision dc (Suc n) did deadline ?t)))"
      using "1.IH" [of "Inr None" s1 None] p True by auto
    have "w_clock (dv_world s) + 2 \<le> w_clock (dv_world ?t)"
      using slept_clock [of s1 dc n] poll_clock [OF p] by simp
    then have bound: "2 * real (Suc k) < max 0 (deadline - w_clock (dv_world s)) + 2"
      using k(1) True poll_clock [OF p] by (cases k) (auto simp: max_def split: if_splits)
    have "fst (inW (get_resolved_decision did) (poll_state dc n did s j)) = Inr None" if "j < Suc k" for j
      using that k(3) p True by (cases j) auto
    then show ?thesis using bound run k(2,4) p by (intro exI [of _ "Suc k"]) auto
  qed
qed

section \<open>Asking, or not\<close>

lemma insert_decision_calm:
  assumes "calm w" and "fk_ok tid (w_db w)" and "dq_decision_id req \<notin> dr_id ` set (db_decisions (w_db w))"
  shows "\<exists>p w'. insert_decision tid req w = (Inr p, w') \<and> calm w' \<and> fk_ok tid (w_db w') \<and>
    db_tasks (w_db w') = db_tasks (w_db w) \<and> log_view t w' = log_view t w \<and>
    db_decisions (w_db w') = db_decisions (w_db w) @
      [\<lparr>dr_id = dq_decision_id req, dr_task_id = tid, dr_kind = decision_kind_value (dq_kind req),
         dr_status = ''pending'', dr_request = req, dr_response = None, dr_idempotency_key = None,
         dr_created_at = w_clock w, dr_resolved_at = None\<rparr>]"
proof -
  have f: "w_faults w = []" "db_ok (w_db w)" using assms(1) by (simp_all add: calm_def)
  have "db_ok (w_db (snd (insert_decision tid req w)))" using db_safeD [OF db_safe_insert_decision f(2)] .
  moreover have "\<exists>p w'. insert_decision tid req w = (Inr p, w') \<and> w_faults w' = [] \<and> db_tasks (w_db w') = db_tasks (w_db w) \<and>
    db_events (w_db w') = db_events (w_db w) \<and> db_foreign_keys (w_db w') = db_foreign_keys (w_db w) \<and>
    db_decisions (w_db w') = db_decisions (w_db w) @
      [\<lparr>dr_id = dq_decision_id req, dr_task_id = tid, dr_kind = decision_kind_value (dq_kind req),
         dr_status = ''pending'', dr_request = req, dr_response = None, dr_idempotency_key = None,
         dr_created_at = w_clock w, dr_resolved_at = None\<rparr>]"
    using f assms(2,3) by (simp add: insert_decision_def comp_defs update_db_def)
  ultimately show ?thesis using assms(2)
    by (auto simp: calm_def log_view_def events_of_def fk_ok_def task_exists_def)
qed

definition auto_payload :: "string \<Rightarrow> perm_request \<Rightarrow> string \<Rightarrow> dict" where
  "auto_payload did pr pat =
     [(''decision_id'', JStr did), (''choice'', JStr ''once''), (''permission_id'', JStr (pr_permission_id pr)),
      (''auto_approved'', JBool True), (''matched_pattern'', JStr pat), (''tool'', pr_tool pr)]"

definition ask_payload :: "driver_env \<Rightarrow> string \<Rightarrow> perm_request \<Rightarrow> dict" where
  "ask_payload dc did pr =
     [(''decision_id'', JStr did), (''kind'', JStr ''tool_permission''),
      (''summary'', JStr (dq_summary (permission_decision dc did pr))),
      (''permission_id'', JStr (pr_permission_id pr))]"

lemma uuid_drv_ready: "drv_ready dc (s\<lparr>dv_world := (dv_world s)\<lparr>w_uuid_next := n\<rparr>\<rparr>) = drv_ready dc s"
  by (simp add: drv_ready_def calm_def)

lemma auto_approve_run:
  assumes "drv_ready dc s" and "rn_interceptors (dv_runner s) = []"
    and "outside_call (cl_respond_permission (dc_client dc) sid (pr_permission_id pr) ''once'')"
    and "did = w_uuid (dv_world s) (w_uuid_next (dv_world s))"
  shows "\<exists>s'. auto_approve_permission dc sid (pr_permission_id pr) (pr_tool pr) pat s = (Inr (), s') \<and>
    status_of dc s' = status_of dc s \<and> dv_rejects s' = 0 \<and> dv_abort s' = dv_abort s \<and>
    db_decisions (w_db (dv_world s')) = db_decisions (w_db (dv_world s)) \<and>
    task_log_of dc s' = task_log_of dc s @
      [(int (Suc (length (task_log_of dc s))), ''decision_received'', JText (JObj (auto_payload did pr pat)))]"
proof -
  let ?s1 = "s\<lparr>dv_world := (dv_world s)\<lparr>w_uuid_next := Suc (w_uuid_next (dv_world s))\<rparr>\<rparr>"
  have same: "task_log_of dc ?s1 = task_log_of dc s" "status_of dc ?s1 = status_of dc s"
    by (simp_all add: log_view_def)
  obtain w where w: "log_event dc K_decision_received (auto_payload did pr pat) ?s1 = (Inr (), ?s1\<lparr>dv_world := w\<rparr>)"
    "drv_ready dc (?s1\<lparr>dv_world := w\<rparr>)" "status_of dc (?s1\<lparr>dv_world := w\<rparr>) = status_of dc ?s1"
    "db_decisions (w_db w) = db_decisions (w_db (dv_world ?s1))"
    "task_log_of dc (?s1\<lparr>dv_world := w\<rparr>) = task_log_of dc ?s1 @
       [(int (Suc (length (task_log_of dc ?s1))), event_kind_value K_decision_received, JText (JObj (auto_payload did pr pat)))]"
    using log_event_run [of dc ?s1 K_decision_received "auto_payload did pr pat"] assms(1) by (auto simp: uuid_drv_ready)
  let ?s2 = "s\<lparr>dv_world := w, dv_rejects := 0\<rparr>"
  have u: "inW uuid4 s = (Inr did, ?s1)" using assms(4) by (simp add: inW_def uuid4_def)
  have d: "dispatch_to_interceptors dc k p rt rp (s\<lparr>dv_world := w\<rparr>) = (Inr (), s\<lparr>dv_world := w\<rparr>)" for k p rt rp
    using assms(2) by (simp add: dispatch_none)
  have r: "tryE (inW (cl_respond_permission (dc_client dc) sid (pr_permission_id pr) ''once'')) swallow_exn ?s2 = (Inr (), ?s2)"
    using assms(3) by (rule outside_call_cases [where w = w]) (simp_all add: tryE_def inW_def swallow_exn_def retE_def)
  have "auto_approve_permission dc sid (pr_permission_id pr) (pr_tool pr) pat s = (Inr (), ?s2)"
    using u w(1) d r
    by (simp add: auto_approve_permission_def bindE_def thenE_def Let_def modifyE_def flip: auto_payload_def)
  then show ?thesis using w same by (intro exI [of _ ?s2]) simp
qed

lemma ask_permission_run:
  assumes "drv_ready dc s" and "did = w_uuid (dv_world s) (w_uuid_next (dv_world s))"
    and "did \<notin> dr_id ` set (db_decisions (w_db (dv_world s)))"
  shows "\<exists>s' r. ask_permission dc sid pr s = bindE (await_decision dc did) (finish_permission dc sid (pr_permission_id pr) did) s' \<and>
    drv_ready dc s' \<and> status_of dc s' = map_option (\<lambda>_. ''awaiting_human'') (status_of dc s) \<and>
    task_log_of dc s' = task_log_of dc s @
      [(int (Suc (length (task_log_of dc s))), ''hitl_required'', JText (JObj (ask_payload dc did pr)))] \<and>
    db_decisions (w_db (dv_world s')) = db_decisions (w_db (dv_world s)) @ [r] \<and> dr_task_id r = dc_task_id dc \<and>
    is_pending did r \<and> dr_request r = permission_decision dc did pr"
proof -
  let ?req = "permission_decision dc did pr"
  let ?w1 = "(dv_world s)\<lparr>w_uuid_next := Suc (w_uuid_next (dv_world s))\<rparr>"
  have u: "inW uuid4 s = (Inr did, s\<lparr>dv_world := ?w1\<rparr>)" using assms(2) by (simp add: inW_def uuid4_def)
  have id: "dq_decision_id ?req = did" by (simp add: permission_decision_def)
  obtain p w2 where w2: "insert_decision (dc_task_id dc) ?req ?w1 = (Inr p, w2)" "calm w2" "fk_ok (dc_task_id dc) (w_db w2)"
    "db_tasks (w_db w2) = db_tasks (w_db ?w1)" "log_view (dc_task_id dc) w2 = log_view (dc_task_id dc) ?w1"
    "db_decisions (w_db w2) = db_decisions (w_db ?w1) @
      [\<lparr>dr_id = did, dr_task_id = dc_task_id dc, dr_kind = decision_kind_value (dq_kind ?req),
         dr_status = ''pending'', dr_request = ?req, dr_response = None, dr_idempotency_key = None,
         dr_created_at = w_clock ?w1, dr_resolved_at = None\<rparr>]"
    using insert_decision_calm [of ?w1 "dc_task_id dc" ?req "dc_task_id dc"] assms(1,3) id
    by (auto simp: drv_ready_def calm_def)
  have r2: "drv_ready dc (s\<lparr>dv_world := w2\<rparr>)" using w2(2,3) by (simp add: drv_ready_def)
  obtain w3 where w3: "log_event dc K_hitl_required (ask_payload dc did pr) (s\<lparr>dv_world := w2\<rparr>) = (Inr (), s\<lparr>dv_world := w3\<rparr>)"
    "drv_ready dc (s\<lparr>dv_world := w3\<rparr>)" "status_of dc (s\<lparr>dv_world := w3\<rparr>) = status_of dc (s\<lparr>dv_world := w2\<rparr>)"
    "db_decisions (w_db w3) = db_decisions (w_db w2)"
    "log_view (dc_task_id dc) w3 = log_view (dc_task_id dc) w2 @
       [(int (Suc (length (log_view (dc_task_id dc) w2))), ''hitl_required'', JText (JObj (ask_payload dc did pr)))]"
    using log_event_run [OF r2, of K_hitl_required "ask_payload dc did pr"] by auto
  obtain w4 where w4: "set_status dc S_awaiting_human (s\<lparr>dv_world := w3\<rparr>) = (Inr (), s\<lparr>dv_world := w4\<rparr>)"
    "drv_ready dc (s\<lparr>dv_world := w4\<rparr>)"
    "status_of dc (s\<lparr>dv_world := w4\<rparr>) = map_option (\<lambda>_. ''awaiting_human'') (status_of dc (s\<lparr>dv_world := w3\<rparr>))"
    "log_view (dc_task_id dc) w4 = log_view (dc_task_id dc) w3" "db_decisions (w_db w4) = db_decisions (w_db w3)"
    using set_status_run [OF w3(2), of S_awaiting_human] by auto
  have "ask_permission dc sid pr s =
      bindE (await_decision dc did) (finish_permission dc sid (pr_permission_id pr) did) (s\<lparr>dv_world := w4\<rparr>)"
    using u w2(1) w3(1) w4(1)
    by (simp add: ask_permission_def bindE_def thenE_def Let_def inW_def retE_def flip: ask_payload_def)
  moreover have "status_of dc (s\<lparr>dv_world := w2\<rparr>) = status_of dc s" using w2(4) by (simp add: find_task_def)
  moreover have "log_view (dc_task_id dc) ?w1 = task_log_of dc s" by (simp add: log_view_def)
  ultimately show ?thesis using w2 w3 w4 by (intro exI [of _ "s\<lparr>dv_world := w4\<rparr>"]) (simp add: is_pending_def)
qed


section \<open>A driver to instantiate the properties on\<close>

definition ex_client :: client_api where
  "ex_client = \<lparr>cl_create_session = retE [(''id'', JStr ''s1'')], cl_send_message = (\<lambda>_ _. retE ()),
     cl_prompt_async = (\<lambda>_ _ _ _. retE ()), cl_abort_session = (\<lambda>_. retE ()), cl_delete_session = (\<lambda>_. retE ()),
     cl_respond_permission = (\<lambda>_ _ _. retE ()), cl_get_diff = (\<lambda>_. retE []), cl_get_messages = (\<lambda>_. retE []),
     cl_aclose = retE ()\<rparr>"

definition ex_driver_env :: "task_mode \<Rightarrow> driver_env" where
  "ex_driver_env m = \<lparr>dc_task_id = ''t1'', dc_request = minimal_request ''t1'' m [], dc_settings = default_settings ''s'',
     dc_client = ex_client, dc_os = \<lparr>os_resolve = (\<lambda>p. Inr [p]), os_denied = (\<lambda>_. False)\<rparr>, dc_mkdir = (\<lambda>_. retE ()),
     dc_show = (\<lambda>_. ''?''), dc_size = (\<lambda>_. 1), dc_while_waiting = (\<lambda>_. id), dc_run_spawned = id\<rparr>"

definition ex_runner :: "world runner" where
  "ex_runner = \<lparr>rn_interceptors = [], rn_budget = 10, rn_counts = [], rn_disabled = []\<rparr>"

definition ex_driver :: driver_state where
  "ex_driver = new_driver ex_runner ex_world"

lemma ex_driver_simps [simp]:
  "dv_world ex_driver = ex_world" "dv_abort ex_driver = None" "dv_rejects ex_driver = 0" "dv_plan ex_driver = None"
  "dv_buffer ex_driver = []" "dv_runner ex_driver = ex_runner" "rn_interceptors ex_runner = []"
  "dc_task_id (ex_driver_env m) = ''t1''" "dc_client (ex_driver_env m) = ex_client"
  "dc_request (ex_driver_env m) = minimal_request ''t1'' m []" "rq_mode (minimal_request t m ms) = m"
  by (simp_all add: ex_driver_def new_driver_def ex_runner_def ex_driver_env_def minimal_request_def)

theorem permission_is_settled_witness:
  "\<exists>s'. settle_permission (ex_driver_env M_direct_execute) ''d1'' ''per1'' None ex_driver = (Inr ''reject'', s') \<and>
     dv_abort s' = Some (''hitl_timeout'', Some ''d1'') \<and>
     status_of (ex_driver_env M_direct_execute) s' = status_of (ex_driver_env M_direct_execute) ex_driver"
proof -
  have p: "snd (resolve_hitl_timeout_policy (ex_driver_env M_direct_execute)) = C_abort"
    by (simp add: resolve_hitl_timeout_policy_def minimal_request_def default_hitl_def str_lower_def Let_def)
  show ?thesis
    using permission_is_settled_as_specified [of ex_driver "ex_driver_env M_direct_execute" None None
        "(''reject'', Some ''hitl_timeout'', 0)" "''d1''" "''per1''"] calm_ex_world p by fastforce
qed

lemma ex_client_outside [simp]: "outside_call (cl_respond_permission ex_client sid pid a)"
  by (simp add: ex_client_def outside_call_def preserves_ret raises_ret)

definition ex_approval :: pending_decision where
  "ex_approval = (pending_decision_of ex_decision_row)\<lparr>pd_response := Some (ex_response C_approve)\<rparr>"

theorem late_permission_revives_witness:
  "\<exists>s'. finish_permission (ex_driver_env M_direct_execute) ''s1'' ''per1'' ''d1'' (Some ex_approval)
      (ex_driver\<lparr>dv_world := ended_world\<rparr>) = (Inr (), s') \<and>
    status_of (ex_driver_env M_direct_execute) (ex_driver\<lparr>dv_world := ended_world\<rparr>) = Some ''aborted'' \<and>
    status_of (ex_driver_env M_direct_execute) s' = Some ''executing''"
  using late_permission_revives_the_task [of "ex_driver\<lparr>dv_world := ended_world\<rparr>" "ex_driver_env M_direct_execute"
      "''s1''" "''per1''" "''aborted''" ex_approval "ex_response C_approve" "''d1''"]
    ended_world_facts
  by (simp add: ex_approval_def ex_task_row_def fk_ok_def ex_response_def)

theorem wait_for_decision_is_bounded_witness:
  "\<exists>k. 2 * real k < 602 \<and>
     wait_for_decision (ex_driver_env M_direct_execute) 0 ''d1'' 610 ex_driver =
       inW (get_resolved_decision ''d1'') (poll_state (ex_driver_env M_direct_execute) 0 ''d1'' ex_driver k)"
  using wait_for_decision_is_bounded [of 610 ex_driver "ex_driver_env M_direct_execute" 0 "''d1''"] by auto

definition ex_perm :: perm_request where
  "ex_perm = \<lparr>pr_permission_id = ''per1'', pr_tool = JStr ''bash'', pr_description = JStr [], pr_args = JObj [],
     pr_title = JStr []\<rparr>"


end
