(* ===== verification/Driver_Session.thy ===== *)
theory Driver_Session
  imports Driver_Props
begin

text \<open>
  Properties of a whole driver session: what one subscription to the event stream may start, what
  happens to an error and to a plan, which artifacts are registered, and which outcome the
  interceptors are told.
\<close>

section \<open>What the operations of the driver leave alone\<close>

lemma preserves_inW: "(\<And>s w. f (s\<lparr>dv_world := w\<rparr>) = f s) \<Longrightarrow> preserves f (inW m)"
  by (rule preservesI) (simp add: inW_def split: prod.split)

lemma preserves_inR: "(\<And>s r w. f (s\<lparr>dv_runner := r, dv_world := w\<rparr>) = f s) \<Longrightarrow> preserves f (inR m)"
  by (rule preservesI) (simp add: inR_def split: prod.split)

text \<open>The driver's own attributes, without the world, the runner and the text buffer.\<close>

definition book :: "driver_state \<Rightarrow> string option \<times> (string \<times> string option) option \<times> string option \<times> nat \<times> perm_request list" where
  "book s = (dv_session s, dv_abort s, dv_plan s, dv_rejects s, dv_spawned s)"

lemma book_inW [preserves_intros]: "preserves book (inW m)"
  and book_inR [preserves_intros]: "preserves book (inR m2)"
  by (rule preserves_inW preserves_inR; simp add: book_def)+

lemma book_log [preserves_intros]: "preserves book (log_event dc k p)"
  and book_dispatch [preserves_intros]: "preserves book (dispatch_to_interceptors dc kd pl rt rp)"
  and book_record [preserves_intros]: "preserves book (record_event dc ev n)"
  unfolding log_event_def dispatch_to_interceptors_def record_event_def
  by (intro preserves_intros preserves_modify; simp add: book_def)+

section \<open>An error of the session\<close>

text \<open>A \<open>session.error\<close> event of opencode ends the stream like a normal end: the exception
  raised for it is caught by the handler around the loop, so the driver goes on to collect
  artifacts and the task is recorded as completed, although the code comments it as the fast
  failure of the prompt.\<close>

theorem session_error_is_swallowed:
  assumes "dv_abort s = None" and "dict_get ev ''type'' JNull = JStr ''session.error''"
  shows "consume_sse dc (Inr (JObj ev) # evs) s = save_plan dc s"
proof -
  have ty: "map_of ev ''type'' = Some (JStr ''session.error'')"
    using assms(2) by (simp add: dict_get_def split: option.splits)
  have "\<not> is_session_idle ev" by (simp add: is_session_idle_def has_type_def dict_get_def ty)
  then have step: "sse_step dc [] 0 ev s = (Inl (session_error dc ev), s)"
    using assms by (simp add: sse_step_def bindE_def getE_def raiseE_def)
  have "is_Exception (session_error dc ev)" by (simp add: session_error_def split: json.split)
  then show ?thesis
    using step by (simp add: consume_sse_def thenE_def bindE_def tryE_def swallow_exn_def retE_def)
qed

theorem session_error_is_swallowed_witness:
  "fst (consume_sse (ex_driver_env M_direct_execute)
     [Inr (JObj [(''type'', JStr ''session.error''), (''payload'', JObj [])])] ex_driver) = Inr ()"
  using session_error_is_swallowed [of ex_driver "[(''type'', JStr ''session.error''), (''payload'', JObj [])]"
      "ex_driver_env M_direct_execute" "[]"]
  by (simp add: save_plan_def bindE_def getE_def whenE_def retE_def)

section \<open>One handler per permission\<close>

definition spawned_ids :: "driver_state \<Rightarrow> string list" where
  "spawned_ids s = map pr_permission_id (dv_spawned s)"

lemma spawned_ids_book: "preserves book m \<Longrightarrow> spawned_ids (snd (m s)) = spawned_ids s \<and> dv_plan (snd (m s)) = dv_plan s"
  using preservesD [of book m s] by (simp add: book_def spawned_ids_def)

lemma spawned_book: "preserves book m \<Longrightarrow> dv_spawned (snd (m s)) = dv_spawned s"
  using preservesD [of book m s] by (simp add: book_def)

text \<open>One event starts at most one handler, for a permission not seen before.\<close>

lemma note_permission_spawns:
  assumes "note_permission dc pr seen asks s = (res, s')"
  shows "if pr_permission_id pr \<in> set seen then dv_spawned s' = dv_spawned s \<and> res = Inr (Go_on seen asks)
    else dv_spawned s' = dv_spawned s @ [pr] \<and>
      (case res of Inr f \<Rightarrow> f = Go_on (pr_permission_id pr # seen) (Suc asks) | Inl e \<Rightarrow> True)"
proof -
  let ?s1 = "s\<lparr>dv_spawned := dv_spawned s @ [pr]\<rparr>"
  have "preserves book (thenE (whenE b (log_event dc k p)) (retE f))" for b k p and f :: flow
    by (intro preserves_intros)
  note keep = spawned_book [OF this, of _ _ _ _ ?s1]
  have val: "yields (\<lambda>x. x = f) (thenE (m :: unit drv) (retE f))" for m and f :: flow
    by (intro yields_then yields_ret) simp
  show ?thesis
    using assms keep val
    by (auto simp: note_permission_def retE_def thenE_def [of "modifyE h" for h] bindE_def [of "modifyE h" for h] modifyE_def
        yields_def split: if_splits sum.splits) (metis snd_conv)+
qed

definition flow_seen :: "exn + flow \<Rightarrow> string list option" where
  "flow_seen r = (case r of Inr (Go_on seen asks) \<Rightarrow> Some seen | _ \<Rightarrow> None)"

lemma flow_seen_simps [simp]:
  "flow_seen (Inr (Go_on seen asks)) = Some seen" "flow_seen (Inr Stop) = None" "flow_seen (Inl e) = None"
  by (simp_all add: flow_seen_def)

definition stops_at :: "dict \<Rightarrow> driver_state \<Rightarrow> bool" where
  "stops_at ev s \<longleftrightarrow> dv_abort s \<noteq> None \<or> is_session_idle ev \<or> dict_get ev ''type'' JNull = JStr ''session.error''"

lemma sse_step_stops:
  "stops_at ev s \<Longrightarrow> \<exists>res. sse_step dc seen asks ev s = (res, s) \<and> flow_seen res = None"
  by (auto simp: stops_at_def sse_step_def run_getE raiseE_def retE_def)

lemma sse_step_goes_on:
  assumes "\<not> stops_at ev s" and "t = (case extract_diff ev of None \<Rightarrow> s | Some d \<Rightarrow> s\<lparr>dv_diff := d\<rparr>)"
  shows "sse_step dc seen asks ev s =
    (case extract_permission_request ev of
       Inl e \<Rightarrow> (Inl e, t)
     | Inr (Some pr) \<Rightarrow> note_permission dc pr seen asks t
     | Inr None \<Rightarrow>
         (case normalize_opencode_event ev of
            Inl e \<Rightarrow> (Inl e, t)
          | Inr None \<Rightarrow> (Inr (Go_on seen asks), t)
          | Inr (Some n) \<Rightarrow> thenE (record_event dc ev n) (retE (Go_on seen asks)) t))"
  using assms by (simp add: stops_at_def sse_step_def run_getE run_liftE run_modifyE retE_def split: sum.split option.split)

lemma sse_step_spawns:
  assumes "sse_step dc seen asks ev s = (res, s')"
  shows "dv_spawned s' = dv_spawned s \<and> (\<forall>x. flow_seen res = Some x \<longrightarrow> x = seen) \<or>
    (\<exists>pr. extract_permission_request ev = Inr (Some pr) \<and> pr_permission_id pr \<notin> set seen \<and>
       dv_spawned s' = dv_spawned s @ [pr] \<and>
       (\<forall>x. flow_seen res = Some x \<longrightarrow> x = pr_permission_id pr # seen))"
proof -
  define t where "t = (case extract_diff ev of None \<Rightarrow> s | Some d \<Rightarrow> s\<lparr>dv_diff := d\<rparr>)"
  have sp: "dv_spawned t = dv_spawned s" by (simp add: t_def split: option.split)
  show ?thesis
  proof (cases "stops_at ev s")
    case True
    then show ?thesis using assms sse_step_stops [OF True, of dc seen asks] by auto
  next
    case False
    note eq = sse_step_goes_on [OF False t_def, of dc seen asks]
    consider e where "extract_permission_request ev = Inl e" | pr where "extract_permission_request ev = Inr (Some pr)"
      | e where "extract_permission_request ev = Inr None" "normalize_opencode_event ev = Inl e"
      | "extract_permission_request ev = Inr None" "normalize_opencode_event ev = Inr None"
      | n where "extract_permission_request ev = Inr None" "normalize_opencode_event ev = Inr (Some n)"
      by (metis old.sum.exhaust option.exhaust)
    then show ?thesis
    proof cases
      case (2 pr)
      then show ?thesis using assms note_permission_spawns [of dc pr seen asks t res s'] sp eq
        by (cases res) (auto split: if_splits)
    next
      case (5 n)
      have "preserves book (thenE (record_event dc ev n) (retE (Go_on seen asks)))" by (intro preserves_intros)
      then have "dv_spawned (snd (thenE (record_event dc ev n) (retE (Go_on seen asks)) t)) = dv_spawned s"
        using spawned_book sp by metis
      then have "dv_spawned s' = dv_spawned s" using 5 assms eq by simp
      moreover have "x = seen" if "flow_seen res = Some x" for x
        using that 5 assms eq by (auto simp: thenE_def bindE_def retE_def split: prod.splits sum.splits)
      ultimately show ?thesis by blast
    qed (use assms sp eq in auto)
  qed
qed

lemma sse_loop_spawns:
  "\<exists>new. dv_spawned (snd (sse_loop dc seen asks evs s)) = dv_spawned s @ new \<and>
    distinct (map pr_permission_id new) \<and> set (map pr_permission_id new) \<inter> set seen = {} \<and>
    (\<forall>pr \<in> set new. \<exists>ev. Inr (JObj ev) \<in> set evs \<and> extract_permission_request ev = Inr (Some pr))"
proof (induction evs arbitrary: seen asks s)
  case Nil
  then show ?case by (simp add: retE_def)
next
  case (Cons x evs)
  show ?case
  proof (cases "\<exists>ev. x = Inr (JObj ev)")
    case False
    then have "dv_spawned (snd (sse_loop dc seen asks (x # evs) s)) = dv_spawned s"
      by (cases x) (auto simp: raiseE_def bindE_def getE_def retE_def split: json.splits)
    then show ?thesis by (intro exI [of _ "[]"]) simp
  next
    case True
    then obtain ev where ev: "x = Inr (JObj ev)" by blast
    obtain res s1 where st: "sse_step dc seen asks ev s = (res, s1)" by (metis prod.exhaust)
    obtain first where first: "dv_spawned s1 = dv_spawned s @ first" "distinct (map pr_permission_id first)"
      "set (map pr_permission_id first) \<inter> set seen = {}"
      "\<forall>pr \<in> set first. extract_permission_request ev = Inr (Some pr)"
      "\<forall>x. flow_seen res = Some x \<longrightarrow> set x = set (map pr_permission_id first) \<union> set seen"
      using sse_step_spawns [OF st] by (elim disjE exE conjE) fastforce+
    show ?thesis
    proof (cases "\<exists>seen' asks'. res = Inr (Go_on seen' asks')")
      case False
      then have "snd (sse_loop dc seen asks (x # evs) s) = s1"
        using st ev by (auto simp: bindE_def retE_def split: sum.split flow.split)
      then show ?thesis using first ev by (intro exI [of _ first]) auto
    next
      case True
      then obtain seen' asks' where go: "res = Inr (Go_on seen' asks')" by blast
      then have run: "sse_loop dc seen asks (x # evs) s = sse_loop dc seen' asks' evs s1"
        using st ev by (simp add: bindE_def)
      obtain new where "dv_spawned (snd (sse_loop dc seen' asks' evs s1)) = dv_spawned s1 @ new"
        "distinct (map pr_permission_id new)" "set (map pr_permission_id new) \<inter> set seen' = {}"
        "\<forall>pr \<in> set new. \<exists>ev. Inr (JObj ev) \<in> set evs \<and> extract_permission_request ev = Inr (Some pr)"
        using Cons.IH [of seen' asks' s1] by blast
      moreover have "set seen' = set (map pr_permission_id first) \<union> set seen" using first(5) go by simp
      ultimately show ?thesis unfolding run using first ev
        by (intro exI [of _ "first @ new"]) (auto; blast)
    qed
  qed
qed

lemma consume_sse_cases:
  obtains s1 where "snd (sse_loop dc [] 0 evs s) = s1" "snd (consume_sse_cancelled dc evs s) = s1"
    "consume_sse dc evs s = (if fst (consume_sse_cancelled dc evs s) = Inr () then save_plan dc s1
       else (fst (consume_sse_cancelled dc evs s), s1))"
proof (cases "sse_loop dc [] 0 evs s")
  case (Pair r s1)
  then show thesis
    using that [of s1]
    by (cases r) (auto simp: consume_sse_def consume_sse_cancelled_def thenE_def bindE_def tryE_def swallow_exn_def
        retE_def raiseE_def split: if_splits)
qed

lemma save_plan_run:
  "save_plan dc s = (if rq_mode (dc_request dc) = M_plan_first \<and> dv_buffer s \<noteq> []
     then (case join_texts (dv_buffer s) of Inl e \<Rightarrow> (Inl e, s) | Inr t \<Rightarrow> (Inr (), s\<lparr>dv_plan := Some t\<rparr>))
     else (Inr (), s))"
  by (simp add: save_plan_def run_getE run_liftE whenE_def retE_def modifyE_def split: sum.split)

definition asks_for :: "perm_request \<Rightarrow> exn + json \<Rightarrow> bool" where
  "asks_for pr x \<longleftrightarrow> (case x of Inr (JObj ev) \<Rightarrow> extract_permission_request ev = Inr (Some pr) | _ \<Rightarrow> False)"


section \<open>The plan\<close>

lemma sse_loop_plan: "dv_plan (snd (sse_loop dc seen asks evs s)) = dv_plan s"
proof -
  have note_p: "preserves dv_plan (note_permission dc pr seen asks)" for pr seen asks
    unfolding note_permission_def log_event_def
    by (intro preserves_intros preserves_inW preserves_modify) (simp_all split: option.split)
  have rec_p: "preserves dv_plan (record_event dc ev n)" for ev n
    using preserves_comp [OF book_record, of "\<lambda>b. fst (snd (snd b))" dc ev n] by (simp add: book_def)
  have step: "preserves dv_plan (sse_step dc seen asks ev)" for seen asks ev
    unfolding sse_step_def
    by (intro preserves_intros preserves_modify note_p rec_p) (simp split: option.split)
  have "preserves dv_plan (sse_loop dc seen asks evs)"
  proof (induction evs arbitrary: seen asks)
    case Nil
    show ?case by (simp add: preserves_ret)
  next
    case (Cons x evs)
    have "preserves dv_plan (case f of Stop \<Rightarrow> retE () | Go_on a b \<Rightarrow> sse_loop dc a b evs)" for f
      using Cons.IH by (cases f) (simp_all add: preserves_ret)
    then show ?case
      by (cases x) (auto simp: preserves_raise preserves_ret preserves_get intro!: preserves_bind step
          split: json.split)
  qed
  then show ?thesis by (rule preservesD)
qed

text \<open>In \<open>plan_first\<close> mode the text collected from the stream becomes the plan only when the
  stream itself ends. When the poll of the messages ends first, which the code documents as the
  normal signal of completion, the reading of the stream is cancelled, the same text is in the
  buffer, and the plan stays what it was before: unset, so the human is asked to approve an empty
  text.\<close>

theorem plan_is_lost_when_the_poll_ends_first:
  assumes "rq_mode (dc_request dc) = M_plan_first"
    and "\<And>t. dv_plan (dc_run_spawned dc t) = dv_plan t" and "\<And>t. dv_buffer (dc_run_spawned dc t) = dv_buffer t"
    and "await_session dc (Sse_ends evs) s = (Inr (), a)" and "await_session dc (Poll_ends evs) s = (Inr (), b)"
    and "dv_buffer b \<noteq> []"
  shows "dv_buffer a = dv_buffer b \<and> map_option Inr (dv_plan a) = Some (join_texts (dv_buffer b)) \<and>
    dv_plan b = dv_plan s"
proof -
  obtain s1 where s1: "snd (sse_loop dc [] 0 evs s) = s1" "snd (consume_sse_cancelled dc evs s) = s1"
    "consume_sse dc evs s = (if fst (consume_sse_cancelled dc evs s) = Inr () then save_plan dc s1
       else (fst (consume_sse_cancelled dc evs s), s1))"
    by (rule consume_sse_cases)
  have b: "fst (consume_sse_cancelled dc evs s) = Inr ()" "b = dc_run_spawned dc s1"
    using assms(5) s1(2) by (auto simp: await_session_def thenE_def bindE_def modifyE_def split: prod.splits sum.splits)
  obtain a1 where a: "save_plan dc s1 = (Inr (), a1)" "a = dc_run_spawned dc a1"
    using assms(4) s1(3) b(1) by (auto simp: await_session_def thenE_def bindE_def modifyE_def split: prod.splits sum.splits)
  have "dv_buffer s1 \<noteq> []" using assms(3,6) b(2) by simp
  then obtain t where "join_texts (dv_buffer s1) = Inr t" "a1 = s1\<lparr>dv_plan := Some t\<rparr>"
    using a(1) assms(1) by (auto simp: save_plan_run split: sum.splits)
  then show ?thesis using a(2) b(2) assms(2,3) sse_loop_plan [of dc "[]" 0 evs s] s1(1) by simp
qed

lemma spawn_id [simp]: "dc_run_spawned (ex_driver_env m) t = t"
  by (simp add: ex_driver_env_def)

theorem plan_is_lost_witness:
  "\<exists>a b. await_session (ex_driver_env M_plan_first) (Sse_ends []) (ex_driver\<lparr>dv_buffer := [JStr ''plan'']\<rparr>) = (Inr (), a) \<and>
     await_session (ex_driver_env M_plan_first) (Poll_ends []) (ex_driver\<lparr>dv_buffer := [JStr ''plan'']\<rparr>) = (Inr (), b) \<and>
     dv_plan a = Some ''plan'' \<and> dv_plan b = None"
proof -
  let ?s = "ex_driver\<lparr>dv_buffer := [JStr ''plan'']\<rparr>"
  have a: "await_session (ex_driver_env M_plan_first) (Sse_ends []) ?s = (Inr (), ?s\<lparr>dv_plan := Some ''plan''\<rparr>)"
    by (simp add: await_session_def consume_sse_def thenE_def bindE_def tryE_def retE_def save_plan_run modifyE_def)
  have b: "await_session (ex_driver_env M_plan_first) (Poll_ends []) ?s = (Inr (), ?s)"
    by (simp add: await_session_def consume_sse_cancelled_def thenE_def bindE_def tryE_def retE_def modifyE_def)
  show ?thesis using plan_is_lost_when_the_poll_ends_first [OF _ _ _ a b] a b by simp
qed

section \<open>Artifacts of interceptors\<close>

text \<open>A row that only a file of the task's own artifact directory can get.\<close>

definition confined_row :: "driver_env \<Rightarrow> artifact_row \<Rightarrow> bool" where
  "confined_row dc r \<longleftrightarrow> ar_task_id r = dc_task_id dc \<and>
     (case os_resolve (dc_os dc) (task_artifacts_dir dc) of
        Inl _ \<Rightarrow> False
      | Inr base \<Rightarrow> \<exists>target. in_subtree base target \<and> ar_file_path r = Some (path_text target))"

lemma log_event_artifacts: "preserves (\<lambda>s. db_artifacts (w_db (dv_world s))) (log_event dc k p)"
proof (rule preservesI)
  fix s
  have "preserves (\<lambda>w. db_artifacts (w_db w)) (insert_event (dc_task_id dc) k p)"
    unfolding insert_event_def insert_event_row_def select_def with_buses_def update_db_def time_now_def
    by (intro preserves_intros preserves_modify preservesI) (simp_all add: statement_def split: list.split)
  then show "db_artifacts (w_db (dv_world (snd (log_event dc k p s)))) = db_artifacts (w_db (dv_world s))"
    using preservesD [of "\<lambda>w. db_artifacts (w_db w)" "insert_event (dc_task_id dc) k p" "dv_world s"]
    by (auto simp: log_event_def inW_def bindE_def retE_def split: prod.split sum.split)
qed

text \<open>Computations that only append artifact rows, all of them satisfying \<open>P\<close>.\<close>

definition adds :: "(artifact_row \<Rightarrow> bool) \<Rightarrow> 'a drv \<Rightarrow> bool" where
  "adds P m \<longleftrightarrow> (\<forall>s. \<exists>new. db_artifacts (w_db (dv_world (snd (m s)))) = db_artifacts (w_db (dv_world s)) @ new \<and> list_all P new)"

lemma adds_keep: "preserves (\<lambda>s. db_artifacts (w_db (dv_world s))) m \<Longrightarrow> adds P m"
  unfolding adds_def using preservesD [of "\<lambda>s. db_artifacts (w_db (dv_world s))" m]
  by (metis append_Nil2 list.pred_inject(1))

lemma adds_bind:
  assumes "adds P m" and "\<And>x. adds P (f x)"
  shows "adds P (bindE m f)"
  unfolding adds_def
proof
  fix s
  obtain r t where m: "m s = (r, t)" by (metis prod.exhaust)
  obtain n1 where n1: "db_artifacts (w_db (dv_world t)) = db_artifacts (w_db (dv_world s)) @ n1" "list_all P n1"
    using assms(1) m unfolding adds_def by (metis snd_conv)
  show "\<exists>new. db_artifacts (w_db (dv_world (snd (bindE m f s)))) = db_artifacts (w_db (dv_world s)) @ new \<and> list_all P new"
  proof (cases r)
    case (Inl e)
    then show ?thesis using m n1 by (auto simp: bindE_def)
  next
    case (Inr x)
    obtain n2 where "db_artifacts (w_db (dv_world (snd (f x t)))) = db_artifacts (w_db (dv_world t)) @ n2" "list_all P n2"
      using assms(2) [of x] unfolding adds_def by blast
    then show ?thesis using m n1 Inr by (intro exI [of _ "n1 @ n2"]) (simp add: bindE_def)
  qed
qed

lemma adds_then: "adds P m \<Longrightarrow> adds P n \<Longrightarrow> adds P (thenE m n)"
  by (simp add: thenE_def adds_bind)

lemma adds_ret: "adds P (retE x)" and adds_raise: "adds P (raiseE e)" and adds_lift: "adds P (liftE r)"
  by (rule adds_keep; intro preserves_intros)+

lemma adds_read: "adds P (inW (getE g))" and adds_now: "adds P (inW time_now)" and adds_uuid: "adds P (inW uuid4)"
  by (rule adds_keep; rule preservesI; simp add: inW_def getE_def uuid4_def)+

lemma adds_swallow: "adds P m \<Longrightarrow> adds P (tryE m swallow_exn)"
proof -
  assume m: "adds P m"
  have "snd (tryE m swallow_exn s) = snd (m s)" for s
    by (cases "m s") (auto simp: tryE_def swallow_exn_def retE_def raiseE_def split: sum.split)
  then show ?thesis using m by (simp add: adds_def)
qed

lemma adds_for: "(\<And>x. adds P (f x)) \<Longrightarrow> adds P (forE xs f)"
  by (induction xs) (simp_all add: adds_ret adds_then)

lemma adds_insert:
  assumes "\<And>r. ar_task_id r = art_task_id a \<and> ar_file_path r = path \<Longrightarrow> P r"
  shows "adds P (inW (insert_artifact a path))"
  unfolding adds_def
proof
  fix s
  show "\<exists>new. db_artifacts (w_db (dv_world (snd (inW (insert_artifact a path) s)))) =
      db_artifacts (w_db (dv_world s)) @ new \<and> list_all P new"
    using assms
    by (cases "statement (dv_world s)")
      (auto simp: inW_def insert_artifact_def bindE_def thenE_def getE_def raiseE_def update_db_def modifyE_def
        statement_def split: sum.splits list.splits if_splits prod.splits)
qed

lemma adds_register:
  assumes "\<And>r. ar_task_id r = dc_task_id dc \<and> ar_file_path r = Some path \<Longrightarrow> P r"
  shows "adds P (register_artifact dc ty filename path sz now meta em)"
  unfolding register_artifact_def
  by (intro adds_bind adds_then adds_uuid adds_insert adds_keep log_event_artifacts) (simp add: assms)

lemma bindE_value: "bindE (liftE (Inr x)) f = f x"
  by (rule ext) (simp add: bindE_def liftE_def)

lemma adds_register_interceptor: "adds (confined_row dc) (register_interceptor_artifact dc a)"
proof (cases "os_resolve (dc_os dc) (task_artifacts_dir dc)")
  case (Inl e)
  then show ?thesis by (simp add: register_interceptor_artifact_def liftE_def bindE_def adds_def)
next
  case (Inr base)
  have reg: "adds (confined_row dc) (register_artifact dc ty fn (path_text target) sz now meta em)"
    if "in_subtree base target" for ty fn target sz now meta em
    by (rule adds_register) (use that Inr in \<open>auto simp: confined_row_def\<close>)
  show ?thesis
    unfolding register_interceptor_artifact_def Inr bindE_value
    by (intro adds_bind adds_lift adds_read) (auto simp: adds_ret intro!: adds_bind adds_now reg split: option.split)
qed

text \<open>C27: Whatever artifacts the interceptors declare, registering them only adds rows of this task
  whose file lies in the task's own directory; a declared path outside it is refused.\<close>

theorem interceptor_artifacts_are_confined:
  "\<exists>new. db_artifacts (w_db (dv_world (snd
       (forE declared (\<lambda>a. tryE (register_interceptor_artifact dc a) swallow_exn) s)))) =
     db_artifacts (w_db (dv_world s)) @ new \<and> list_all (confined_row dc) new"
  using adds_for [OF adds_swallow [OF adds_register_interceptor], where xs = declared]
  by (fastforce simp: adds_def)

section \<open>The outcome\<close>

definition ends_in :: "(driver_state \<Rightarrow> bool) \<Rightarrow> 'a drv \<Rightarrow> bool" where
  "ends_in P m \<longleftrightarrow> (\<forall>s x t. m s = (Inr x, t) \<longrightarrow> P t)"

lemma ends_in_bind: "(\<And>x. ends_in P (f x)) \<Longrightarrow> ends_in P (bindE m f)"
  by (auto simp: ends_in_def bindE_def split: prod.splits sum.splits)

lemma ends_in_then: "ends_in P n \<Longrightarrow> ends_in P (thenE m n)"
  by (simp add: thenE_def ends_in_bind)

lemma ends_in_raise: "ends_in P (raiseE e)"
  by (simp add: ends_in_def raiseE_def)

lemma ends_in_abort_check:
  "ends_in (\<lambda>s. dv_abort s = None)
     (bindE (getE dv_abort) (\<lambda>c. case c of None \<Rightarrow> retE () | Some (reason, did) \<Rightarrow> raiseE (e reason did)))"
  by (auto simp: ends_in_def run_getE retE_def raiseE_def split: option.splits)

lemma run_inner_unaborted: "ends_in (\<lambda>s. dv_abort s = None) (run_inner dc r evs)"
proof -
  have ite: "ends_in P m \<Longrightarrow> ends_in P n \<Longrightarrow> ends_in P (if b then m else n)" for P b and m n :: "unit drv"
    by simp
  show ?thesis
    unfolding run_inner_def Let_def
    by (rule ends_in_bind, rule ite, rule ends_in_raise)
      (rule ends_in_then ends_in_abort_check ends_in_bind)+
qed

lemma quiet_ok: "quiet m \<Longrightarrow> \<exists>x t. m s = (Inr x, t)"
  unfolding quiet_def by (metis prod.collapse)

lemma raises_inW: "raises P m \<Longrightarrow> raises P (inW m)"
  by (rule raisesI) (auto simp: inW_def dest: raisesD split: prod.splits)

lemma raises_register_interceptor:
  assumes "\<And>p e. os_resolve (dc_os dc) p = Inl e \<Longrightarrow> is_Exception e"
  shows "raises is_Exception (register_interceptor_artifact dc a)"
proof -
  have prims: "raises is_Exception time_now" "raises is_Exception uuid4"
    by (simp_all add: raises_def uuid4_def)
  have reg: "raises is_Exception (register_artifact dc ty fn p sz now meta em)" for ty fn p sz now meta em
    unfolding register_artifact_def log_event_def
    by (intro raises_intros raises_inW raises_repo prims)
  show ?thesis
    unfolding register_interceptor_artifact_def
    by (intro raises_intros raises_inW raises_lift prims reg) (use assms in auto)
qed

lemma quiet_swallow: "raises is_Exception m \<Longrightarrow> quiet (tryE m swallow_exn)"
proof -
  assume m: "raises is_Exception m"
  have "\<exists>x. fst (tryE m swallow_exn s) = Inr x" for s
  proof (cases "m s")
    case (Pair r t)
    show ?thesis
    proof (cases r)
      case (Inl e)
      then have "is_Exception e" using m Pair by (auto dest: raisesD)
      then show ?thesis using Pair Inl by (simp add: tryE_def swallow_exn_def retE_def)
    qed (simp add: tryE_def Pair)
  qed
  then show ?thesis by (simp add: quiet_def)
qed

lemma quiet_for: "(\<And>x. quiet (f x)) \<Longrightarrow> \<exists>t. forE xs f s = (Inr (), t)"
proof (induction xs arbitrary: s)
  case (Cons x xs)
  obtain y t where 1: "f x s = (Inr y, t)" using quiet_ok [OF Cons.prems, of x s] by auto
  obtain u where 2: "forE xs f t = (Inr (), u)" using Cons.IH [OF Cons.prems, of t] by auto
  show ?case using 1 2 by (simp add: thenE_def bindE_def)
qed (simp add: retE_def)

lemma terminal_dispatch_quiet:
  assumes "hooks_ok (rn_interceptors (dv_runner s))"
    and "\<And>p e. os_resolve (dc_os dc) p = Inl e \<Longrightarrow> is_Exception e"
  shows "\<exists>t. dispatch_terminal_and_flush dc st reason s = (Inr (), t)"
proof (cases "rn_interceptors (dv_runner s) = []")
  case True
  then show ?thesis by (simp add: dispatch_terminal_and_flush_def run_getE retE_def)
next
  case False
  let ?sg = "\<lparr>tg_task_id = dc_task_id dc, tg_session_id = dv_session s, tg_status = task_status_value st,
    tg_reason = reason, tg_ended_at = w_clock (dv_world s)\<rparr>"
  have hooks: "raises is_Exception (ic_on_terminal ic ?sg)" if "ic \<in> set (active_interceptors (dv_runner s))" for ic
    using that assms(1) by (auto simp: hooks_ok_def active_interceptors_def)
  obtain rw1 where "dispatch_terminal ?sg (dv_runner s, dv_world s) = (Inr (), rw1)"
    "rn_interceptors (fst rw1) = rn_interceptors (dv_runner s)"
    using call_each_quiet [of "active_interceptors (dv_runner s)" "\<lambda>ic. ic_on_terminal ic ?sg" "(dv_runner s, dv_world s)", OF hooks]
    by (auto simp: dispatch_terminal_def run_getE)
  then obtain s1 where s1: "inR (dispatch_terminal ?sg) s = (Inr (), s1)"
    "rn_interceptors (dv_runner s1) = rn_interceptors (dv_runner s)"
    by (cases rw1) (simp add: inR_def)
  have flushes: "raises is_Exception (ic_flush ic)" if "ic \<in> set (rn_interceptors (dv_runner s1))" for ic
    using that assms(1) s1(2) by (auto simp: hooks_ok_def)
  obtain arts rw2 where "collect_artifacts (dv_runner s1, dv_world s1) = (Inr arts, rw2)"
    using flush_each_quiet [of "rn_interceptors (dv_runner s1)" "(dv_runner s1, dv_world s1)", OF flushes]
    by (auto simp: collect_artifacts_def run_getE)
  then obtain s2 where s2: "inR collect_artifacts s1 = (Inr arts, s2)" by (cases rw2) (simp add: inR_def)
  have reg: "raises is_Exception (register_interceptor_artifact dc a)" for a
    using assms(2) by (rule raises_register_interceptor)
  obtain t where t: "forE arts (\<lambda>a. tryE (register_interceptor_artifact dc a) swallow_exn) s2 = (Inr (), t)"
    using quiet_for [of "\<lambda>a. tryE (register_interceptor_artifact dc a) swallow_exn" arts s2, OF quiet_swallow [OF reg]] by blast
  have now: "inW time_now s = (Inr (w_clock (dv_world s)), s)" by (simp add: inW_def)
  show ?thesis using False s1(1) s2 t now
    by (simp add: dispatch_terminal_and_flush_def run_getE bindE_def [of "inW time_now"] thenE_def tryE_def bindE_def retE_def getE_def)
qed

text \<open>What the queue records for the exception that leaves \<open>run\<close>.\<close>

definition recorded_status :: "exn + unit \<Rightarrow> task_status option" where
  "recorded_status res =
     (case res of Inr _ \<Rightarrow> Some S_completed | Inl e \<Rightarrow> if is_Exception e then Some (outcome_status e) else None)"

definition escaping :: "driver_env \<Rightarrow> exn + unit \<Rightarrow> exn + unit" where
  "escaping dc out = (if out = Inl TimeoutError then Inl (task_timed_out_error (timeout_sec dc) None) else out)"

lemma maybe_call_quiet:
  assumes "\<And>x. quiet (f x)"
  shows "\<exists>t. (case sid of None \<Rightarrow> retE () | Some x \<Rightarrow> if x = [] then retE () else inW (f x)) s = (Inr (), t) \<and>
    dv_runner t = dv_runner s \<and> dv_abort t = dv_abort s"
proof (cases sid)
  case (Some x)
  obtain y w where "f x (dv_world s) = (Inr (), w)" using quiet_ok [OF assms, of x "dv_world s"] by auto
  then show ?thesis using Some by (simp add: retE_def inW_def)
qed (simp add: retE_def)

lemma on_timeout_run:
  assumes "\<And>x. quiet (cl_abort_session (dc_client dc) x)"
  shows "\<exists>t. tryE (\<lambda>s. (out, s)) (on_timeout dc) s = (escaping dc out, t) \<and> dv_runner t = dv_runner s"
proof (cases "out = Inl TimeoutError")
  case True
  obtain t where "(case dv_session s of None \<Rightarrow> retE () | Some x \<Rightarrow> if x = [] then retE ()
      else inW (cl_abort_session (dc_client dc) x)) s = (Inr (), t)" "dv_runner t = dv_runner s"
    using maybe_call_quiet [of "cl_abort_session (dc_client dc)" "dv_session s" s, OF assms] by blast
  then show ?thesis using True
    by (simp add: tryE_def on_timeout_def run_getE thenE_def escaping_def raiseE_def) (simp add: bindE_def raiseE_def)
next
  case False
  then show ?thesis by (cases out) (simp_all add: tryE_def on_timeout_def escaping_def raiseE_def)
qed

lemma close_session_run:
  assumes "\<And>x. quiet (cl_delete_session (dc_client dc) x)" and "quiet (cl_aclose (dc_client dc))"
  shows "\<exists>t. close_session dc s = (Inr (), t)"
proof -
  obtain t where t: "(case dv_session s of None \<Rightarrow> retE () | Some x \<Rightarrow> if x = [] then retE ()
      else inW (cl_delete_session (dc_client dc) x)) s = (Inr (), t)"
    using maybe_call_quiet [of "cl_delete_session (dc_client dc)" "dv_session s" s, OF assms(1)] by blast
  obtain w where "cl_aclose (dc_client dc) (dv_world t) = (Inr (), w)" using quiet_ok [OF assms(2)] by fastforce
  then show ?thesis using t by (simp add: close_session_def run_getE thenE_def) (simp add: bindE_def inW_def)
qed


lemma ex_client_quiet [simp]:
  "quiet (cl_abort_session ex_client x)" "quiet (cl_delete_session ex_client x)" "quiet (cl_aclose ex_client)"
  by (simp_all add: ex_client_def quiet_def retE_def)


end
