(* ===== verification/Py_Url.thy ===== *)
theory Py_Url
  imports Py_Strings Contract
begin

text \<open>
  What the code uses of Python's \<open>urllib.parse\<close> and \<open>base64\<close>: \<open>urlparse\<close> with its attributes
  \<open>scheme\<close>, \<open>netloc\<close>, \<open>path\<close>, \<open>hostname\<close> and \<open>port\<close>, and \<open>b64decode\<close> with \<open>validate\<close>, on ASCII
  text. Of the checks on a bracketed host only that the brackets match is modelled.
\<close>

section \<open>Parsing a URL\<close>

record url_parts =
  up_scheme :: string
  up_netloc :: string
  up_path :: string

definition is_alpha :: "char \<Rightarrow> bool" where
  "is_alpha c \<longleftrightarrow> is_lower c \<or> is_upper c"

definition scheme_char :: "char \<Rightarrow> bool" where
  "scheme_char c \<longleftrightarrow> is_alpha c \<or> is_digit c \<or> c \<in> {CHR ''+'', CHR ''-'', CHR ''.''}"

text \<open>Leading control characters and blanks go, tabs and line ends go everywhere.\<close>

definition url_clean :: "string \<Rightarrow> string" where
  "url_clean s = filter (\<lambda>c. c \<notin> {CHR 0x09, CHR 0x0A, CHR 0x0D})
     (dropWhile (\<lambda>c. (of_char c :: nat) \<le> 32) s)"

definition split_scheme :: "string \<Rightarrow> string \<times> string" where
  "split_scheme s =
     (case str_split1 CHR '':'' s of (a, b) \<Rightarrow>
        if str_contains CHR '':'' s \<and> a \<noteq> [] \<and> is_alpha (hd a) \<and> list_all scheme_char a
        then (str_lower a, b) else ([], s))"

definition split_netloc :: "string \<Rightarrow> string \<times> string" where
  "split_netloc s =
     (if starts_with ''//'' s
      then (takeWhile (\<lambda>c. c \<notin> {CHR ''/'', CHR ''?'', CHR ''#''}) (drop 2 s),
            dropWhile (\<lambda>c. c \<notin> {CHR ''/'', CHR ''?'', CHR ''#''}) (drop 2 s))
      else ([], s))"

definition urlparse :: "string \<Rightarrow> exn + url_parts" where
  "urlparse url =
     (case split_scheme (url_clean url) of (scheme, rest) \<Rightarrow>
      case split_netloc rest of (netloc, tail) \<Rightarrow>
        if str_contains CHR ''['' netloc \<noteq> str_contains CHR '']'' netloc then Inl (ValueError ''Invalid IPv6 URL'')
        else Inr \<lparr>up_scheme = scheme, up_netloc = netloc,
               up_path = takeWhile (\<lambda>c. c \<notin> {CHR ''?'', CHR ''#''}) tail\<rparr>)"

text \<open>The host and port texts of \<open>netloc\<close>, without the user part.\<close>

definition host_info :: "string \<Rightarrow> string \<times> string" where
  "host_info netloc =
     (let hi = rev (takeWhile (\<lambda>c. c \<noteq> CHR ''@'') (rev netloc)) in
      if str_contains CHR ''['' hi
      then (case str_split1 CHR '']'' (snd (str_split1 CHR ''['' hi)) of (h, p) \<Rightarrow> (h, snd (str_split1 CHR '':'' p)))
      else str_split1 CHR '':'' hi)"

definition url_hostname :: "url_parts \<Rightarrow> string option" where
  "url_hostname u =
     (let h = fst (host_info (up_netloc u)); zone = dropWhile (\<lambda>c. c \<noteq> CHR ''%'') h in
      if h = [] then None else Some (str_lower (takeWhile (\<lambda>c. c \<noteq> CHR ''%'') h) @ zone))"

definition url_port :: "url_parts \<Rightarrow> exn + int option" where
  "url_port u =
     (let p = snd (host_info (up_netloc u)) in
      if p = [] then Inr None
      else if \<not> list_all is_digit p then Inl (ValueError (''Port could not be cast to integer value as '' @ p))
      else if 65535 < read_digits 0 p then Inl (ValueError ''Port out of range 0-65535'')
      else Inr (Some (int (read_digits 0 p))))"

section \<open>Base64\<close>

definition b64_val :: "char \<Rightarrow> nat option" where
  "b64_val c =
     (let n = of_char c :: nat in
      if is_upper c then Some (n - 65) else if is_lower c then Some (n - 71)
      else if is_digit c then Some (n + 4) else if c = CHR ''+'' then Some 62
      else if c = CHR ''/'' then Some 63 else None)"

text \<open>Four characters: their bytes, and whether padding ends the text here.\<close>

definition b64_quad :: "char \<Rightarrow> char \<Rightarrow> char \<Rightarrow> char \<Rightarrow> (string \<times> bool) option" where
  "b64_quad a b c d =
     (case (b64_val a, b64_val b, b64_val c, b64_val d) of
        (Some x, Some y, Some z, Some t) \<Rightarrow>
          Some ([char_of (4 * x + y div 16), char_of (16 * y + z div 4), char_of (64 * z + t)], False)
      | (Some x, Some y, Some z, None) \<Rightarrow>
          if d = CHR ''='' then Some ([char_of (4 * x + y div 16), char_of (16 * y + z div 4)], True) else None
      | (Some x, Some y, None, None) \<Rightarrow>
          if c = CHR ''='' \<and> d = CHR ''='' then Some ([char_of (4 * x + y div 16)], True) else None
      | _ \<Rightarrow> None)"

fun b64decode :: "string \<Rightarrow> string option" where
  "b64decode [] = Some []"
| "b64decode (a # b # c # d # rest) =
     (case b64_quad a b c d of
        None \<Rightarrow> None
      | Some (bytes, padded) \<Rightarrow>
          if padded then (if rest = [] then Some bytes else None)
          else map_option ((@) bytes) (b64decode rest))"
| "b64decode _ = None"

lemma b64_quad_length: "b64_quad a b c d = Some (bytes, p) \<Longrightarrow> length bytes \<le> 3"
  by (auto simp: b64_quad_def split: option.splits if_splits)

lemma b64decode_length: "b64decode s = Some d \<Longrightarrow> 4 * length d \<le> 3 * length s"
proof (induction s arbitrary: d rule: b64decode.induct)
  case (2 x y z t rest d)
  then obtain bytes p where q: "b64_quad x y z t = Some (bytes, p)" by (auto split: option.splits)
  show ?case
  proof (cases p)
    case True
    then show ?thesis using "2.prems" q b64_quad_length [OF q] by (auto split: if_splits)
  next
    case False
    then obtain r where "b64decode rest = Some r" "d = bytes @ r" using "2.prems" q by auto
    then show ?thesis using "2.IH" q False b64_quad_length [OF q] by fastforce
  qed
qed simp_all

end
