(* ===== verification/Workspace.thy ===== *)
theory Workspace
  imports Artifact_Gc Config Py_Url
begin

text \<open>
  The workspace of a task, \<open>src/worker/workspace/handler.py\<close>. The operating system, git and HTTP
  are fields of \<open>ws_env\<close>: path resolution and refused writes, directories, the chunks of a
  download, a git command with its return code. The archive format is the library's: \<open>we_members\<close>
  lists the members of a tarball. A file's bytes are a string in \<open>w_files\<close>.
\<close>

section \<open>State and limits\<close>

datatype member_kind = M_file | M_dir | M_symlink | M_hardlink | M_other

record tar_member =
  tm_name :: string
  tm_kind :: member_kind
  tm_size :: nat
  tm_content :: "string option"

record ws_env =
  we_os :: os_files
  we_mkdir :: "file_path \<Rightarrow> unit io"
  we_is_dir :: "string \<Rightarrow> bool io"
  we_get :: "string \<Rightarrow> exn + (exn + string) list"
  we_members :: "string \<Rightarrow> exn + tar_member list"
  we_git :: "string list \<Rightarrow> int \<Rightarrow> (int \<times> string) io"

definition WORKSPACE_MAX_BYTES :: nat where "WORKSPACE_MAX_BYTES = 500 * 1024 * 1024"
definition TARBALL_INLINE_MAX_BYTES :: nat where "TARBALL_INLINE_MAX_BYTES = 50 * 1024 * 1024"
definition TARBALL_DOWNLOAD_MAX_BYTES :: nat where "TARBALL_DOWNLOAD_MAX_BYTES = 200 * 1024 * 1024"
definition GIT_CLONE_TIMEOUT_SEC :: int where "GIT_CLONE_TIMEOUT_SEC = 120"

section \<open>Getting a tarball\<close>

fun collect_chunks :: "string \<Rightarrow> nat \<Rightarrow> (exn + string) list \<Rightarrow> exn + string" where
  "collect_chunks url got [] = Inr []"
| "collect_chunks url got (Inl e # cs) = Inl e"
| "collect_chunks url got (Inr c # cs) =
     (let now = got + length c in
      if TARBALL_DOWNLOAD_MAX_BYTES < now
      then Inl (RuntimeError (''tarball download exceeds limit (200 MB): '' @ url))
      else (case collect_chunks url now cs of Inl e \<Rightarrow> Inl e | Inr data \<Rightarrow> Inr (c @ data)))"

definition download_tarball :: "ws_env \<Rightarrow> string \<Rightarrow> exn + string" where
  "download_tarball we url = (case we_get we url of Inl e \<Rightarrow> Inl e | Inr chunks \<Rightarrow> collect_chunks url 0 chunks)"

definition decode_inline_b64 :: "string \<Rightarrow> exn + string" where
  "decode_inline_b64 s =
     (case b64decode s of
        None \<Rightarrow> Inl (ValueError ''invalid base64 tarball data'')
      | Some data \<Rightarrow>
          if TARBALL_INLINE_MAX_BYTES < length data then Inl (ValueError ''inline tarball exceeds limit (50 MB)'')
          else Inr data)"

section \<open>Extraction\<close>

text \<open>\<open>Path(name).parts\<close>: the components without empty ones and single dots.\<close>

definition path_parts :: "string \<Rightarrow> string list" where
  "path_parts name = filter (\<lambda>c. c \<noteq> [] \<and> c \<noteq> ''.'') (str_split CHR ''/'' name)"

text \<open>The four checks of a member: its resolved target, or \<open>None\<close> when it is skipped.\<close>

definition member_target :: "ws_env \<Rightarrow> file_path \<Rightarrow> tar_member \<Rightarrow> exn + file_path option" where
  "member_target we dest m =
     (if starts_with ''/'' (tm_name m) then Inr None
      else if ''..'' \<in> set (path_parts (tm_name m)) then Inr None
      else if tm_kind m = M_symlink \<or> tm_kind m = M_hardlink then Inr None
      else (case os_resolve (we_os we) (path_join (path_text dest) (tm_name m)) of
              Inl e \<Rightarrow> Inl e
            | Inr target \<Rightarrow> Inr (if in_subtree dest target then Some target else None)))"

definition write_bytes :: "ws_env \<Rightarrow> file_path \<Rightarrow> string \<Rightarrow> unit io" where
  "write_bytes we target data =
     (if os_denied (we_os we) target then raiseE (OSError ''cannot open file'')
      else modifyE (\<lambda>w. w\<lparr>w_files := dict_set target (JStr data) (w_files w)\<rparr>))"

definition place_member :: "ws_env \<Rightarrow> file_path \<Rightarrow> tar_member \<Rightarrow> unit io" where
  "place_member we target m =
     (if tm_kind m = M_dir then we_mkdir we target
      else if tm_kind m = M_file
      then thenE (we_mkdir we (butlast target))
             (case tm_content m of None \<Rightarrow> retE () | Some data \<Rightarrow> write_bytes we target data)
      else retE ())"

definition size_error :: exn where
  "size_error = RuntimeError ''tarball extraction exceeds size limit (500 MB)''"

fun extract_members :: "ws_env \<Rightarrow> file_path \<Rightarrow> nat \<Rightarrow> tar_member list \<Rightarrow> unit io" where
  "extract_members we dest used [] = retE ()"
| "extract_members we dest used (m # ms) =
     bindE (liftE (member_target we dest m)) (\<lambda>t.
     case t of
       None \<Rightarrow> extract_members we dest used ms
     | Some target \<Rightarrow>
         if WORKSPACE_MAX_BYTES < used + tm_size m then raiseE size_error
         else thenE (place_member we target m) (extract_members we dest (used + tm_size m) ms))"

definition extract_tarball :: "ws_env \<Rightarrow> string \<Rightarrow> string \<Rightarrow> unit io" where
  "extract_tarball we data dest =
     bindE (liftE (os_resolve (we_os we) dest)) (\<lambda>d.
     bindE (liftE (we_members we data)) (extract_members we d 0))"

section \<open>Git\<close>

definition validate_git_url :: "string \<Rightarrow> exn + unit" where
  "validate_git_url url =
     (case urlparse url of
        Inl e \<Rightarrow> Inl e
      | Inr u \<Rightarrow>
          if up_scheme u \<noteq> ''https''
          then Inl (ValueError (''git_url must use https:// scheme, got: '' @ up_scheme u))
          else if up_netloc u = [] then Inl (ValueError (''git_url has no host: '' @ url))
          else Inr ())"

definition is_hex :: "char \<Rightarrow> bool" where
  "is_hex c \<longleftrightarrow> c \<in> set ''0123456789abcdefABCDEF''"

definition validate_git_sha :: "string \<Rightarrow> exn + unit" where
  "validate_git_sha sha =
     (if length sha \<noteq> 40 \<or> \<not> list_all is_hex sha
      then Inl (ValueError (''git_sha must be a 40-char hex string, got: '' @ sha)) else Inr ())"

text \<open>\<open>we_git\<close> gets the arguments and the timeout and returns the code and the error output.\<close>

definition git_clone :: "ws_env \<Rightarrow> string \<Rightarrow> string \<Rightarrow> string \<Rightarrow> unit io" where
  "git_clone we url sha dest =
     bindE (we_git we [''clone'', ''--depth'', ''1'', url, dest] GIT_CLONE_TIMEOUT_SEC) (\<lambda>(rc, err).
     if rc \<noteq> 0 then raiseE (RuntimeError (''git clone failed (rc='' @ show_int rc @ ''): '' @ take 500 err))
     else bindE (we_git we [''-C'', dest, ''fetch'', ''--depth'', ''1'', ''origin'', sha] GIT_CLONE_TIMEOUT_SEC) (\<lambda>_.
          bindE (we_git we [''-C'', dest, ''checkout'', sha] 30) (\<lambda>(rc2, err2).
          if rc2 \<noteq> 0
          then raiseE (RuntimeError (''git checkout '' @ sha @ '' failed (rc='' @ show_int rc2 @ ''): '' @ take 500 err2))
          else retE ())))"

section \<open>Preparing and cleaning a workspace\<close>

definition resolved_text :: "ws_env \<Rightarrow> string \<Rightarrow> string io" where
  "resolved_text we p = bindE (liftE (os_resolve (we_os we) p)) (\<lambda>r. retE (path_text r))"

definition is_set :: "string option \<Rightarrow> bool" where
  "is_set v \<longleftrightarrow> v \<noteq> None \<and> v \<noteq> Some []"

definition fetch_tarball :: "ws_env \<Rightarrow> workspace_spec \<Rightarrow> exn + string" where
  "fetch_tarball we ws =
     (if is_set (ws_tarball_url ws) then download_tarball we (the (ws_tarball_url ws))
      else if is_set (ws_tarball_inline_b64 ws) then decode_inline_b64 (the (ws_tarball_inline_b64 ws))
      else Inl (ValueError ''tarball kind requires tarball_url or tarball_inline_b64''))"

definition prepare_git :: "ws_env \<Rightarrow> string \<Rightarrow> git_spec option \<Rightarrow> string io" where
  "prepare_git we dir g =
     (case g of
        None \<Rightarrow> raiseE (ValueError ''git kind requires git_url and git_sha'')
      | Some gs \<Rightarrow>
          if git_url gs = [] \<or> git_sha gs = [] then raiseE (ValueError ''git kind requires git_url and git_sha'')
          else thenE (liftE (validate_git_url (git_url gs))) (
               thenE (liftE (validate_git_sha (git_sha gs))) (
               thenE (git_clone we (git_url gs) (git_sha gs) dir)
                 (if is_set (git_subpath gs)
                  then (let sub = path_join dir (the (git_subpath gs)) in
                        bindE (we_is_dir we sub) (\<lambda>ok.
                        if \<not> ok
                        then raiseE (RuntimeError (''git subpath '' @ the (git_subpath gs) @ '' not found in cloned repo''))
                        else resolved_text we sub))
                  else resolved_text we dir))))"

definition prepare_local :: "ws_env \<Rightarrow> string option \<Rightarrow> string io" where
  "prepare_local we p =
     (if \<not> is_set p then raiseE (ValueError ''local kind requires local_path'')
      else bindE (we_is_dir we (the p)) (\<lambda>ok.
           if \<not> ok then raiseE (ValueError (''local_path is not a directory: '' @ the p)) else retE (the p)))"

definition prepare_workspace :: "ws_env \<Rightarrow> string \<Rightarrow> string \<Rightarrow> workspace_spec \<Rightarrow> string io" where
  "prepare_workspace we tid base ws =
     (let dir = path_join base tid in
      thenE (bindE (liftE (os_resolve (we_os we) dir)) (we_mkdir we)) (
      if ws_kind ws = ''empty'' then resolved_text we dir
      else if ws_kind ws = ''tarball''
      then bindE (liftE (fetch_tarball we ws)) (\<lambda>data. thenE (extract_tarball we data dir) (resolved_text we dir))
      else if ws_kind ws = ''git'' then prepare_git we dir (ws_git ws)
      else if ws_kind ws = ''local'' then prepare_local we (ws_local_path ws)
      else raiseE (ValueError (''unknown workspace kind: '' @ ws_kind ws))))"

text \<open>\<open>rmtree\<close> ignores what it cannot delete.\<close>

definition cleanup_workspace :: "ws_env \<Rightarrow> string \<Rightarrow> unit io" where
  "cleanup_workspace we dir =
     bindE (we_is_dir we dir) (\<lambda>ok.
      if \<not> ok then retE ()
      else bindE (liftE (os_resolve (we_os we) dir)) (\<lambda>d.
           modifyE (\<lambda>w. w\<lparr>w_files := filter (\<lambda>f. \<not> in_subtree d (fst f) \<or> os_denied (we_os we) (fst f)) (w_files w)\<rparr>)))"

section \<open>Extraction stays inside and writes exactly the safe members\<close>

text \<open>The archive as one wants it: the targets and contents of the regular files that pass the
  checks, in order, and the sizes of all members that pass.\<close>

definition safe_target :: "ws_env \<Rightarrow> file_path \<Rightarrow> tar_member \<Rightarrow> file_path option" where
  "safe_target we d m = (case member_target we d m of Inr (Some t) \<Rightarrow> Some t | _ \<Rightarrow> None)"

definition safe_files :: "ws_env \<Rightarrow> file_path \<Rightarrow> tar_member list \<Rightarrow> (file_path \<times> string) list" where
  "safe_files we d ms =
     concat (map (\<lambda>m. case (safe_target we d m, tm_content m) of
        (Some t, Some c) \<Rightarrow> if tm_kind m = M_file then [(t, c)] else [] | _ \<Rightarrow> []) ms)"

definition safe_size :: "ws_env \<Rightarrow> file_path \<Rightarrow> tar_member list \<Rightarrow> nat" where
  "safe_size we d ms = sum_list (map (\<lambda>m. if safe_target we d m = None then 0 else tm_size m) ms)"

definition written :: "(file_path \<times> string) list \<Rightarrow> world \<Rightarrow> world" where
  "written fs w = w\<lparr>w_files := fold (\<lambda>(t, c). dict_set t (JStr c)) fs (w_files w)\<rparr>"

definition bytes_of :: "(file_path \<times> string) list \<Rightarrow> nat" where
  "bytes_of fs = sum_list (map (\<lambda>f. length (snd f)) fs)"

lemma written_simps [simp]: "written [] w = w" "written (fs @ gs) w = written gs (written fs w)"
  by (simp_all add: written_def)

lemma bytes_of_simps [simp]: "bytes_of [] = 0" "bytes_of (f # fs) = length (snd f) + bytes_of fs"
  "bytes_of (fs @ gs) = bytes_of fs + bytes_of gs"
  by (simp_all add: bytes_of_def)

lemma member_target_inside: "member_target we d m = Inr (Some t) \<Longrightarrow> in_subtree d t"
  by (auto simp: member_target_def split: if_splits sum.splits)

text \<open>Directories hold no bytes: creating them leaves the state alone.\<close>

definition mkdir_ok :: "ws_env \<Rightarrow> bool" where
  "mkdir_ok we \<longleftrightarrow> (\<forall>p. preserves id (we_mkdir we p))"

lemma mkdir_okD: "mkdir_ok we \<Longrightarrow> we_mkdir we p w = (r, w') \<Longrightarrow> w' = w"
  using preservesD [of id "we_mkdir we p" w] by (simp add: mkdir_ok_def)

definition content_fits :: "tar_member \<Rightarrow> bool" where
  "content_fits m \<longleftrightarrow> (case tm_content m of None \<Rightarrow> True | Some c \<Rightarrow> length c \<le> tm_size m)"

lemma place_member_writes:
  assumes "mkdir_ok we" and "content_fits m"
  shows "\<exists>fs. snd (place_member we t m w) = written fs w \<and> list_all (\<lambda>f. fst f = t) fs \<and>
    bytes_of fs \<le> tm_size m"
proof -
  obtain r w1 where k: "we_mkdir we (butlast t) w = (r, w1)" by (metis prod.exhaust)
  then have k1: "we_mkdir we (butlast t) w = (r, w)" using mkdir_okD [OF assms(1) k] by simp
  obtain r2 w2 where k2: "we_mkdir we t w = (r2, w2)" by (metis prod.exhaust)
  then have k2: "we_mkdir we t w = (r2, w)" using mkdir_okD [OF assms(1) k2] by simp
  have none: ?thesis if "snd (place_member we t m w) = w"
    using that by (intro exI [of _ "[]"]) simp
  show ?thesis
  proof (cases "\<exists>c. tm_kind m = M_file \<and> r = Inr () \<and> tm_content m = Some c \<and> \<not> os_denied (we_os we) t")
    case False
    then have "snd (place_member we t m w) = w" using k1 k2
      by (cases r; cases "tm_content m")
        (auto simp: place_member_def thenE_def bindE_def retE_def write_bytes_def raiseE_def)
    then show ?thesis by (rule none)
  next
    case True
    then obtain c where "tm_kind m = M_file" "r = Inr ()" "tm_content m = Some c" "\<not> os_denied (we_os we) t" by blast
    then show ?thesis using k1 assms(2)
      by (intro exI [of _ "[(t, c)]"])
        (simp add: place_member_def thenE_def bindE_def write_bytes_def modifyE_def written_def content_fits_def)
  qed
qed

lemma extract_members_confined:
  assumes "mkdir_ok we" and "list_all content_fits ms" and "used \<le> WORKSPACE_MAX_BYTES"
  shows "\<exists>fs. snd (extract_members we d used ms w) = written fs w \<and> list_all (\<lambda>f. in_subtree d (fst f)) fs \<and>
    used + bytes_of fs \<le> WORKSPACE_MAX_BYTES"
  using assms(2,3)
proof (induction ms arbitrary: used w)
  case Nil
  then show ?case by (intro exI [of _ "[]"]) (simp add: retE_def)
next
  case (Cons m ms)
  have none: ?case if "snd (extract_members we d used (m # ms) w) = w"
    using that Cons.prems(2) by (intro exI [of _ "[]"]) simp
  consider e where "member_target we d m = Inl e" | "member_target we d m = Inr None"
    | t where "member_target we d m = Inr (Some t)"
    by (metis old.sum.exhaust option.exhaust)
  then show ?case
  proof cases
    case (1 e)
    then show ?thesis by (intro none) (simp add: liftE_def bindE_def)
  next
    case 2
    then show ?thesis using Cons.IH [of used w] Cons.prems by (simp add: liftE_def bindE_def)
  next
    case (3 t)
    show ?thesis
    proof (cases "WORKSPACE_MAX_BYTES < used + tm_size m")
      case True
      then show ?thesis using 3 by (intro none) (simp add: liftE_def bindE_def raiseE_def)
    next
      case False
      obtain r w1 where p: "place_member we t m w = (r, w1)" by (metis prod.exhaust)
      obtain fs where fs: "w1 = written fs w" "list_all (\<lambda>f. fst f = t) fs" "bytes_of fs \<le> tm_size m"
        using place_member_writes [OF assms(1), of m t w] Cons.prems(1) p by auto
      have inside: "list_all (\<lambda>f. in_subtree d (fst f)) fs"
        using fs(2) member_target_inside [OF 3] by (auto simp: list_all_iff)
      show ?thesis
      proof (cases r)
        case (Inl e)
        then show ?thesis using 3 False p fs inside
          by (intro exI [of _ fs]) (simp add: liftE_def bindE_def thenE_def)
      next
        case (Inr u)
        obtain gs where gs: "snd (extract_members we d (used + tm_size m) ms w1) = written gs w1"
          "list_all (\<lambda>f. in_subtree d (fst f)) gs" "used + tm_size m + bytes_of gs \<le> WORKSPACE_MAX_BYTES"
          using Cons.IH [of "used + tm_size m" w1] Cons.prems(1) False by auto
        have "snd (extract_members we d used (m # ms) w) = written (fs @ gs) w"
          using 3 False p Inr gs(1) fs(1) by (simp add: liftE_def bindE_def thenE_def)
        then show ?thesis using inside gs(2,3) fs(3) by (intro exI [of _ "fs @ gs"]) simp
      qed
    qed
  qed
qed


text \<open>A disk on which nothing goes wrong.\<close>

definition disk_ok :: "ws_env \<Rightarrow> bool" where
  "disk_ok we \<longleftrightarrow> (\<forall>p w. we_mkdir we p w = (Inr (), w)) \<and> (\<forall>p. \<not> os_denied (we_os we) p) \<and>
     (\<forall>p. \<not> isl (os_resolve (we_os we) p))"

lemma member_target_total:
  assumes "disk_ok we"
  shows "member_target we d m = Inr (safe_target we d m)"
proof -
  obtain t where "os_resolve (we_os we) (path_join (path_text d) (tm_name m)) = Inr t"
    using assms unfolding disk_ok_def by (metis sum.collapse(2))
  then show ?thesis by (simp add: safe_target_def member_target_def)
qed

lemma place_member_ok:
  assumes "disk_ok we"
  shows "place_member we t m w = (Inr (), written
    (case tm_content m of Some c \<Rightarrow> if tm_kind m = M_file then [(t, c)] else [] | None \<Rightarrow> []) w)"
  using assms
  by (auto simp: disk_ok_def place_member_def thenE_def bindE_def retE_def write_bytes_def modifyE_def written_def
      split: option.split)

lemma safe_simps [simp]:
  "safe_files we d [] = []" "safe_size we d [] = 0"
  "safe_target we d m = None \<Longrightarrow> safe_files we d (m # ms) = safe_files we d ms"
  "safe_target we d m = None \<Longrightarrow> safe_size we d (m # ms) = safe_size we d ms"
  "safe_target we d m = Some t \<Longrightarrow> safe_files we d (m # ms) =
     (case tm_content m of Some c \<Rightarrow> if tm_kind m = M_file then [(t, c)] else [] | None \<Rightarrow> []) @ safe_files we d ms"
  "safe_target we d m = Some t \<Longrightarrow> safe_size we d (m # ms) = tm_size m + safe_size we d ms"
  by (simp_all add: safe_files_def safe_size_def split: option.split)

lemma extract_members_equiv:
  assumes "disk_ok we" and "used \<le> WORKSPACE_MAX_BYTES"
  shows "if used + safe_size we d ms \<le> WORKSPACE_MAX_BYTES
    then extract_members we d used ms w = (Inr (), written (safe_files we d ms) w)
    else \<exists>k < length ms. extract_members we d used ms w = (Inl size_error, written (safe_files we d (take k ms)) w)"
  using assms(2)
proof (induction ms arbitrary: used w)
  case Nil
  then show ?case by (simp add: retE_def)
next
  case (Cons m ms)
  note mt = member_target_total [OF assms(1), of d m]
  show ?case
  proof (cases "safe_target we d m")
    case None
    then have run: "extract_members we d used (m # ms) w = extract_members we d used ms w"
      using mt by (simp add: liftE_def bindE_def)
    show ?thesis
    proof (cases "used + safe_size we d ms \<le> WORKSPACE_MAX_BYTES")
      case True
      then show ?thesis unfolding run using Cons.IH [OF Cons.prems, of w] None by simp
    next
      case False
      then obtain k where "k < length ms" "extract_members we d used ms w = (Inl size_error, written (safe_files we d (take k ms)) w)"
        using Cons.IH [OF Cons.prems, of w] by auto
      then show ?thesis unfolding run using None False by (auto intro!: exI [of _ "Suc k"])
    qed
  next
    case (Some t)
    let ?fs = "case tm_content m of Some c \<Rightarrow> if tm_kind m = M_file then [(t, c)] else [] | None \<Rightarrow> []"
    show ?thesis
    proof (cases "used + tm_size m \<le> WORKSPACE_MAX_BYTES")
      case False
      then have "extract_members we d used (m # ms) w = (Inl size_error, w)"
        using mt Some by (simp add: liftE_def bindE_def raiseE_def)
      then show ?thesis using False Some by (auto intro!: exI [of _ 0])
    next
      case True
      then have run: "extract_members we d used (m # ms) w = extract_members we d (used + tm_size m) ms (written ?fs w)"
        using mt Some place_member_ok [OF assms(1), of t m w] by (simp add: liftE_def bindE_def thenE_def)
      show ?thesis
      proof (cases "used + tm_size m + safe_size we d ms \<le> WORKSPACE_MAX_BYTES")
        case True': True
        then show ?thesis unfolding run using Cons.IH [OF True, of "written ?fs w"] Some by (simp add: add.assoc)
      next
        case False
        then obtain k where "k < length ms" "extract_members we d (used + tm_size m) ms (written ?fs w) =
            (Inl size_error, written (safe_files we d (take k ms)) (written ?fs w))"
          using Cons.IH [OF True, of "written ?fs w"] by auto
        then show ?thesis unfolding run using Some False by (auto simp: add.assoc intro!: exI [of _ "Suc k"])
      qed
    qed
  qed
qed


section \<open>Where a repository comes from\<close>

text \<open>What git is given: a URL that reads as https with a host, and a full hexadecimal sha.\<close>

definition https_url :: "string \<Rightarrow> bool" where
  "https_url url \<longleftrightarrow> str_lower (take 8 (url_clean url)) = ''https://'' \<and>
     (case drop 8 (url_clean url) of [] \<Rightarrow> False | c # _ \<Rightarrow> c \<notin> {CHR ''/'', CHR ''?'', CHR ''#''})"

lemma validate_git_url_https:
  assumes "validate_git_url url = Inr ()"
  shows "https_url url"
proof -
  let ?s = "url_clean url"
  obtain a b where ab: "str_split1 CHR '':'' ?s = (a, b)" by (metis prod.exhaust)
  have p: "split_scheme ?s = (''https'', b) \<and> str_lower a = ''https'' \<and> str_contains CHR '':'' ?s"
    "fst (split_netloc b) \<noteq> []"
    using assms ab by (auto simp: validate_git_url_def urlparse_def split_scheme_def split: prod.splits if_splits)
  have s: "?s = a @ CHR '':'' # b" using str_split1_join [OF _ ab] p(1) by blast
  have "length a = length ''https''" using p(1) by (metis length_str_lower)
  then have len: "length a = 5" by simp
  obtain r where r: "b = ''//'' @ r" using p(2) by (auto simp: split_netloc_def starts_with_iff split: if_splits)
  obtain c t where c: "r = c # t" "c \<notin> {CHR ''/'', CHR ''?'', CHR ''#''}"
    using p(2) by (cases r) (auto simp: r split_netloc_def starts_with_def split: if_splits)
  have "take 8 ?s = a @ ''://''" "drop 8 ?s = r" unfolding s r using len by simp_all
  then show ?thesis using p(1) c by (simp add: https_url_def str_lower_def lower_char_def is_upper_def)
qed

text \<open>No git command is run for a workspace unless its URL is https with a host and its sha has
  40 hexadecimal digits: otherwise preparing it is refused with a \<open>ValueError\<close> and nothing happens.\<close>

theorem git_runs_only_for_https_and_full_sha:
  "if https_url (git_url gs) \<and> length (git_sha gs) = 40 \<and> list_all is_hex (git_sha gs) then True
   else \<exists>m. prepare_git we dir (Some gs) w = (Inl (ValueError m), w)"
proof (cases "https_url (git_url gs)")
  case True
  then show ?thesis
    by (cases "validate_git_url (git_url gs)")
      (auto simp: prepare_git_def validate_git_sha_def thenE_def bindE_def liftE_def raiseE_def
        validate_git_url_def urlparse_def split: prod.splits if_splits sum.splits)
next
  case False
  then obtain e where "validate_git_url (git_url gs) = Inl e"
    using validate_git_url_https [of "git_url gs"] by (cases "validate_git_url (git_url gs)") auto
  moreover then have "\<exists>m. e = ValueError m"
    by (auto simp: validate_git_url_def urlparse_def split: prod.splits if_splits sum.splits)
  ultimately show ?thesis using False by (auto simp: prepare_git_def thenE_def bindE_def liftE_def raiseE_def)
qed

text \<open>The subpath of a repository is not checked: an absolute subpath replaces the workspace
  directory altogether, so a task of kind \<open>git\<close> is given any directory of the host as its
  workspace, whether or not host mounts are allowed.\<close>

theorem git_subpath_mounts_any_directory:
  assumes "ws_kind ws = ''git''" and "ws_git ws = Some gs"
    and "validate_git_url (git_url gs) = Inr ()" and "validate_git_sha (git_sha gs) = Inr ()"
    and "git_subpath gs = Some sub" and "starts_with ''/'' sub"
    and "\<And>p w. we_mkdir we p w = (Inr (), w)" and "\<And>args t w. we_git we args t w = (Inr (0, []), w)"
    and "os_resolve (we_os we) (path_join base tid) = Inr d"
    and "we_is_dir we sub w = (Inr True, w)" and "os_resolve (we_os we) sub = Inr host_dir"
  shows "prepare_workspace we tid base ws w = (Inr (path_text host_dir), w)"
proof -
  have sub: "path_join (path_join base tid) sub = sub" using assms(6) by (simp add: path_join_def)
  have ne: "is_set (git_subpath gs)" using assms(5,6) by (auto simp: is_set_def starts_with_def)
  have "git_url gs \<noteq> []" "git_sha gs \<noteq> []"
    using assms(3,4) validate_git_url_https [OF assms(3)]
    by (auto simp: https_url_def url_clean_def str_lower_def validate_git_sha_def split: if_splits)
  then have "prepare_git we (path_join base tid) (ws_git ws) w = (Inr (path_text host_dir), w)"
    using assms sub ne
    by (simp add: prepare_git_def git_clone_def thenE_def bindE_def liftE_def resolved_text_def retE_def Let_def)
  then show ?thesis using assms(1,7,9) by (simp add: prepare_workspace_def thenE_def bindE_def liftE_def Let_def)
qed

section \<open>Instances\<close>

definition ex_members :: "tar_member list" where
  "ex_members = [\<lparr>tm_name = ''../x'', tm_kind = M_file, tm_size = 1, tm_content = Some ''x''\<rparr>,
     \<lparr>tm_name = ''a'', tm_kind = M_symlink, tm_size = 0, tm_content = None\<rparr>,
     \<lparr>tm_name = ''b'', tm_kind = M_file, tm_size = 2, tm_content = Some ''hi''\<rparr>]"

definition ex_ws :: ws_env where
  "ex_ws = \<lparr>we_os = \<lparr>os_resolve = (\<lambda>p. Inr (path_parts p)), os_denied = (\<lambda>_. False)\<rparr>, we_mkdir = (\<lambda>_. retE ()),
     we_is_dir = (\<lambda>_. retE True), we_get = (\<lambda>_. Inr []), we_members = (\<lambda>_. Inr ex_members),
     we_git = (\<lambda>_ _. retE (0, []))\<rparr>"

lemma ex_ws_simps [simp]:
  "os_resolve (we_os ex_ws) p = Inr (path_parts p)" "os_denied (we_os ex_ws) q = False"
  "we_mkdir ex_ws q = retE ()" "we_is_dir ex_ws p = retE True" "we_members ex_ws p = Inr ex_members"
  "we_git ex_ws a t = retE (0, [])"
  by (simp_all add: ex_ws_def)

lemma ex_safe: "safe_files ex_ws [''w''] ex_members = [([''w'', ''b''], ''hi'')]" "safe_size ex_ws [''w''] ex_members = 2"
  by (simp_all add: safe_files_def safe_size_def safe_target_def ex_members_def member_target_def path_parts_def
      starts_with_def path_join_def path_text_def in_subtree_def)



definition ex_git :: git_spec where
  "ex_git = \<lparr>git_url = ''https://h/r'', git_sha = replicate 40 CHR ''a'', git_subpath = Some ''/etc''\<rparr>"

theorem git_subpath_witness:
  "prepare_workspace ex_ws ''t1'' ''/data/workspaces'' (default_workspace\<lparr>ws_kind := ''git'', ws_git := Some ex_git\<rparr>) ex_world =
     (Inr ''/etc'', ex_world)"
proof -
  have u: "validate_git_url (git_url ex_git) = Inr ()"
    by (simp add: ex_git_def validate_git_url_def urlparse_def split_scheme_def url_clean_def str_split1_def
        str_contains_def is_alpha_def scheme_char_def is_lower_def is_upper_def str_lower_def lower_char_def
        split_netloc_def starts_with_def)
  have h: "validate_git_sha (git_sha ex_git) = Inr ()" by (simp add: ex_git_def validate_git_sha_def list_all_iff is_hex_def)
  have p: "path_parts ''/etc'' = [''etc'']" "path_text [''etc''] = ''/etc''" by (simp_all add: path_parts_def path_text_def)
  show ?thesis
    using git_subpath_mounts_any_directory [of "default_workspace\<lparr>ws_kind := ''git'', ws_git := Some ex_git\<rparr>" ex_git
        "''/etc''" ex_ws "''/data/workspaces''" "''t1''" _ ex_world "[''etc'']"] u h p
    by (simp add: retE_def starts_with_def) (simp add: ex_git_def)
qed

end
