(* ===== verification/Py_Ip.thy ===== *)
theory Py_Ip
  imports Py_Strings
begin

text \<open>
  Python's \<open>ipaddress.ip_address\<close> on ASCII text and the membership of an address in a network: an
  address is its number, IPv4 below 2^32 and IPv6 below 2^128, with an optional zone.
\<close>

datatype ip_addr = IPv4 nat | IPv6 nat

definition parse_octet :: "string \<Rightarrow> nat option" where
  "parse_octet s =
     (if s = [] \<or> \<not> list_all is_digit s \<or> 3 < length s then None
      else if hd s = CHR ''0'' \<and> length s \<noteq> 1 then None
      else if 255 < read_digits 0 s then None else Some (read_digits 0 s))"

fun all_some :: "'a option list \<Rightarrow> 'a list option" where
  "all_some [] = Some []"
| "all_some (None # xs) = None"
| "all_some (Some x # xs) = map_option ((#) x) (all_some xs)"

definition parse_ipv4 :: "string \<Rightarrow> nat option" where
  "parse_ipv4 s =
     (let os = str_split CHR ''.'' s in
      if length os \<noteq> 4 then None
      else map_option (foldl (\<lambda>a b. 256 * a + b) 0) (all_some (map parse_octet os)))"

definition hex_val :: "char \<Rightarrow> nat option" where
  "hex_val c =
     (let n = of_char c :: nat in
      if is_digit c then Some (n - 48)
      else if 97 \<le> n \<and> n \<le> 102 then Some (n - 87)
      else if 65 \<le> n \<and> n \<le> 70 then Some (n - 55) else None)"

definition parse_hextet :: "string \<Rightarrow> nat option" where
  "parse_hextet s =
     (if s = [] \<or> 4 < length s then None
      else map_option (foldl (\<lambda>a b. 16 * a + b) 0) (all_some (map hex_val s)))"

text \<open>A part between colons: text, or a number that came from a trailing IPv4 address.\<close>

datatype ip6_part = Txt string | Num nat

fun part_val :: "ip6_part \<Rightarrow> nat option" where
  "part_val (Txt s) = parse_hextet s"
| "part_val (Num n) = Some n"

definition split_ip6 :: "string \<Rightarrow> ip6_part list option" where
  "split_ip6 s =
     (let ps = str_split CHR '':'' s in
      if length ps < 3 then None
      else if str_contains CHR ''.'' (last ps)
      then map_option (\<lambda>n. map Txt (butlast ps) @ [Num (n div 65536), Num (n mod 65536)]) (parse_ipv4 (last ps))
      else Some (map Txt ps))"

definition gaps :: "ip6_part list \<Rightarrow> nat list" where
  "gaps ps = filter (\<lambda>i. ps ! i = Txt []) [1..<length ps - 1]"

definition join_hextets :: "nat option list \<Rightarrow> nat option" where
  "join_hextets vs = map_option (foldl (\<lambda>a b. 65536 * a + b) 0) (all_some vs)"

text \<open>The parts before and after the gap \<open>::\<close>, with an empty first or last part allowed only next
  to it; the gap stands for at least one group of zeros.\<close>

definition ip6_groups :: "ip6_part list \<Rightarrow> nat option list option" where
  "ip6_groups ps =
     (if 9 < length ps then None
      else (case gaps ps of
         [] \<Rightarrow> if length ps = 8 \<and> hd ps \<noteq> Txt [] \<and> last ps \<noteq> Txt [] then Some (map part_val ps) else None
       | [i] \<Rightarrow>
           (let hi = (if hd ps = Txt [] then i - 1 else i);
                lo = (if last ps = Txt [] then length ps - i - 2 else length ps - i - 1)
            in if (hd ps = Txt [] \<and> hi \<noteq> 0) \<or> (last ps = Txt [] \<and> lo \<noteq> 0) \<or> 8 \<le> hi + lo then None
               else Some (map part_val (take hi ps) @ replicate (8 - (hi + lo)) (Some 0) @
                          map part_val (drop (length ps - lo) ps)))
       | _ \<Rightarrow> None))"

definition parse_ipv6 :: "string \<Rightarrow> nat option" where
  "parse_ipv6 s =
     (case str_split CHR ''%'' s of
        [a] \<Rightarrow> Option.bind (Option.bind (split_ip6 a) ip6_groups) join_hextets
      | [a, z] \<Rightarrow> if z = [] then None else Option.bind (Option.bind (split_ip6 a) ip6_groups) join_hextets
      | _ \<Rightarrow> None)"

definition ip_address :: "string \<Rightarrow> ip_addr option" where
  "ip_address s =
     (if str_contains CHR ''/'' s then None
      else (case parse_ipv4 s of
              Some n \<Rightarrow> Some (IPv4 n)
            | None \<Rightarrow> map_option IPv6 (parse_ipv6 s)))"

text \<open>A network: an address and the number of its leading bits.\<close>

fun in_network :: "ip_addr \<Rightarrow> ip_addr \<times> nat \<Rightarrow> bool" where
  "in_network (IPv4 a) (IPv4 n, k) = (a div 2 ^ (32 - k) = n div 2 ^ (32 - k))"
| "in_network (IPv6 a) (IPv6 n, k) = (a div 2 ^ (128 - k) = n div 2 ^ (128 - k))"
| "in_network _ _ = False"

section \<open>Dotted quads\<close>

definition dotted :: "nat \<Rightarrow> nat \<Rightarrow> nat \<Rightarrow> nat \<Rightarrow> string" where
  "dotted a b c d = show_nat a @ ''.'' @ show_nat b @ ''.'' @ show_nat c @ ''.'' @ show_nat d"

lemma str_split_no: "c \<notin> set s \<Longrightarrow> str_split c s = [s]"
  by (induction s) auto

lemma str_split_cons: "c \<notin> set s \<Longrightarrow> str_split c (s @ c # t) = s # str_split c t"
  by (induction s) auto

lemma show_nat_no_dot: "CHR ''.'' \<notin> set (show_nat n)"
  using show_nat_digits [of n] by (auto simp: is_digit_def)

lemma show_nat_length: "n < 256 \<Longrightarrow> length (show_nat n) \<le> 3"
  by (subst show_nat.simps, subst show_nat.simps, subst show_nat.simps) auto

lemma show_nat_hd: "length (show_nat n) \<noteq> 1 \<Longrightarrow> hd (show_nat n) \<noteq> CHR ''0''"
proof (induction n rule: show_nat.induct)
  case (1 n)
  have hd0: "digit_char m \<noteq> CHR ''0''" if "0 < m" "m < 10" for m
  proof
    assume "digit_char m = CHR ''0''"
    then have "(of_char (digit_char m) :: nat) = 48" by simp
    then show False using that by simp
  qed
  show ?case
  proof (cases "n < 10")
    case True
    then have "show_nat n = [digit_char n]" by (subst show_nat.simps) simp
    then show ?thesis using 1 by simp
  next
    case False
    have s: "show_nat n = show_nat (n div 10) @ [digit_char (n mod 10)]"
      using False by (subst show_nat.simps) simp
    show ?thesis
    proof (cases "n div 10 < 10")
      case True
      then have "show_nat (n div 10) = [digit_char (n div 10)]" by (subst show_nat.simps) simp
      then show ?thesis using s True False hd0 [of "n div 10"] by simp
    next
      case False
      then have "length (show_nat (n div 10)) \<noteq> 1"
        by (subst show_nat.simps) (simp add: Suc_le_eq)
      then show ?thesis using 1 False s by simp
    qed
  qed
qed

lemma parse_octet_show: "n < 256 \<Longrightarrow> parse_octet (show_nat n) = Some n"
  using show_nat_digits [of n] show_nat_length [of n] show_nat_hd [of n]
  by (auto simp: parse_octet_def read_digits_show_nat list_all_iff)

lemma ip_address_dotted:
  assumes "a < 256" "b < 256" "c < 256" "d < 256"
  shows "ip_address (dotted a b c d) = Some (IPv4 (256 * (256 * (256 * a + b) + c) + d))"
proof -
  have split: "str_split CHR ''.'' (dotted a b c d) = [show_nat a, show_nat b, show_nat c, show_nat d]"
    by (simp add: dotted_def str_split_cons str_split_no show_nat_no_dot)
  have "CHR ''/'' \<notin> set (show_nat n)" for n using show_nat_digits [of n] by (auto simp: is_digit_def)
  then have "\<not> str_contains CHR ''/'' (dotted a b c d)" by (simp add: str_contains_def dotted_def)
  then show ?thesis using assms by (simp add: ip_address_def parse_ipv4_def split parse_octet_show Let_def)
qed

end
