(* ===== verification/Broker_Proxy.thy ===== *)
theory Broker_Proxy
  imports Broker_Policy Py_Ip Py_Url
begin

text \<open>
  The egress proxy \<open>src/broker/proxy.py\<close>: the check for private addresses, the decision and the
  answer of a CONNECT and of a forwarded request, the management endpoints and the routes. The
  network is a parameter: opening a TCP connection and sending a request succeed or raise. The
  state keeps the policies and the list of the destinations contacted.
\<close>

section \<open>Private addresses\<close>

definition PRIVATE_NETWORKS :: "(ip_addr \<times> nat) list" where
  "PRIVATE_NETWORKS =
     [(IPv4 (10 * 2 ^ 24), 8), (IPv4 (172 * 2 ^ 24 + 16 * 2 ^ 16), 12), (IPv4 (192 * 2 ^ 24 + 168 * 2 ^ 16), 16),
      (IPv4 (127 * 2 ^ 24), 8), (IPv4 (169 * 2 ^ 24 + 254 * 2 ^ 16), 16), (IPv6 1, 128),
      (IPv6 (0xfc * 2 ^ 120), 7)]"

definition BROKER_INTERNAL_HOSTS :: "string list" where
  "BROKER_INTERNAL_HOSTS = [''broker'', ''host.docker.internal'']"

definition is_private_host :: "string \<Rightarrow> bool" where
  "is_private_host host \<longleftrightarrow>
     (if host \<in> set BROKER_INTERNAL_HOSTS then False
      else (case ip_address host of None \<Rightarrow> False | Some a \<Rightarrow> list_ex (in_network a) PRIVATE_NETWORKS))"

section \<open>Proxying\<close>

record proxy_state =
  px_policies :: policies
  px_contacted :: "(string \<times> int) list"

type_synonym 'a px = "(proxy_state, exn, 'a) comp"

datatype proxy_response =
    Plain nat string
  | Json_response nat json
  | Relayed nat "(string \<times> string) list" string

record http_request =
  hr_method :: string
  hr_url :: string
  hr_headers :: "(string \<times> string) list"
  hr_body :: string

definition contact :: "string \<Rightarrow> int \<Rightarrow> unit px" where
  "contact host port = modifyE (\<lambda>s. s\<lparr>px_contacted := px_contacted s @ [(host, port)]\<rparr>)"

text \<open>\<open>host:port\<close> of the CONNECT target; the port is 443 when it is missing or no number.\<close>

definition connect_target :: "string \<Rightarrow> string \<times> int" where
  "connect_target path =
     (let hp = dropWhile (\<lambda>c. c = CHR ''/'') path in
      if str_contains CHR '':'' hp
      then (case str_rsplit1 CHR '':'' hp of (h, p) \<Rightarrow> (h, case py_int p of None \<Rightarrow> 443 | Some n \<Rightarrow> n))
      else (hp, 443))"

definition header_task_id :: "(string \<times> string) list \<Rightarrow> string" where
  "header_task_id headers = (case map_of (rev headers) ''x-task-id'' of None \<Rightarrow> [] | Some t \<Rightarrow> t)"

definition is_oserror :: "exn \<Rightarrow> bool" where
  "is_oserror e = (case e of OSError _ \<Rightarrow> True | PermissionError _ \<Rightarrow> True | TimeoutError \<Rightarrow> True | _ \<Rightarrow> False)"

definition handle_connect ::
    "(string \<Rightarrow> int \<Rightarrow> exn + unit) \<Rightarrow> (string \<times> string) list \<Rightarrow> string \<Rightarrow> proxy_response px" where
  "handle_connect open_connection headers path =
     (let tid = header_task_id headers; host = fst (connect_target path); port = snd (connect_target path) in
      bindE (getE px_policies) (\<lambda>ps.
      if \<not> is_allowed (Some tid) host (Some port) ps then retE (Plain 403 ''Forbidden by egress policy'')
      else if is_private_host host then retE (Plain 403 ''Access to private addresses forbidden'')
      else thenE (contact host port)
             (case open_connection host port of
                Inl e \<Rightarrow> if is_oserror e then retE (Plain 502 (''Bad Gateway: '' @ exn_str e)) else raiseE e
              | Inr _ \<Rightarrow> retE (Plain 200 []))))"

text \<open>The ASGI messages of an answer of \<open>handle_connect\<close>; a text is its bytes.\<close>

datatype asgi_message =
    Response_start nat "(string \<times> string) list"
  | Response_body string

definition send_response :: "nat \<Rightarrow> string \<Rightarrow> asgi_message list" where
  "send_response status body =
     [Response_start status [(''content-type'', ''text/plain''), (''content-length'', show_nat (length body))],
      Response_body body]"

definition connect_messages :: "nat \<Rightarrow> string \<Rightarrow> asgi_message list" where
  "connect_messages status body =
     (if status = 200 then [Response_start 200 [(''content-length'', ''0'')], Response_body []]
      else send_response status body)"

text \<open>The headers that are not passed on.\<close>

definition PROXY_HEADERS :: "string list" where
  "PROXY_HEADERS = [''host'', ''x-task-id'', ''proxy-connection'', ''proxy-authorization'']"

definition forward_headers :: "(string \<times> string) list \<Rightarrow> (string \<times> string) list" where
  "forward_headers hs = filter (\<lambda>h. str_lower (fst h) \<notin> set PROXY_HEADERS) hs"

definition is_upstream_error :: "exn \<Rightarrow> bool" where
  "is_upstream_error e =
     (case e of OtherError n _ \<Rightarrow> n = ''ConnectError'' \<or> n = ''TimeoutException'' | _ \<Rightarrow> False)"

definition forward_target :: "string \<Rightarrow> exn + string \<times> int" where
  "forward_target url =
     (case urlparse url of
        Inl e \<Rightarrow> Inl e
      | Inr u \<Rightarrow>
          (case url_port u of
             Inl e \<Rightarrow> Inl e
           | Inr p \<Rightarrow>
               Inr (case url_hostname u of None \<Rightarrow> [] | Some h \<Rightarrow> h,
                    case p of Some n \<Rightarrow> if n \<noteq> 0 then n else if up_scheme u = ''https'' then 443 else 80
                    | None \<Rightarrow> if up_scheme u = ''https'' then 443 else 80)))"

definition handle_http_forward ::
    "(http_request \<Rightarrow> exn + nat \<times> (string \<times> string) list \<times> string) \<Rightarrow> http_request \<Rightarrow> proxy_response px" where
  "handle_http_forward send rq =
     bindE (liftE (forward_target (hr_url rq))) (\<lambda>(host, port).
     bindE (getE px_policies) (\<lambda>ps.
     if \<not> is_allowed (Some (case map_of (hr_headers rq) ''x-task-id'' of None \<Rightarrow> [] | Some t \<Rightarrow> t)) host (Some port) ps
     then retE (Json_response 403 (JObj [(''error'', JStr ''egress_denied''), (''host'', JStr host)]))
     else if is_private_host host
     then retE (Json_response 403 (JObj [(''error'', JStr ''private_address_forbidden'')]))
     else thenE (contact host port)
            (case send (rq\<lparr>hr_headers := forward_headers (hr_headers rq)\<rparr>) of
               Inl e \<Rightarrow>
                 if is_upstream_error e
                 then retE (Json_response 502 (JObj [(''error'', JStr ''upstream_error''), (''detail'', JStr (exn_str e))]))
                 else raiseE e
             | Inr (status, headers, content) \<Rightarrow> retE (Relayed status headers content))))"

section \<open>Management\<close>

definition broker_health :: "proxy_response px" where
  "broker_health = retE (Json_response 200 (JObj [(''status'', JStr ''ok''), (''service'', JStr ''broker'')]))"

fun host_names :: "json list \<Rightarrow> exn + string list" where
  "host_names [] = Inr []"
| "host_names (JStr s # vs) = (case host_names vs of Inl e \<Rightarrow> Inl e | Inr ss \<Rightarrow> Inr (s # ss))"
| "host_names (_ # vs) = Inl (AttributeError ''object has no attribute strip'')"

text \<open>The body is \<open>None\<close> when it is no JSON.\<close>

definition update_policy :: "string \<Rightarrow> json option \<Rightarrow> proxy_response px" where
  "update_policy tid body =
     (case body of
        None \<Rightarrow> retE (Json_response 400 (JObj [(''error'', JStr ''invalid_json'')]))
      | Some (JObj d) \<Rightarrow>
          (case dict_get d ''allow_egress_hosts'' (JList []) of
             JList vs \<Rightarrow>
               bindE (liftE (host_names vs)) (\<lambda>hosts.
               thenE (modifyE (\<lambda>s. s\<lparr>px_policies := set_task_policy tid hosts (px_policies s)\<rparr>))
                 (bindE (getE px_policies) (\<lambda>ps.
                  retE (Json_response 200 (JObj [(''task_id'', JStr tid),
                    (''allowed_hosts'', JList (map JStr (get_task_policy tid ps)))])))))
           | _ \<Rightarrow> retE (Json_response 400 (JObj [(''error'', JStr ''allow_egress_hosts must be a list'')])))
      | Some _ \<Rightarrow> raiseE (AttributeError ''object has no attribute get''))"

definition list_policies :: "proxy_response px" where
  "list_policies =
     bindE (getE px_policies) (\<lambda>ps.
     retE (Json_response 200 (JObj (map (\<lambda>(t, hs). (t, JList (map JStr hs))) (list_active_policies ps)))))"

text \<open>The routes of the application: no route leads to the two proxy handlers.\<close>

datatype broker_handler = H_health | H_update_policy string | H_list_policies

definition broker_route :: "string \<Rightarrow> string \<Rightarrow> broker_handler option" where
  "broker_route meth path =
     (case str_split CHR ''/'' path of
        [[], a, b] \<Rightarrow>
          if a = ''broker'' \<and> b = ''health'' \<and> meth \<in> {''GET'', ''HEAD''} then Some H_health
          else if a = ''broker'' \<and> b = ''policies'' \<and> meth \<in> {''GET'', ''HEAD''} then Some H_list_policies else None
      | [[], a, b, t, c] \<Rightarrow>
          if a = ''broker'' \<and> b = ''tasks'' \<and> t \<noteq> [] \<and> c = ''policy'' \<and> meth = ''POST'' then Some (H_update_policy t) else None
      | _ \<Rightarrow> None)"

section \<open>Which addresses are private\<close>

lemma quad_groups:
  fixes a b c d :: nat
  assumes "a < 256" "b < 256" "c < 256" "d < 256"
  shows "(16777216 * a + 65536 * b + 256 * c + d) div 16777216 = a"
    and "(16777216 * a + 65536 * b + 256 * c + d) div 65536 = 256 * a + b"
    and "(16777216 * a + 65536 * b + 256 * c + d) div 1048576 = 16 * a + b div 16"
proof -
  show "(16777216 * a + 65536 * b + 256 * c + d) div 16777216 = a" using assms by linarith
  show "(16777216 * a + 65536 * b + 256 * c + d) div 65536 = 256 * a + b" using assms by linarith
  show "(16777216 * a + 65536 * b + 256 * c + d) div 1048576 = 16 * a + b div 16" using assms by linarith
qed

lemma two_digits:
  fixes a b x y k :: nat
  assumes "x < k" and "y < k"
  shows "k * a + x = k * b + y \<longleftrightarrow> a = b \<and> x = y"
proof
  assume e: "k * a + x = k * b + y"
  have "(k * a + x) div k = a" "(k * b + y) div k = b" using assms by simp_all
  then show "a = b \<and> x = y" using e by simp
qed simp

lemma not_internal: "dotted a b c d \<notin> set BROKER_INTERNAL_HOSTS"
proof -
  obtain x xs where x: "show_nat a = x # xs" "is_digit x"
    using show_nat_digits [of a] by (cases "show_nat a") auto
  then have "hd (dotted a b c d) = x" by (simp add: dotted_def)
  then show ?thesis using x(2) by (auto simp: BROKER_INTERNAL_HOSTS_def is_digit_def)
qed

text \<open>Among the dotted quads the check refuses exactly the RFC 1918 ranges, the loopback range
  and the link-local range.\<close>

theorem private_quads:
  assumes "a < 256" and "b < 256" and "c < 256" and "d < 256"
  shows "is_private_host (dotted a b c d) \<longleftrightarrow>
    a = 10 \<or> a = 127 \<or> a = 172 \<and> 16 \<le> b \<and> b < 32 \<or> a = 192 \<and> b = 168 \<or> a = 169 \<and> b = 254"
proof -
  have "is_private_host (dotted a b c d) \<longleftrightarrow>
    a = 10 \<or> 16 * a + b div 16 = 2753 \<or> 256 * a + b = 49320 \<or> a = 127 \<or> 256 * a + b = 43518"
    using assms by (simp add: is_private_host_def not_internal ip_address_dotted PRIVATE_NETWORKS_def quad_groups)
  moreover have "16 * a + b div 16 = 2753 \<longleftrightarrow> a = 172 \<and> b div 16 = 1"
    using two_digits [of "b div 16" 16 1 a 172] assms(2) by (simp add: less_mult_imp_div_less)
  moreover have "b div 16 = 1 \<longleftrightarrow> 16 \<le> b \<and> b < 32" by auto
  moreover have "256 * a + b = 49320 \<longleftrightarrow> a = 192 \<and> b = 168" "256 * a + b = 43518 \<longleftrightarrow> a = 169 \<and> b = 254"
    using two_digits [of b 256 168 a 192] two_digits [of b 256 254 a 169] assms(2) by simp_all
  ultimately show ?thesis by blast
qed

theorem private_quads_witness:
  "is_private_host (dotted 172 16 0 9) \<and> \<not> is_private_host (dotted 172 32 0 9)"
  using private_quads [of 172 16 0 9] private_quads [of 172 32 0 9] by simp

text \<open>Every answer to CONNECT announces the length of the body it sends.\<close>

lemma connect_length_is_announced:
  assumes "handle_connect oc hs path s = (Inr (Plain status body), s')"
  shows "\<exists>h sent. connect_messages status body = [Response_start status h, Response_body sent] \<and>
    map_of h ''content-length'' = Some (show_nat (length sent)) \<and> sent = body"
proof -
  have "status \<in> {403, 502} \<or> status = 200 \<and> body = []"
    using assms by (auto simp: handle_connect_def Let_def comp_defs contact_def split: if_splits sum.splits)
  moreover have "show_nat 0 = ''0''" by code_simp
  ultimately show ?thesis by (auto simp: connect_messages_def send_response_def)
qed

section \<open>No egress but through the policy\<close>

definition may_contact :: "string \<Rightarrow> policies \<Rightarrow> string \<times> int \<Rightarrow> bool" where
  "may_contact tid ps hp \<longleftrightarrow> is_allowed (Some tid) (fst hp) (Some (snd hp)) ps \<and> \<not> is_private_host (fst hp)"

lemma connect_contacts:
  "px_policies (snd (handle_connect oc hs path s)) = px_policies s \<and>
   (px_contacted (snd (handle_connect oc hs path s)) = px_contacted s \<and>
      (\<exists>m. fst (handle_connect oc hs path s) = Inr (Plain 403 m)) \<or>
    (\<exists>hp. px_contacted (snd (handle_connect oc hs path s)) = px_contacted s @ [hp] \<and>
      may_contact (header_task_id hs) (px_policies s) hp))"
  by (cases "connect_target path")
    (auto simp: handle_connect_def Let_def comp_defs contact_def may_contact_def split: sum.split)

lemma forward_contacts:
  "px_policies (snd (handle_http_forward send rq s)) = px_policies s \<and>
   (px_contacted (snd (handle_http_forward send rq s)) = px_contacted s \<and>
      (case fst (handle_http_forward send rq s) of Inl e \<Rightarrow> \<exists>m. e = ValueError m
       | Inr r \<Rightarrow> \<exists>v. r = Json_response 403 v) \<or>
    (\<exists>hp. px_contacted (snd (handle_http_forward send rq s)) = px_contacted s @ [hp] \<and>
      may_contact (case map_of (hr_headers rq) ''x-task-id'' of None \<Rightarrow> [] | Some t \<Rightarrow> t) (px_policies s) hp))"
proof -
  have err: "\<exists>m. e = ValueError m" if "forward_target u = Inl e" for u e
    using that by (auto simp: forward_target_def urlparse_def url_port_def Let_def split: sum.splits prod.splits if_splits)
  show ?thesis
    by (cases "forward_target (hr_url rq)")
      (auto simp: handle_http_forward_def comp_defs contact_def may_contact_def err split: sum.split prod.split)
qed


lemma update_policy_run:
  "host_names vs = Inr hosts \<Longrightarrow>
   \<exists>r. update_policy tid (Some (JObj [(''allow_egress_hosts'', JList vs)])) s =
     (Inr r, s\<lparr>px_policies := set_task_policy tid hosts (px_policies s)\<rparr>)"
  by (simp add: update_policy_def comp_defs)

text \<open>The management endpoint takes no credential, and a container can reach it at the address
  its proxy settings name: one request that names any task, its own included, puts any host on
  that task's white list, and the next CONNECT to it is let through unless it is a private
  address.\<close>

theorem anyone_can_widen_any_policy:
  assumes "broker_route ''POST'' path = Some (H_update_policy tid)" and "str_strip h \<noteq> []"
    and "connect_target target = (h, port)" and "\<not> is_private_host h"
  shows "\<exists>s'. snd (update_policy tid (Some (JObj [(''allow_egress_hosts'', JList [JStr h])])) s) = s' \<and>
    px_contacted (snd (handle_connect oc [(''x-task-id'', tid)] target s')) = px_contacted s @ [(h, port)]"
proof -
  obtain r where r: "update_policy tid (Some (JObj [(''allow_egress_hosts'', JList [JStr h])])) s =
      (Inr r, s\<lparr>px_policies := set_task_policy tid [h] (px_policies s)\<rparr>)"
    using update_policy_run [of "[JStr h]" "[h]" tid s] by auto
  have "is_allowed (Some tid) h (Some port) (set_task_policy tid [h] (px_policies s))"
    using assms(2) by (simp add: is_allowed_def set_task_policy_def normalize_hosts_def Let_def)
  then show ?thesis using r assms(3,4)
    by (simp add: handle_connect_def header_task_id_def Let_def comp_defs contact_def split: sum.split)
qed

theorem anyone_can_widen_witness:
  "px_contacted (snd (handle_connect (\<lambda>_ _. Inr ()) [(''x-task-id'', ''t'')] ''h:443''
     (snd (update_policy ''t'' (Some (JObj [(''allow_egress_hosts'', JList [JStr ''h''])]))
       \<lparr>px_policies = [], px_contacted = []\<rparr>)))) = [(''h'', 443)]"
proof -
  have r: "broker_route ''POST'' ''/broker/tasks/t/policy'' = Some (H_update_policy ''t'')"
    by (simp add: broker_route_def)
  have t: "connect_target ''h:443'' = (''h'', 443)"
    by (simp add: connect_target_def str_rsplit1_def str_split1_def str_contains_def py_int_def py_nat_def str_strip_def
        is_space_def is_digit_def read_digits_def digit_val_def)
  have p: "\<not> is_private_host ''h''"
    by (simp add: is_private_host_def BROKER_INTERNAL_HOSTS_def ip_address_def parse_ipv4_def parse_ipv6_def split_ip6_def
        str_contains_def)
  show ?thesis
    using anyone_can_widen_any_policy [OF r _ t p, of "\<lparr>px_policies = [], px_contacted = []\<rparr>" "\<lambda>_ _. Inr ()"]
    by (simp add: str_strip_def is_space_def)
qed

end
