(* ===== verification/Opencode_Client.thy ===== *)
theory Opencode_Client
  imports Driver
begin

text \<open>
  The HTTP client of the opencode server in a task's container,
  \<open>src/worker/adapters/opencode/client.py\<close>: each request with its body, the treatment of the answers,
  and the lines of the event stream. The server and the HTTP library are a parameter: a request is a
  computation on the worker's state, during which the rest of the process runs, that raises or
  answers. \<open>opencode_client\<close> is the client the driver is run with.
\<close>

text \<open>What the constructor hands to \<open>httpx.AsyncClient\<close>: reading has no timeout.\<close>

record oc_config =
  og_base_url :: string
  og_username :: string
  og_password :: string
  og_timeout :: real
  og_read_timeout :: "real option"

definition new_opencode_client :: "string \<Rightarrow> int \<Rightarrow> string \<Rightarrow> real \<Rightarrow> oc_config" where
  "new_opencode_client host port password timeout =
     \<lparr>og_base_url = ''http://'' @ host @ '':'' @ show_int port, og_username = ''opencode'', og_password = password,
      og_timeout = timeout, og_read_timeout = None\<rparr>"

record oc_request =
  oq_method :: string
  oq_path :: string
  oq_body :: "json option"

record oc_env =
  oc_http :: "oc_request \<Rightarrow> (nat \<times> json_text) io"
  oc_close :: "unit io"
  oc_loads :: "string \<Rightarrow> json option"

definition http_status_error :: "nat \<Rightarrow> exn" where
  "http_status_error code = OtherError ''HTTPStatusError'' (show_nat code)"

text \<open>A request followed by \<open>raise_for_status\<close>, which accepts the 2xx only; the answer's body.\<close>

definition oc_call :: "oc_env \<Rightarrow> string \<Rightarrow> string \<Rightarrow> json option \<Rightarrow> json_text io" where
  "oc_call env meth path body =
     bindE (oc_http env \<lparr>oq_method = meth, oq_path = path, oq_body = body\<rparr>) (\<lambda>(code, content).
     if 200 \<le> code \<and> code < 300 then retE content else raiseE (http_status_error code))"

definition oc_json :: "json_text \<Rightarrow> json io" where
  "oc_json t = (case json_loads t of None \<Rightarrow> raiseE (ValueError ''invalid JSON'') | Some v \<Rightarrow> retE v)"

definition session_path :: "string \<Rightarrow> string \<Rightarrow> string" where
  "session_path sid rest = ''/session/'' @ sid @ rest"

definition create_session :: "oc_env \<Rightarrow> json io" where
  "create_session env = bindE (oc_call env ''POST'' ''/session'' (Some (JObj []))) oc_json"

definition get_session :: "oc_env \<Rightarrow> string \<Rightarrow> json io" where
  "get_session env sid = bindE (oc_call env ''GET'' (session_path sid []) None) oc_json"

definition swallow_io :: "exn \<Rightarrow> unit io" where
  "swallow_io e = (if is_Exception e then retE () else raiseE e)"

definition delete_session :: "oc_env \<Rightarrow> string \<Rightarrow> unit io" where
  "delete_session env sid =
     tryE (bindE (oc_call env ''DELETE'' (session_path sid []) None) (\<lambda>_. retE ())) swallow_io"

definition abort_session :: "oc_env \<Rightarrow> string \<Rightarrow> unit io" where
  "abort_session env sid =
     tryE (bindE (oc_call env ''POST'' (session_path sid ''/abort'') (Some (JObj []))) (\<lambda>_. retE ())) swallow_io"

definition send_message :: "oc_env \<Rightarrow> string \<Rightarrow> json \<Rightarrow> bool \<Rightarrow> json io" where
  "send_message env sid parts no_reply =
     bindE (oc_call env ''POST'' (session_path sid ''/message'')
       (Some (JObj ((''parts'', parts) # (if no_reply then [(''noReply'', JBool True)] else []))))) oc_json"

text \<open>A model \<open>provider/model\<close> is split at its first slash.\<close>

definition model_body :: "string \<Rightarrow> json" where
  "model_body m =
     (if str_contains CHR ''/'' m
      then (case str_split1 CHR ''/'' m of (p, r) \<Rightarrow> JObj [(''providerID'', JStr p), (''modelID'', JStr r)])
      else JObj [(''modelID'', JStr m)])"

definition prompt_body :: "json \<Rightarrow> string option \<Rightarrow> string option \<Rightarrow> json" where
  "prompt_body parts agent model =
     JObj ([(''parts'', parts)] @
       (case agent of None \<Rightarrow> [] | Some a \<Rightarrow> if a = [] then [] else [(''agent'', JStr a)]) @
       (case model of None \<Rightarrow> [] | Some m \<Rightarrow> if m = [] then [] else [(''model'', model_body m)]))"

definition prompt_async :: "oc_env \<Rightarrow> string \<Rightarrow> json \<Rightarrow> string option \<Rightarrow> string option \<Rightarrow> unit io" where
  "prompt_async env sid parts agent model =
     bindE (oc_call env ''POST'' (session_path sid ''/prompt_async'') (Some (prompt_body parts agent model))) (\<lambda>_. retE ())"

definition VALID_RESPONSES :: "string list" where
  "VALID_RESPONSES = [''once'', ''always'', ''reject'']"

definition respond_permission :: "oc_env \<Rightarrow> string \<Rightarrow> string \<Rightarrow> string \<Rightarrow> unit io" where
  "respond_permission env sid pid response =
     (if response \<notin> set VALID_RESPONSES then raiseE (ValueError (''Invalid permission response: '' @ response))
      else bindE (oc_call env ''POST'' (session_path sid (''/permissions/'' @ pid))
             (Some (JObj [(''response'', JStr response)]))) (\<lambda>_. retE ()))"

definition json_list_or_empty :: "json \<Rightarrow> json list" where
  "json_list_or_empty v = (case v of JList xs \<Rightarrow> xs | _ \<Rightarrow> [])"

definition get_diff :: "oc_env \<Rightarrow> string \<Rightarrow> json list io" where
  "get_diff env sid =
     bindE (oc_call env ''GET'' (session_path sid ''/diff'') None) (\<lambda>t. bindE (oc_json t) (\<lambda>v. retE (json_list_or_empty v)))"

definition get_messages :: "oc_env \<Rightarrow> string \<Rightarrow> json list io" where
  "get_messages env sid =
     bindE (oc_call env ''GET'' (session_path sid ''/message'') None) (\<lambda>t. bindE (oc_json t) (\<lambda>v. retE (json_list_or_empty v)))"

section \<open>The event stream\<close>

text \<open>The event of a decoded line: \<open>{"payload": {"type": t, "properties": p}}\<close> becomes
  \<open>{"type": t, "payload": p}\<close>. \<open>"type" not in outer\<close> is also asked of a list and of a string, and
  raises for the other values that are no dictionary.\<close>

definition unwrap_event :: "json \<Rightarrow> exn + json" where
  "unwrap_event v =
     (case v of
        JObj d \<Rightarrow>
          (case (map_of d ''type'', map_of d ''payload'') of
             (None, Some (JObj inner)) \<Rightarrow>
               Inr (JObj [(''type'', dict_get inner ''type'' (JStr [])), (''payload'', dict_get inner ''properties'' (JObj []))])
           | _ \<Rightarrow> Inr v)
      | JList xs \<Rightarrow> if JStr ''type'' \<in> set xs then Inr v else Inl (AttributeError ''list object has no attribute get'')
      | JStr s \<Rightarrow> if sublist ''type'' s then Inr v else Inl (AttributeError ''str object has no attribute get'')
      | _ \<Rightarrow> Inl (TypeError ''argument is not iterable''))"

text \<open>One line of the stream: nothing, an event, or an exception that ends it.\<close>

definition stream_line :: "(string \<Rightarrow> json option) \<Rightarrow> string \<Rightarrow> (exn + json) option" where
  "stream_line loads line =
     (if \<not> starts_with ''data:'' line then None
      else let raw = str_strip (drop 5 line) in
        if raw = [] \<or> raw = ''[DONE]'' then None
        else (case loads raw of None \<Rightarrow> None | Some v \<Rightarrow> Some (unwrap_event v)))"

text \<open>The stream as the driver reads it, with the exception that breaks the connection at its end.\<close>

fun stream_lines :: "(string \<Rightarrow> json option) \<Rightarrow> string list \<Rightarrow> exn option \<Rightarrow> (exn + json) list" where
  "stream_lines loads [] broken = (case broken of None \<Rightarrow> [] | Some e \<Rightarrow> [Inl e])"
| "stream_lines loads (l # ls) broken =
     (case stream_line loads l of
        None \<Rightarrow> stream_lines loads ls broken
      | Some (Inl e) \<Rightarrow> [Inl e]
      | Some (Inr ev) \<Rightarrow> Inr ev # stream_lines loads ls broken)"

definition opencode_stream :: "oc_env \<Rightarrow> nat \<Rightarrow> string list \<Rightarrow> exn option \<Rightarrow> (exn + json) list" where
  "opencode_stream env code ls broken =
     (if 200 \<le> code \<and> code < 300 then stream_lines (oc_loads env) ls broken else [Inl (http_status_error code)])"

section \<open>The driver's client\<close>

text \<open>The driver reads \<open>session_data.get("id")\<close>: a session that is no dictionary is an
  \<open>AttributeError\<close> there, raised here already.\<close>

definition opencode_client :: "oc_env \<Rightarrow> client_api" where
  "opencode_client env =
     \<lparr>cl_create_session = bindE (create_session env) (\<lambda>v.
        case v of JObj d \<Rightarrow> retE d | _ \<Rightarrow> raiseE (AttributeError ''object has no attribute get'')),
      cl_send_message = (\<lambda>sid parts. bindE (send_message env sid parts True) (\<lambda>_. retE ())),
      cl_prompt_async = (\<lambda>sid parts agent model. prompt_async env sid parts (Some agent) (Some model)),
      cl_abort_session = abort_session env,
      cl_delete_session = delete_session env,
      cl_respond_permission = respond_permission env,
      cl_get_diff = get_diff env,
      cl_get_messages = get_messages env,
      cl_aclose = oc_close env\<rparr>"

lemma delete_session_quiet:
  assumes "raises is_Exception (oc_http env \<lparr>oq_method = ''DELETE'', oq_path = session_path sid [], oq_body = None\<rparr>)"
  shows "quiet (delete_session env sid)"
proof -
  have "raises is_Exception (bindE (oc_call env ''DELETE'' (session_path sid []) None) (\<lambda>_. retE ()))"
    unfolding oc_call_def http_status_error_def
    by (intro raises_intros assms) (auto intro!: raises_ret raises_raise split: prod.split)
  then show ?thesis
    by (auto simp: quiet_def delete_session_def tryE_def swallow_io_def retE_def dest: raisesD
        split: prod.splits sum.splits)
qed

text \<open>The driver answers \<open>once\<close> or \<open>reject\<close>, so the client's own check never refuses it.\<close>

lemma permission_answers_are_valid: "yields (\<lambda>a. a \<in> set VALID_RESPONSES) (settle_permission dc did pid resolved)"
  unfolding settle_permission_def settle_choice_def settle_timeout_def Let_def VALID_RESPONSES_def
  by (cases "resolve_hitl_timeout_policy dc")
    (auto intro!: yields_then yields_bind yields_ret split: option.splits)

text \<open>The client without the check of \<open>respond_permission\<close>.\<close>

definition unchecked_client :: "oc_env \<Rightarrow> client_api" where
  "unchecked_client env = (opencode_client env)\<lparr>cl_respond_permission := \<lambda>sid pid response.
     bindE (oc_call env ''POST'' (session_path sid (''/permissions/'' @ pid)) (Some (JObj [(''response'', JStr response)])))
       (\<lambda>_. retE ())\<rparr>"

text \<open>What does not use the client.\<close>

lemma without_client:
  "log_event (dc\<lparr>dc_client := c\<rparr>) = log_event dc"
  "dispatch_to_interceptors (dc\<lparr>dc_client := c\<rparr>) = dispatch_to_interceptors dc"
  "resolve_hitl_timeout_policy (dc\<lparr>dc_client := c\<rparr>) = resolve_hitl_timeout_policy dc"
  by (simp_all add: log_event_def [abs_def] dispatch_to_interceptors_def [abs_def] resolve_hitl_timeout_policy_def
      cong: if_cong)

text \<open>Whatever a human or a timeout decides, the answer the driver gives opencode is one that the
  client's check of \<open>respond_permission\<close> lets pass: a permission is handled as by a client without
  the check.\<close>

theorem permission_answers_pass_the_check:
  "finish_permission (dc\<lparr>dc_client := opencode_client env\<rparr>) sid pid did resolved =
   finish_permission (dc\<lparr>dc_client := unchecked_client env\<rparr>) sid pid did resolved"
proof -
  have same: "settle_permission (dc\<lparr>dc_client := c\<rparr>) did pid resolved = settle_permission dc did pid resolved" for c
    by (simp add: settle_permission_def settle_choice_def settle_timeout_def without_client split: option.splits)
  have cl: "cl_respond_permission (opencode_client env) sid pid a = cl_respond_permission (unchecked_client env) sid pid a"
    if "a \<in> set VALID_RESPONSES" for a
    using that by (simp add: opencode_client_def unchecked_client_def respond_permission_def)
  have reply: "reply_permission (dc\<lparr>dc_client := opencode_client env\<rparr>) sid pid did a =
      reply_permission (dc\<lparr>dc_client := unchecked_client env\<rparr>) sid pid did a" if "a \<in> set VALID_RESPONSES" for a
    by (simp add: reply_permission_def without_client cl [OF that])
  have resume: "resume_task (dc\<lparr>dc_client := c\<rparr>) = resume_task dc" for c
    by (simp add: resume_task_def set_status_def)
  show ?thesis
    unfolding finish_permission_def same resume
    by (rule bindE_cong [OF permission_answers_are_valid]) (simp add: reply)
qed

end
