(* ===== verification/Sdk_Base.thy ===== *)
theory Sdk_Base
  imports Py_Json
begin

text \<open>
  The parts of the Python SDK that need no network: its errors (\<open>src/worker_sdk/errors.py\<close>), its
  models (\<open>models.py\<close>), the request headers (\<open>auth.py\<close>), the compatibility matrix (\<open>compat.py\<close>)
  and the retry policy (\<open>retry.py\<close>).
\<close>

section \<open>Models\<close>

record worker_task_handle =
  wh_task_id :: json
  wh_status :: json

record worker_event =
  we_cursor :: int
  we_kind :: string
  we_payload :: "(string \<times> json) list"

record worker_terminal_result =
  wt_task_id :: string
  wt_final_status :: string
  wt_terminal_event :: "worker_event option"
  wt_snapshot :: json

record worker_artifact_ref =
  wa_artifact_id :: json
  wa_task_id :: json
  wa_type :: string
  wa_filename :: json
  wa_size :: json
  wa_created_at :: real
  wa_expires_at :: json
  wa_download_url :: json
  wa_metadata :: json

section \<open>Errors\<close>

datatype http_error_class = HE_unauthorized | HE_not_found | HE_conflict | HE_server | HE_http

datatype terminal_class = TE_failed | TE_aborted | TE_timed_out

text \<open>The SDK's exceptions with their fields, and the builtin ones its code raises. A
  \<open>WorkerHTTPError\<close> has the status, the body and the value its message prints; a
  \<open>WorkerCompatibilityError\<close> the version its message prints; a \<open>WorkerTaskTerminalError\<close> the
  task, its final status, the terminal event and the snapshot.\<close>

datatype sdk_error =
    SE_client string
  | SE_transport string
  | SE_http http_error_class nat json json
  | SE_compatibility string
  | SE_sse string
  | SE_terminal terminal_class string string "worker_event option" json
  | SE_value string
  | SE_key string
  | SE_type string
  | SE_attribute string
  | SE_file_exists string
  | SE_os string

definition terminal_error_for :: "string \<Rightarrow> terminal_class option" where
  "terminal_error_for s = map_of [(''failed'', TE_failed), (''aborted'', TE_aborted), (''timed_out'', TE_timed_out)] s"

definition http_error_for :: "nat \<Rightarrow> http_error_class" where
  "http_error_for code =
     (if code = 401 then HE_unauthorized else if code = 404 then HE_not_found
      else if code = 409 then HE_conflict else if 500 \<le> code \<and> code < 600 then HE_server else HE_http)"

section \<open>Headers\<close>

definition bearer_headers :: "string \<Rightarrow> (string \<times> string) list" where
  "bearer_headers token = [(''Authorization'', ''Bearer '' @ token), (''Content-Type'', ''application/json''),
     (''Accept'', ''application/json'')]"

definition bearer_sse_headers :: "string \<Rightarrow> int option \<Rightarrow> (string \<times> string) list" where
  "bearer_sse_headers token last_id =
     [(''Authorization'', ''Bearer '' @ token), (''Accept'', ''text/event-stream''), (''Cache-Control'', ''no-cache'')] @
     (case last_id of None \<Rightarrow> [] | Some n \<Rightarrow> [(''Last-Event-ID'', show_int n)])"

section \<open>Compatibility\<close>

definition SUPPORTED_MAJOR_MINOR :: "(int \<times> int) list" where
  "SUPPORTED_MAJOR_MINOR = [(0, 1)]"

definition parse_major_minor :: "string \<Rightarrow> (int \<times> int) option" where
  "parse_major_minor version =
     (if version = [] then None
      else (case str_split CHR ''.'' version of
              a # b # _ \<Rightarrow> (case (py_int a, py_int b) of (Some m, Some n) \<Rightarrow> Some (m, n) | _ \<Rightarrow> None)
            | _ \<Rightarrow> None))"

definition is_compatible :: "string \<Rightarrow> bool" where
  "is_compatible version =
     (case parse_major_minor version of None \<Rightarrow> False | Some p \<Rightarrow> p \<in> set SUPPORTED_MAJOR_MINOR)"

definition supported_matrix_str :: string where
  "supported_matrix_str = ''Worker '' @
     str_join '', '' (map (\<lambda>(a, b). show_int a @ ''.'' @ show_int b @ ''.x'') SUPPORTED_MAJOR_MINOR)"

section \<open>The retry policy\<close>

record retry_policy =
  rp_max_attempts :: int
  rp_initial_backoff :: real
  rp_max_backoff :: real
  rp_multiplier :: real
  rp_jitter :: real
  rp_retry_on_5xx :: bool
  rp_retry_on_transport :: bool
  rp_respect_retry_after :: bool

definition policy_ok :: "retry_policy \<Rightarrow> bool" where
  "policy_ok p \<longleftrightarrow> 1 \<le> rp_max_attempts p \<and> 0 \<le> rp_initial_backoff p \<and> rp_initial_backoff p \<le> rp_max_backoff p \<and>
     1 \<le> rp_multiplier p \<and> 0 \<le> rp_jitter p \<and> rp_jitter p \<le> 1"

definition make_policy :: "retry_policy \<Rightarrow> sdk_error + retry_policy" where
  "make_policy p =
     (if rp_max_attempts p < 1 then Inl (SE_value ''max_attempts must be >= 1'')
      else if rp_initial_backoff p < 0 then Inl (SE_value ''initial_backoff_sec must be >= 0'')
      else if rp_max_backoff p < rp_initial_backoff p then Inl (SE_value ''max_backoff_sec must be >= initial_backoff_sec'')
      else if rp_multiplier p < 1 then Inl (SE_value ''backoff_multiplier must be >= 1'')
      else if \<not> (0 \<le> rp_jitter p \<and> rp_jitter p \<le> 1) then Inl (SE_value ''jitter_ratio must be within [0, 1]'')
      else Inr p)"

definition default_policy :: retry_policy where
  "default_policy = \<lparr>rp_max_attempts = 3, rp_initial_backoff = 1/2, rp_max_backoff = 8, rp_multiplier = 2,
     rp_jitter = 1/4, rp_retry_on_5xx = True, rp_retry_on_transport = True, rp_respect_retry_after = True\<rparr>"

definition disabled_policy :: retry_policy where
  "disabled_policy = default_policy\<lparr>rp_max_attempts := 1\<rparr>"

text \<open>\<open>u\<close> in the unit interval is the random number \<open>uniform\<close> draws.\<close>

definition backoff_for_attempt :: "retry_policy \<Rightarrow> nat \<Rightarrow> real \<Rightarrow> sdk_error + real" where
  "backoff_for_attempt p attempt u =
     (if attempt < 1 then Inl (SE_value ''attempt must be >= 1'')
      else let capped = min (rp_initial_backoff p * rp_multiplier p ^ (attempt - 1)) (rp_max_backoff p) in
        if rp_jitter p = 0 then Inr capped
        else let lo = capped * (1 - rp_jitter p); hi = capped * (1 + rp_jitter p) in Inr (lo + (hi - lo) * u))"

definition parse_retry_after :: "string option \<Rightarrow> real option" where
  "parse_retry_after h =
     (case h of None \<Rightarrow> None
      | Some v \<Rightarrow>
          if v = [] then None
          else (case py_float (str_strip v) of None \<Rightarrow> None | Some d \<Rightarrow> if d < 0 then None else Some d))"

lemma make_policy_iff: "make_policy p = Inr q \<longleftrightarrow> q = p \<and> policy_ok p"
  by (auto simp: make_policy_def policy_ok_def)

text \<open>A draw from an interval around \<open>c\<close>.\<close>

lemma jitter_bounds:
  fixes c j u :: real
  assumes "0 \<le> c" and "0 \<le> j" and "j \<le> 1" and "0 \<le> u" and "u \<le> 1"
  shows "c * (1 - j) \<le> c * (1 - j) + (c * (1 + j) - c * (1 - j)) * u"
    and "c * (1 - j) + (c * (1 + j) - c * (1 - j)) * u \<le> c * (1 + j)"
proof -
  have w: "0 \<le> c * (1 + j) - c * (1 - j)" using assms(1,2) by (simp add: algebra_simps)
  then show "c * (1 - j) \<le> c * (1 - j) + (c * (1 + j) - c * (1 - j)) * u" using assms(4) by simp
  have "(c * (1 + j) - c * (1 - j)) * u \<le> (c * (1 + j) - c * (1 - j)) * 1"
    using w assms(5) by (rule mult_left_mono [rotated])
  then show "c * (1 - j) + (c * (1 + j) - c * (1 - j)) * u \<le> c * (1 + j)" by simp
qed

lemma capped_bounds:
  assumes "policy_ok p"
  shows "rp_initial_backoff p \<le> min (rp_initial_backoff p * rp_multiplier p ^ n) (rp_max_backoff p)"
    and "min (rp_initial_backoff p * rp_multiplier p ^ n) (rp_max_backoff p) \<le> rp_max_backoff p"
proof -
  have "rp_initial_backoff p * 1 \<le> rp_initial_backoff p * rp_multiplier p ^ n"
    using assms by (intro mult_left_mono one_le_power) (simp_all add: policy_ok_def)
  then show "rp_initial_backoff p \<le> min (rp_initial_backoff p * rp_multiplier p ^ n) (rp_max_backoff p)"
    using assms by (simp add: policy_ok_def)
qed simp

lemma backoff_bounds:
  assumes "policy_ok p" and "0 \<le> u" and "u \<le> 1" and "1 \<le> attempt"
  shows "\<exists>d. backoff_for_attempt p attempt u = Inr d \<and> rp_initial_backoff p * (1 - rp_jitter p) \<le> d \<and>
    d \<le> rp_max_backoff p * (1 + rp_jitter p)"
proof -
  define c where "c = min (rp_initial_backoff p * rp_multiplier p ^ (attempt - 1)) (rp_max_backoff p)"
  define j where "j = rp_jitter p"
  have jj: "0 \<le> j" "j \<le> 1" and i0: "0 \<le> rp_initial_backoff p" using assms(1) by (simp_all add: policy_ok_def j_def)
  have c: "rp_initial_backoff p \<le> c" "c \<le> rp_max_backoff p"
    using capped_bounds [OF assms(1), of "attempt - 1"] by (simp_all add: c_def)
  have c0: "0 \<le> c" using c(1) i0 by linarith
  have up: "c * (1 + j) \<le> rp_max_backoff p * (1 + j)" using c(2) jj by (intro mult_right_mono) simp_all
  have low: "rp_initial_backoff p * (1 - j) \<le> c * (1 - j)" using c(1) jj by (intro mult_right_mono) simp_all
  have run: "backoff_for_attempt p attempt u =
      Inr (if j = 0 then c else c * (1 - j) + (c * (1 + j) - c * (1 - j)) * u)"
    using assms(4) by (simp add: backoff_for_attempt_def c_def j_def Let_def)
  show ?thesis
  proof (cases "j = 0")
    case True
    then show ?thesis using run c by (simp add: j_def)
  next
    case False
    then show ?thesis using run up low jitter_bounds [OF c0 jj assms(2,3)] by (fold j_def) (auto intro: order_trans)
  qed
qed

end
