(* ===== verification/Sdk_Sse.thy ===== *)
theory Sdk_Sse
  imports Sdk_Base
begin

text \<open>
  The event stream of the SDK, \<open>src/worker_sdk/sse.py\<close>: reading one server-sent event and the
  iterator that reconnects. The HTTP library is a parameter: what the k-th connection with a given
  \<open>Last-Event-ID\<close> meets, an error, a status, or the events the library decodes and how they end.
  The iterator's result is the list of events it yields to a caller that keeps asking, and the
  exception that ends it, if any; the half second of waiting between two connections is left out.
\<close>

section \<open>One connection\<close>

definition SDK_TERMINAL_KINDS :: "string list" where
  "SDK_TERMINAL_KINDS = [''task_completed'', ''task_failed'', ''task_aborted'', ''task_timed_out'']"

definition HEARTBEAT_KIND :: string where "HEARTBEAT_KIND = ''heartbeat''"

text \<open>The empty data is \<open>NotJson []\<close>.\<close>

record server_sent_event =
  ss_id :: string
  ss_event :: string
  ss_data :: json_text

datatype http_stream =
    Http_error string
  | Http_status nat string
  | Http_events "server_sent_event list" "string option"

text \<open>\<open>open_sse_stream\<close>: a refused handshake comes with its status and the printed form of the first
  1024 bytes of its body; otherwise the decoded events and the transport error that breaks the stream.\<close>

definition open_sse_stream :: "http_stream \<Rightarrow> sdk_error + server_sent_event list \<times> sdk_error option" where
  "open_sse_stream r =
     (case r of
        Http_error m \<Rightarrow> Inl (SE_transport (''SSE transport error: '' @ m))
      | Http_status code snippet \<Rightarrow>
          Inl (SE_sse (''SSE handshake failed: status='' @ show_nat code @ '' body='' @ snippet))
      | Http_events evs broken \<Rightarrow> Inr (evs, map_option (\<lambda>m. SE_transport (''SSE transport error: '' @ m)) broken))"

definition sse_payload :: "json_text \<Rightarrow> (string \<times> json) list" where
  "sse_payload t =
     (case t of
        JText (JObj d) \<Rightarrow> d
      | JText v \<Rightarrow> [(''_value'', v)]
      | NotJson raw \<Rightarrow> if raw = [] then [] else [(''_raw'', JStr raw)])"

definition parse_sse_event :: "server_sent_event \<Rightarrow> worker_event option" where
  "parse_sse_event sse =
     (if ss_id sse = [] then None
      else (case py_int (ss_id sse) of
              None \<Rightarrow> None
            | Some cursor \<Rightarrow>
                Some \<lparr>we_cursor = cursor, we_kind = (if ss_event sse = [] then ''message'' else ss_event sse),
                  we_payload = sse_payload (ss_data sse)\<rparr>))"

definition is_terminal_kind :: "worker_event \<Rightarrow> bool" where
  "is_terminal_kind ev \<longleftrightarrow> we_kind ev \<in> set SDK_TERMINAL_KINDS"

text \<open>The inner loop: what is yielded, the last cursor, whether a terminal event was seen.\<close>

fun consume :: "bool \<Rightarrow> int option \<Rightarrow> server_sent_event list \<Rightarrow> worker_event list \<times> int option \<times> bool" where
  "consume hb pos [] = ([], pos, False)"
| "consume hb pos (x # xs) =
     (case parse_sse_event x of
        None \<Rightarrow> consume hb pos xs
      | Some ev \<Rightarrow>
          if we_kind ev = HEARTBEAT_KIND \<and> \<not> hb then consume hb (Some (we_cursor ev)) xs
          else if is_terminal_kind ev then ([ev], Some (we_cursor ev), True)
          else (case consume hb (Some (we_cursor ev)) xs of (evs, c, t) \<Rightarrow> (ev # evs, c, t)))"

section \<open>Reconnecting\<close>

text \<open>One turn of the outer loop: the events yielded, the cursor after it, and how it ends: the
  generator returns, or an exception reaches the handler.\<close>

definition turn :: "http_stream \<Rightarrow> bool \<Rightarrow> bool \<Rightarrow> int option \<Rightarrow> worker_event list \<times> int option \<times> sdk_error option" where
  "turn r hb auto pos =
     (case open_sse_stream r of
        Inl e \<Rightarrow> ([], pos, Some e)
      | Inr (xs, broken) \<Rightarrow>
          (case consume hb pos xs of
             (evs, c, True) \<Rightarrow> (evs, c, None)
           | (evs, c, False) \<Rightarrow>
               (case broken of
                  Some e \<Rightarrow> (evs, c, Some e)
                | None \<Rightarrow> (evs, c, if auto then Some (SE_transport ''SSE stream closed before terminal event'') else None))))"

text \<open>\<open>str(exc)\<close> of a \<open>WorkerTransportError\<close>, the only one whose text the handler uses.\<close>

definition error_text :: "sdk_error \<Rightarrow> string" where
  "error_text e = (case e of SE_transport m \<Rightarrow> m | _ \<Rightarrow> [])"

definition is_transport :: "sdk_error \<Rightarrow> bool" where
  "is_transport e = (case e of SE_transport _ \<Rightarrow> True | _ \<Rightarrow> False)"

function stream_events_with_reconnect ::
    "(nat \<Rightarrow> int option \<Rightarrow> http_stream) \<Rightarrow> bool \<Rightarrow> bool \<Rightarrow> int \<Rightarrow> nat \<Rightarrow> int option \<Rightarrow>
     worker_event list \<times> sdk_error option" where
  "stream_events_with_reconnect connect hb auto max_attempts attempts pos =
     (case turn (connect attempts pos) hb auto pos of
        (evs, c, None) \<Rightarrow> (evs, None)
      | (evs, c, Some e) \<Rightarrow>
          if \<not> is_transport e \<or> \<not> auto then (evs, Some e)
          else if max_attempts < int (Suc attempts)
          then (evs, Some (SE_sse (''SSE reconnect attempts exhausted ('' @ show_int max_attempts @ ''): '' @ error_text e)))
          else (case stream_events_with_reconnect connect hb auto max_attempts (Suc attempts) c of
                  (later, r) \<Rightarrow> (evs @ later, r)))"
  by pat_completeness auto
termination
  by (relation "measure (\<lambda>(connect, hb, auto, max_attempts, attempts, pos). nat (max_attempts - int attempts))") auto

declare stream_events_with_reconnect.simps [simp del]

section \<open>Exactly once\<close>

text \<open>The events of a log after a cursor, as the server sends them: \<open>None\<close> asks for all.\<close>

definition after_cursor :: "int option \<Rightarrow> worker_event list \<Rightarrow> worker_event list" where
  "after_cursor c L = (case c of None \<Rightarrow> L | Some n \<Rightarrow> filter (\<lambda>e. n < we_cursor e) L)"

definition frame_of :: "worker_event \<Rightarrow> server_sent_event" where
  "frame_of e = \<lparr>ss_id = show_int (we_cursor e), ss_event = we_kind e, ss_data = JText (JObj (we_payload e))\<rparr>"

text \<open>What a connection may carry of the events \<open>rest\<close>: some of them, in order and from the first
  on, and heartbeats between them, whose id is empty or, as the library keeps it, that of the
  event before.\<close>

fun honest :: "worker_event list \<Rightarrow> string \<Rightarrow> server_sent_event list \<Rightarrow> bool" where
  "honest rest ident [] = True"
| "honest rest ident (x # xs) =
     (if ss_event x = HEARTBEAT_KIND then ss_id x \<in> {[], ident} \<and> honest rest ident xs
      else (case rest of [] \<Rightarrow> False | e # rest' \<Rightarrow> x = frame_of e \<and> honest rest' (show_int (we_cursor e)) xs))"

definition serves :: "worker_event list \<Rightarrow> http_stream \<Rightarrow> bool" where
  "serves rest r = (case r of Http_events xs broken \<Rightarrow> honest rest [] xs | _ \<Rightarrow> True)"

definition log_wf :: "worker_event list \<Rightarrow> bool" where
  "log_wf L \<longleftrightarrow> sorted_wrt (<) (map we_cursor L) \<and> (\<forall>e \<in> set L. we_kind e \<noteq> HEARTBEAT_KIND \<and> we_kind e \<noteq> [])"

lemma parse_frame_of [simp]: "we_kind e \<noteq> [] \<Longrightarrow> parse_sse_event (frame_of e) = Some e"
proof -
  assume k: "we_kind e \<noteq> []"
  have "show_int (we_cursor e) \<noteq> []" by (simp add: show_int_def)
  then show ?thesis using k by (simp add: parse_sse_event_def frame_of_def py_int_show_int sse_payload_def)
qed

text \<open>The cursor that stands for having read the first events \<open>pre\<close> after \<open>pos\<close>.\<close>

definition cursor_after :: "int option \<Rightarrow> worker_event list \<Rightarrow> int option" where
  "cursor_after pos pre = (if pre = [] then pos else Some (we_cursor (last pre)))"

lemma consume_honest:
  assumes "honest rest ident xs" and "\<forall>e \<in> set rest. we_kind e \<noteq> HEARTBEAT_KIND \<and> we_kind e \<noteq> []"
    and "ident \<noteq> [] \<Longrightarrow> py_int ident = pos"
  shows "\<exists>pre t. consume False pos xs = (pre, cursor_after pos pre, t) \<and> prefix pre rest \<and>
    (if t then pre \<noteq> [] \<and> is_terminal_kind (last pre) \<and> list_all (\<lambda>e. \<not> is_terminal_kind e) (butlast pre)
     else list_all (\<lambda>e. \<not> is_terminal_kind e) pre)"
  using assms
proof (induction xs arbitrary: rest ident pos)
  case Nil
  then show ?case by (intro exI [of _ "[]"] exI [of _ False]) (simp add: cursor_after_def)
next
  case (Cons x xs)
  show ?case
  proof (cases "ss_event x = HEARTBEAT_KIND")
    case True
    have skip: "consume False pos (x # xs) = consume False pos xs"
    proof (cases "parse_sse_event x")
      case (Some ev)
      then have "ss_id x = ident" "ident \<noteq> []" "we_kind ev = HEARTBEAT_KIND" "Some (we_cursor ev) = py_int (ss_id x)"
        using Cons.prems(1) True by (auto simp: parse_sse_event_def HEARTBEAT_KIND_def split: if_splits option.splits)
      then show ?thesis using Some Cons.prems(3) by simp
    qed simp
    then show ?thesis using Cons.IH [of rest ident pos] Cons.prems True by simp
  next
    case False
    then obtain e rest' where e: "rest = e # rest'" "x = frame_of e" "honest rest' (show_int (we_cursor e)) xs"
      using Cons.prems(1) by (auto split: list.splits)
    have k: "we_kind e \<noteq> []" "we_kind e \<noteq> HEARTBEAT_KIND" using Cons.prems(2) e(1) by simp_all
    show ?thesis
    proof (cases "is_terminal_kind e")
      case True
      then show ?thesis using e k
        by (intro exI [of _ "[e]"] exI [of _ True]) (simp add: cursor_after_def)
    next
      case nt: False
      obtain pre t where IH: "consume False (Some (we_cursor e)) xs = (pre, cursor_after (Some (we_cursor e)) pre, t)"
        "prefix pre rest'"
        "if t then pre \<noteq> [] \<and> is_terminal_kind (last pre) \<and> list_all (\<lambda>e. \<not> is_terminal_kind e) (butlast pre)
         else list_all (\<lambda>e. \<not> is_terminal_kind e) pre"
        using Cons.IH [of rest' "show_int (we_cursor e)" "Some (we_cursor e)"] e Cons.prems(2)
        by (auto simp: py_int_show_int)
      show ?thesis using IH e(1,2) k nt
        by (intro exI [of _ "e # pre"] exI [of _ t]) (auto simp: cursor_after_def)
    qed
  qed
qed

lemma after_cursor_prefix:
  assumes "log_wf L" and pre: "prefix pre (after_cursor c L)"
  shows "after_cursor (cursor_after c pre) L = drop (length pre) (after_cursor c L)"
proof (cases "pre = []")
  case True
  then show ?thesis by (simp add: cursor_after_def)
next
  case False
  let ?R = "after_cursor c L" and ?m = "we_cursor (last pre)"
  obtain s where R: "?R = pre @ s" using pre by (auto simp: prefix_def)
  have sorted: "sorted_wrt (<) (map we_cursor ?R)"
    using assms(1) by (cases c) (simp_all add: after_cursor_def log_wf_def sorted_wrt_map sorted_wrt_filter)
  have ps: "sorted_wrt (<) (map we_cursor pre)" and between: "\<forall>a \<in> set pre. \<forall>b \<in> set s. we_cursor a < we_cursor b"
    using sorted by (simp_all add: R sorted_wrt_append)
  have low: "\<not> ?m < we_cursor a" if a: "a \<in> set pre" for a
  proof -
    obtain i where i: "i < length pre" "a = pre ! i" using a by (metis in_set_conv_nth)
    have l: "?m = map we_cursor pre ! (length pre - 1)" using False by (simp add: last_conv_nth)
    show ?thesis
    proof (cases "i = length pre - 1")
      case True
      then show ?thesis using i l False by simp
    next
      case ne: False
      then have "map we_cursor pre ! i < map we_cursor pre ! (length pre - 1)"
        using i by (intro sorted_wrt_nth_less [OF ps]) simp_all
      then show ?thesis using i l by simp
    qed
  qed
  have high: "?m < we_cursor b" if "b \<in> set s" for b using between that False by simp
  have "last pre \<in> set ?R" using False R by simp
  then have "filter (\<lambda>e. ?m < we_cursor e) L = filter (\<lambda>e. ?m < we_cursor e) ?R"
    by (cases c) (auto simp: after_cursor_def intro: filter_cong)
  also have "\<dots> = s" unfolding R using low high by simp
  finally show ?thesis using False R by (simp add: after_cursor_def cursor_after_def)
qed

lemma take_until_split:
  assumes "prefix pre R"
  shows "list_all (\<lambda>e. \<not> P e) pre \<Longrightarrow> take_until P R = pre @ take_until P (drop (length pre) R)"
    and "pre \<noteq> [] \<Longrightarrow> P (last pre) \<Longrightarrow> list_all (\<lambda>e. \<not> P e) (butlast pre) \<Longrightarrow> take_until P R = pre"
proof -
  obtain s where R: "R = pre @ s" using assms by (auto simp: prefix_def)
  show "list_all (\<lambda>e. \<not> P e) pre \<Longrightarrow> take_until P R = pre @ take_until P (drop (length pre) R)"
    by (auto simp: R take_until_append list_all_iff)
  assume a: "pre \<noteq> []" "P (last pre)" "list_all (\<lambda>e. \<not> P e) (butlast pre)"
  obtain q x where q: "pre = q @ [x]" using a(1) by (metis rev_exhaust)
  have "take_until P pre = pre" using a(2,3) by (auto simp: q take_until_append list_all_iff)
  then show "take_until P R = pre" using a(1,2) by (auto simp: R take_until_append)
qed

definition delivers :: "bool \<Rightarrow> worker_event list \<Rightarrow> worker_event list \<times> sdk_error option \<Rightarrow> bool" where
  "delivers auto R out \<longleftrightarrow> prefix (fst out) (take_until is_terminal_kind R) \<and>
     (auto \<longrightarrow> (case snd out of
        None \<Rightarrow> fst out = take_until is_terminal_kind R \<and> fst out \<noteq> [] \<and> is_terminal_kind (last (fst out))
      | Some e \<Rightarrow> \<exists>m. e = SE_sse m))"

lemma turn_honest:
  assumes "log_wf L" and "serves (after_cursor pos L) r"
  shows "\<exists>pre c e. turn r False auto pos = (pre, c, e) \<and> c = cursor_after pos pre \<and> prefix pre (after_cursor pos L) \<and>
    (if e = None \<and> auto then pre \<noteq> [] \<and> is_terminal_kind (last pre) \<and> pre = take_until is_terminal_kind (after_cursor pos L)
     else if e = None then prefix pre (take_until is_terminal_kind (after_cursor pos L))
     else list_all (\<lambda>e. \<not> is_terminal_kind e) pre \<and> (\<exists>m. e = Some (SE_transport m) \<or> e = Some (SE_sse m)))"
proof (cases r)
  case (Http_events xs broken)
  let ?R = "after_cursor pos L"
  have k: "\<forall>e \<in> set ?R. we_kind e \<noteq> HEARTBEAT_KIND \<and> we_kind e \<noteq> []"
    using assms(1) by (cases pos) (auto simp: log_wf_def after_cursor_def)
  obtain pre t where c: "consume False pos xs = (pre, cursor_after pos pre, t)" "prefix pre ?R"
    "if t then pre \<noteq> [] \<and> is_terminal_kind (last pre) \<and> list_all (\<lambda>e. \<not> is_terminal_kind e) (butlast pre)
     else list_all (\<lambda>e. \<not> is_terminal_kind e) pre"
    using consume_honest [of ?R "[]" xs pos] assms(2) k Http_events by (auto simp: serves_def)
  show ?thesis
  proof (cases t)
    case True
    then have "pre = take_until is_terminal_kind ?R" using take_until_split(2) [OF c(2)] c(3) by simp
    then show ?thesis using c True Http_events by (simp add: turn_def open_sse_stream_def)
  next
    case False
    then have "prefix pre (take_until is_terminal_kind ?R)"
      using take_until_split(1) [OF c(2), of is_terminal_kind] c(3) by simp
    then show ?thesis using c False Http_events
      by (cases broken) (simp_all add: turn_def open_sse_stream_def)
  qed
qed (simp_all add: turn_def open_sse_stream_def cursor_after_def)

lemma stream_delivers:
  assumes "log_wf L" and "\<And>k c. serves (after_cursor c L) (connect k c)" and "\<not> hb"
  shows "delivers auto (after_cursor pos L) (stream_events_with_reconnect connect hb auto max_attempts attempts pos)"
  using assms(2,3)
proof (induction connect hb auto max_attempts attempts pos rule: stream_events_with_reconnect.induct)
  case (1 connect hb auto max_attempts attempts pos)
  let ?R = "after_cursor pos L"
  obtain pre c e where t: "turn (connect attempts pos) hb auto pos = (pre, c, e)" "c = cursor_after pos pre" "prefix pre ?R"
    "if e = None \<and> auto then pre \<noteq> [] \<and> is_terminal_kind (last pre) \<and> pre = take_until is_terminal_kind ?R
     else if e = None then prefix pre (take_until is_terminal_kind ?R)
     else list_all (\<lambda>e. \<not> is_terminal_kind e) pre \<and> (\<exists>m. e = Some (SE_transport m) \<or> e = Some (SE_sse m))"
    using turn_honest [OF assms(1), of pos "connect attempts pos" auto] "1.prems" by auto
  show ?case
  proof (cases e)
    case None
    then show ?thesis using t
      by (subst stream_events_with_reconnect.simps) (auto simp: delivers_def split: if_splits)
  next
    case (Some err)
    have T: "take_until is_terminal_kind ?R = pre @ take_until is_terminal_kind (drop (length pre) ?R)"
      using take_until_split(1) [OF t(3), of is_terminal_kind] t(4) Some by simp
    show ?thesis
    proof (cases "is_transport err \<and> auto \<and> \<not> max_attempts < int (Suc attempts)")
      case False
      then have "stream_events_with_reconnect connect hb auto max_attempts attempts pos =
          (pre, Some (if \<not> is_transport err \<or> \<not> auto then err
             else SE_sse (''SSE reconnect attempts exhausted ('' @ show_int max_attempts @ ''): '' @ error_text err)))"
        using t(1) Some by (subst stream_events_with_reconnect.simps) auto
      moreover have "prefix pre (take_until is_terminal_kind ?R)" using T by simp
      moreover have "auto \<Longrightarrow> \<exists>m. (if \<not> is_transport err \<or> \<not> auto then err
             else SE_sse (''SSE reconnect attempts exhausted ('' @ show_int max_attempts @ ''): '' @ error_text err)) = SE_sse m"
        using t(4) Some by (cases "is_transport err") (auto simp: is_transport_def)
      ultimately show ?thesis by (cases auto) (simp_all add: delivers_def)
    next
      case True
      obtain evs r where rec: "stream_events_with_reconnect connect hb auto max_attempts (Suc attempts) c = (evs, r)"
        by (metis prod.exhaust)
      have run: "stream_events_with_reconnect connect hb auto max_attempts attempts pos = (pre @ evs, r)"
        using t(1) Some True rec by (subst stream_events_with_reconnect.simps) simp
      have rest: "after_cursor c L = drop (length pre) ?R" using after_cursor_prefix [OF assms(1) t(3)] t(2) by simp
      have "delivers auto (after_cursor c L)
          (stream_events_with_reconnect connect hb auto max_attempts (Suc attempts) c)"
        by (rule "1.IH" [OF t(1) [symmetric] refl Some _ _ "1.prems"]) (use True in simp_all)
      then have d: "delivers auto (drop (length pre) ?R) (evs, r)" by (simp only: rec rest)
      have pp: "prefix (pre @ evs) (take_until is_terminal_kind ?R)"
        using d by (subst T) (simp add: delivers_def)
      have full: "take_until is_terminal_kind ?R = pre @ evs \<and> evs \<noteq> [] \<and> is_terminal_kind (last evs)" if n: "r = None"
      proof -
        have f: "evs = take_until is_terminal_kind (drop (length pre) ?R) \<and> evs \<noteq> [] \<and> is_terminal_kind (last evs)"
          using d True n unfolding delivers_def by auto
        have "take_until is_terminal_kind ?R = pre @ evs" by (subst T) (simp only: f [THEN conjunct1, symmetric])
        then show ?thesis using f by blast
      qed
      have bad: "\<exists>m. x = SE_sse m" if x: "r = Some x" for x
        using d True x by (simp add: delivers_def)
      show ?thesis unfolding run using pp full bad by (cases r) (simp_all add: delivers_def)
    qed
  qed
qed

text \<open>C3: Across any number of lost connections the SDK's iterator yields the events of the log after
  the starting cursor in order, each once, and nothing else: heartbeats are dropped, an event is
  never repeated or skipped after a reconnection. With reconnection on it ends normally only
  after the first terminal event, and otherwise with a \<open>WorkerSSEError\<close>.\<close>

theorem sdk_stream_is_exactly_once:
  assumes "log_wf L" and "\<And>k c. serves (after_cursor c L) (connect k c)"
    and "stream_events_with_reconnect connect False auto max_attempts 0 start = (evs, res)"
  shows "prefix evs (take_until is_terminal_kind (after_cursor start L)) \<and>
    (if auto then (case res of
        None \<Rightarrow> evs = take_until is_terminal_kind (after_cursor start L) \<and> evs \<noteq> [] \<and> is_terminal_kind (last evs)
      | Some e \<Rightarrow> \<exists>m. e = SE_sse m) else True)"
proof -
  have "delivers auto (after_cursor start L)
      (stream_events_with_reconnect connect False auto max_attempts 0 start)"
    by (rule stream_delivers [where connect = connect, OF assms(1)]) (simp_all add: assms(2))
  then have "delivers auto (after_cursor start L) (evs, res)" by (simp only: assms(3))
  then show ?thesis by (cases auto; cases res) (simp_all add: delivers_def)
qed

text \<open>The log of a task and a connection that breaks off after one event: the second one resumes.\<close>

definition ex_log :: "worker_event list" where
  "ex_log = [\<lparr>we_cursor = 1, we_kind = ''task_started'', we_payload = []\<rparr>,
     \<lparr>we_cursor = 4, we_kind = ''task_progress'', we_payload = [(''n'', JInt 2)]\<rparr>,
     \<lparr>we_cursor = 5, we_kind = ''task_completed'', we_payload = []\<rparr>]"

definition ex_connect :: "nat \<Rightarrow> int option \<Rightarrow> http_stream" where
  "ex_connect k c =
     (if k = 0 then Http_events (map frame_of (take 1 (after_cursor c ex_log))) (Some ''ReadError()'')
      else Http_events (\<lparr>ss_id = [], ss_event = HEARTBEAT_KIND, ss_data = NotJson []\<rparr> # map frame_of (after_cursor c ex_log)) None)"

lemma honest_frames:
  "\<forall>e \<in> set rest. we_kind e \<noteq> HEARTBEAT_KIND \<Longrightarrow> honest rest ident (map frame_of (take n rest))"
proof (induction rest arbitrary: n ident)
  case (Cons e rest)
  then show ?case by (cases n) (simp_all add: frame_of_def)
qed simp

lemma ex_log_wf: "log_wf ex_log"
  by (simp add: log_wf_def ex_log_def HEARTBEAT_KIND_def)

lemma ex_connect_serves: "serves (after_cursor c ex_log) (ex_connect k c)"
proof -
  have "\<forall>e \<in> set (after_cursor c ex_log). we_kind e \<noteq> HEARTBEAT_KIND"
    using ex_log_wf by (cases c) (auto simp: log_wf_def after_cursor_def)
  from honest_frames [OF this, where n = 1] honest_frames [OF this, where n = "length (after_cursor c ex_log)"]
  show ?thesis by (auto simp: serves_def ex_connect_def)
qed

lemma ex_run:
  "stream_events_with_reconnect ex_connect False True 5 0 None = (ex_log, None)"
proof -
  have "turn (ex_connect 0 None) False True None =
      (take 1 ex_log, Some 1, Some (SE_transport ''SSE transport error: ReadError()''))"
    by code_simp
  moreover have "turn (ex_connect 1 (Some 1)) False True (Some 1) = (drop 1 ex_log, Some 5, None)"
    by code_simp
  ultimately show ?thesis
    by (subst stream_events_with_reconnect.simps, simp add: is_transport_def,
        subst stream_events_with_reconnect.simps, simp)
qed

lemma sdk_stream_witness:
  "prefix ex_log (take_until is_terminal_kind (after_cursor None ex_log)) \<and>
   ex_log = take_until is_terminal_kind (after_cursor None ex_log) \<and> ex_log \<noteq> [] \<and> is_terminal_kind (last ex_log)"
  using sdk_stream_is_exactly_once [OF ex_log_wf ex_connect_serves ex_run] by simp

end
