(* ===== verification/Sdk_Client.thy ===== *)
theory Sdk_Client
  imports Sdk_Sse Worker_Prelude
begin

text \<open>
  The SDK's client, \<open>src/worker_sdk/client.py\<close>: the request loop with its retries, the compatibility
  check, and every public method. What the client's attributes and the sent requests are is the
  state \<open>sdk_client\<close>; the HTTP library, the random numbers, \<open>uuid4\<close> and the local disk are the
  environment \<open>sdk_env\<close>, which answers by the number of the request.
\<close>

section \<open>State and environment\<close>

record http_call =
  hc_method :: string
  hc_path :: string
  hc_headers :: "(string \<times> string) list"
  hc_body :: "json option"

record http_response =
  hr_status :: nat
  hr_retry_after :: "string option"
  hr_body :: json_text

text \<open>\<open>sc_sent\<close> are the requests in the order sent, \<open>sc_slept\<close> the waits between them,
  \<open>sc_files\<close> the local files.\<close>

record sdk_client =
  sc_base_url :: string
  sc_token :: string
  sc_auto_reconnect :: bool
  sc_max_sse_attempts :: int
  sc_compat_enabled :: bool
  sc_compat_checked :: bool
  sc_policy :: retry_policy
  sc_sent :: "http_call list"
  sc_slept :: "real list"
  sc_files :: "string \<rightharpoonup> string"

datatype disk_op = Op_mkdir | Op_open | Op_write | Op_replace | Op_unlink

text \<open>A streamed download: an error, an error status with its body unless reading it fails, or the
  chunks and the error that breaks them off.\<close>

datatype download =
    Dl_error string
  | Dl_status nat "string + json_text"
  | Dl_chunks "string list" "string option"

text \<open>\<open>sd_http k call\<close> answers the k-th request with the text of an \<open>httpx.HTTPError\<close> or a response;
  \<open>sd_show\<close> is \<open>str\<close> of a value that is not a string; \<open>sd_disk\<close> tells which operation on the disk
  fails; \<open>sd_late\<close> tells of a task whether the waiting time passes before its stream ends.\<close>

record sdk_env =
  sd_http :: "nat \<Rightarrow> http_call \<Rightarrow> string + http_response"
  sd_random :: "nat \<Rightarrow> real"
  sd_uuid :: "nat \<Rightarrow> string"
  sd_show :: "json \<Rightarrow> string"
  sd_stream :: "nat \<Rightarrow> nat \<Rightarrow> string \<Rightarrow> (string \<times> string) list \<Rightarrow> http_stream"
  sd_late :: "string \<Rightarrow> real \<Rightarrow> bool"
  sd_resolve :: "string \<Rightarrow> string"
  sd_is_dir :: "string \<Rightarrow> bool"
  sd_disk :: "disk_op \<Rightarrow> string \<Rightarrow> string option"
  sd_download :: "string \<Rightarrow> (string \<times> string) list \<Rightarrow> download"

type_synonym 'a sdk = "(sdk_client, sdk_error, 'a) comp"

definition sdk_str :: "sdk_env \<Rightarrow> json \<Rightarrow> string" where
  "sdk_str env v = (case v of JStr s \<Rightarrow> s | _ \<Rightarrow> sd_show env v)"

definition rstrip_slash :: "string \<Rightarrow> string" where
  "rstrip_slash s = rev (dropWhile (\<lambda>c. c = CHR ''/'') (rev s))"

definition new_client :: "string \<Rightarrow> string \<Rightarrow> bool \<Rightarrow> int \<Rightarrow> bool \<Rightarrow> retry_policy option \<Rightarrow>
     (string \<rightharpoonup> string) \<Rightarrow> sdk_error + sdk_client" where
  "new_client base_url token auto_reconnect max_sse check policy files =
     (if base_url = [] then Inl (SE_value ''base_url is required'')
      else if token = [] then Inl (SE_value ''bearer_token is required'')
      else Inr \<lparr>sc_base_url = rstrip_slash base_url, sc_token = token, sc_auto_reconnect = auto_reconnect,
        sc_max_sse_attempts = max_sse, sc_compat_enabled = check, sc_compat_checked = False,
        sc_policy = (case policy of None \<Rightarrow> default_policy | Some p \<Rightarrow> p),
        sc_sent = [], sc_slept = [], sc_files = files\<rparr>)"

section \<open>One request\<close>

definition should_retry :: "string \<Rightarrow> bool option \<Rightarrow> bool" where
  "should_retry meth override =
     (case override of Some b \<Rightarrow> b | None \<Rightarrow> str_upper meth \<in> {''GET'', ''HEAD''})"

definition send_once :: "sdk_env \<Rightarrow> string \<Rightarrow> string \<Rightarrow> json option \<Rightarrow> http_response sdk" where
  "send_once env meth path body c =
     (let call = \<lparr>hc_method = meth, hc_path = path, hc_headers = bearer_headers (sc_token c), hc_body = body\<rparr>;
          c' = c\<lparr>sc_sent := sc_sent c @ [call]\<rparr> in
      case sd_http env (length (sc_sent c)) call of
        Inl m \<Rightarrow> (Inl (SE_transport (meth @ '' '' @ path @ '' transport error: '' @ m)), c')
      | Inr r \<Rightarrow> (Inr r, c'))"

text \<open>The body of an error as JSON where it is JSON, as text where it is not, \<open>None\<close> where it is empty.\<close>

definition error_body :: "json_text \<Rightarrow> json" where
  "error_body raw = (case raw of JText v \<Rightarrow> v | NotJson s \<Rightarrow> if s = [] then JNull else JStr s)"

definition format_http_message :: "json \<Rightarrow> json" where
  "format_http_message body =
     (case body of
        JObj d \<Rightarrow> py_or (py_or (dict_get d ''detail'' JNull) (dict_get d ''message'' JNull)) body
      | _ \<Rightarrow> body)"

definition raise_http_error :: "nat \<Rightarrow> json_text \<Rightarrow> sdk_error" where
  "raise_http_error code raw =
     SE_http (http_error_for code) code (error_body raw) (format_http_message (error_body raw))"

definition parse_json :: "http_response \<Rightarrow> sdk_error + json" where
  "parse_json r =
     (case json_loads (hr_body r) of
        None \<Rightarrow> Inl (SE_client ''invalid JSON response from worker'')
      | Some v \<Rightarrow> Inr v)"

text \<open>\<open>sleep_for_backoff\<close>.\<close>

definition sleep_for_backoff :: "real \<Rightarrow> sdk_client \<Rightarrow> sdk_client" where
  "sleep_for_backoff d c = (if 0 < d then c\<lparr>sc_slept := sc_slept c @ [d]\<rparr> else c)"

text \<open>The wait before the next attempt after a 5xx response.\<close>

definition wait_after_response :: "retry_policy \<Rightarrow> http_response \<Rightarrow> real \<Rightarrow> real" where
  "wait_after_response p r local_wait =
     (if rp_respect_retry_after p
      then (case parse_retry_after (hr_retry_after r) of None \<Rightarrow> local_wait | Some s \<Rightarrow> max s local_wait)
      else local_wait)"

definition is_2xx :: "nat \<Rightarrow> bool" where "is_2xx code \<longleftrightarrow> 200 \<le> code \<and> code < 300"
definition is_5xx :: "nat \<Rightarrow> bool" where "is_5xx code \<longleftrightarrow> 500 \<le> code \<and> code < 600"

section \<open>The retry loop\<close>

text \<open>The body of the loop of \<open>_request\<close>: it returns or raises (\<open>Done\<close>), or continues after its wait.\<close>

datatype loop_step = Done "sdk_error + http_response" | Again sdk_error | Again_status

definition request_step ::
    "sdk_env \<Rightarrow> retry_policy \<Rightarrow> string \<Rightarrow> string \<Rightarrow> json option \<Rightarrow> nat \<Rightarrow> sdk_client \<Rightarrow> loop_step \<times> sdk_client" where
  "request_step env p meth path body attempt c =
     (let u = sd_random env (length (sc_sent c)) in
      case send_once env meth path body c of
        (Inl e, c1) \<Rightarrow>
          if \<not> rp_retry_on_transport p \<or> rp_max_attempts p \<le> int attempt then (Done (Inl e), c1)
          else (case backoff_for_attempt p attempt u of
                  Inl e' \<Rightarrow> (Done (Inl e'), c1)
                | Inr wait \<Rightarrow> (Again e, sleep_for_backoff wait c1))
      | (Inr r, c1) \<Rightarrow>
          if is_2xx (hr_status r) then (Done (Inr r), c1)
          else if rp_retry_on_5xx p \<and> is_5xx (hr_status r) \<and> int attempt < rp_max_attempts p then
            (case backoff_for_attempt p attempt u of
               Inl e' \<Rightarrow> (Done (Inl e'), c1)
             | Inr wait \<Rightarrow> (Again_status, sleep_for_backoff (wait_after_response p r wait) c1))
          else (Done (Inl (raise_http_error (hr_status r) (hr_body r))), c1))"

function request_loop ::
    "sdk_env \<Rightarrow> retry_policy \<Rightarrow> string \<Rightarrow> string \<Rightarrow> json option \<Rightarrow> nat \<Rightarrow> sdk_error option \<Rightarrow> http_response sdk" where
  "request_loop env p meth path body attempt last_exc c =
     (if int attempt < rp_max_attempts p then
        (case request_step env p meth path body (Suc attempt) c of
           (Done r, c1) \<Rightarrow> (r, c1)
         | (Again e, c1) \<Rightarrow> request_loop env p meth path body (Suc attempt) (Some e) c1
         | (Again_status, c1) \<Rightarrow> request_loop env p meth path body (Suc attempt) last_exc c1)
      else (Inl (case last_exc of
              Some e \<Rightarrow> e
            | None \<Rightarrow> SE_client (meth @ '' '' @ path @ '': retry loop exited without response or exception'')), c))"
  by pat_completeness auto
termination
  by (relation "measure (\<lambda>(env, p, meth, path, body, attempt, last_exc, c). nat (rp_max_attempts p - int attempt))") auto

declare request_loop.simps [simp del]

definition request :: "sdk_env \<Rightarrow> string \<Rightarrow> string \<Rightarrow> json option \<Rightarrow> bool option \<Rightarrow> http_response sdk" where
  "request env meth path body retry c =
     request_loop env (if should_retry meth retry then sc_policy c else disabled_policy) meth path body 0 None c"

section \<open>Health and compatibility\<close>

definition api_json :: "sdk_env \<Rightarrow> string \<Rightarrow> string \<Rightarrow> json option \<Rightarrow> json sdk" where
  "api_json env meth path body = bindE (request env meth path body None) (\<lambda>r. liftE (parse_json r))"

definition raw_get :: "sdk_env \<Rightarrow> string \<Rightarrow> http_response sdk" where
  "raw_get env path = request env ''GET'' path None (Some True)"

definition get_health :: "sdk_env \<Rightarrow> json sdk" where
  "get_health env = bindE (raw_get env ''/health'') (\<lambda>r. liftE (parse_json r))"

definition py_get :: "json \<Rightarrow> string \<Rightarrow> json \<Rightarrow> sdk_error + json" where
  "py_get v k dflt =
     (case v of JObj d \<Rightarrow> Inr (dict_get d k dflt) | _ \<Rightarrow> Inl (SE_attribute ''object has no attribute 'get' ''))"

definition py_item :: "json \<Rightarrow> string \<Rightarrow> sdk_error + json" where
  "py_item v k =
     (case v of
        JObj d \<Rightarrow> (case map_of d k of None \<Rightarrow> Inl (SE_key k) | Some x \<Rightarrow> Inr x)
      | _ \<Rightarrow> Inl (SE_type ''object is not subscriptable by a string''))"

definition set_checked :: "bool \<Rightarrow> unit sdk" where
  "set_checked b = modifyE (\<lambda>c. c\<lparr>sc_compat_checked := b\<rparr>)"

definition assert_compatible :: "sdk_env \<Rightarrow> unit sdk" where
  "assert_compatible env =
     bindE (get_health env) (\<lambda>health.
     bindE (liftE (py_get health ''version'' (JStr []))) (\<lambda>v.
     let version = sdk_str env v in
     if \<not> is_compatible version then raiseE (SE_compatibility version) else set_checked True))"

definition maybe_compat_check :: "sdk_env \<Rightarrow> unit sdk" where
  "maybe_compat_check env =
     bindE (getE (\<lambda>c. \<not> sc_compat_enabled c \<or> sc_compat_checked c)) (\<lambda>skip.
     if skip then retE ()
     else thenE (set_checked True)
       (tryE (assert_compatible env)
         (\<lambda>e. case e of
             SE_compatibility _ \<Rightarrow> thenE (set_checked False) (raiseE e)
           | _ \<Rightarrow> raiseE e)))"

section \<open>Tasks\<close>

definition task_path :: "string \<Rightarrow> string \<Rightarrow> string" where
  "task_path task_id rest = ''/tasks/'' @ task_id @ rest"

definition client_create_task :: "sdk_env \<Rightarrow> json \<Rightarrow> worker_task_handle sdk" where
  "client_create_task env req =
     thenE (maybe_compat_check env)
     (bindE (api_json env ''POST'' ''/tasks'' (Some req)) (\<lambda>body.
      bindE (liftE (py_item body ''task_id'')) (\<lambda>tid.
      bindE (liftE (py_item body ''status'')) (\<lambda>st.
      retE \<lparr>wh_task_id = tid, wh_status = st\<rparr>))))"

definition client_get_task :: "sdk_env \<Rightarrow> string \<Rightarrow> json sdk" where
  "client_get_task env task_id =
     thenE (maybe_compat_check env) (api_json env ''GET'' (task_path task_id []) None)"

definition client_abort_task :: "sdk_env \<Rightarrow> string \<Rightarrow> json sdk" where
  "client_abort_task env task_id =
     thenE (maybe_compat_check env) (api_json env ''POST'' (task_path task_id ''/abort'') (Some (JObj [])))"

text \<open>The \<open>n\<close>-th generated key is drawn when \<open>n\<close> requests have been sent.\<close>

definition client_submit_decision ::
    "sdk_env \<Rightarrow> string \<Rightarrow> string \<Rightarrow> string \<Rightarrow> string option \<Rightarrow> json option \<Rightarrow> string option \<Rightarrow> json sdk" where
  "client_submit_decision env task_id decision_id choice feedback patch key =
     thenE (maybe_compat_check env)
     (bindE (getE (\<lambda>c. sd_uuid env (length (sc_sent c)))) (\<lambda>fresh.
      api_json env ''POST'' (task_path task_id ''/decisions'') (Some (JObj (
        [(''decision_id'', JStr decision_id), (''choice'', JStr choice),
         (''idempotency_key'', JStr (case key of None \<Rightarrow> fresh | Some k \<Rightarrow> if k = [] then fresh else k))] @
        (case feedback of None \<Rightarrow> [] | Some f \<Rightarrow> [(''feedback'', JStr f)]) @
        (case patch of None \<Rightarrow> [] | Some p \<Rightarrow> [(''patch'', p)]))))))"

section \<open>Events and the terminal wait\<close>

text \<open>The generator of \<open>stream_events\<close>, run to its end: what it yields and the exception that ends it.\<close>

definition stream_events ::
    "sdk_env \<Rightarrow> string \<Rightarrow> int option \<Rightarrow> bool \<Rightarrow> bool option \<Rightarrow> (worker_event list \<times> sdk_error option) sdk" where
  "stream_events env task_id last_event_id hb auto_resume =
     thenE (maybe_compat_check env)
       (getE (\<lambda>c.
          let resume = (case auto_resume of None \<Rightarrow> sc_auto_reconnect c | Some b \<Rightarrow> b);
              url = sc_base_url c @ task_path task_id ''/events'' in
          stream_events_with_reconnect
            (\<lambda>k cursor. sd_stream env (length (sc_sent c)) k url (bearer_sse_headers (sc_token c) cursor))
            hb resume (sc_max_sse_attempts c) 0 last_event_id))"

definition wait_for_terminal_event :: "sdk_env \<Rightarrow> string \<Rightarrow> worker_event option sdk" where
  "wait_for_terminal_event env task_id =
     bindE (stream_events env task_id None False None) (\<lambda>(evs, err).
       case find is_terminal_kind evs of
         Some ev \<Rightarrow> retE (Some ev)
       | None \<Rightarrow> (case err of Some e \<Rightarrow> raiseE e | None \<Rightarrow> retE None))"

text \<open>When the waiting time passes, the stream is cancelled; that the check of the version before it is
  cancelled too is not modelled.\<close>

definition wait_until_terminal :: "sdk_env \<Rightarrow> string \<Rightarrow> real option \<Rightarrow> bool \<Rightarrow> worker_terminal_result sdk" where
  "wait_until_terminal env task_id timeout raise_on_failure =
     bindE (case timeout of
         Some d \<Rightarrow>
           if sd_late env task_id d
           then thenE (maybe_compat_check env)
             (raiseE (SE_client (''wait_until_terminal timed out for task '' @ task_id)))
           else wait_for_terminal_event env task_id
       | None \<Rightarrow> wait_for_terminal_event env task_id) (\<lambda>ev.
     bindE (client_get_task env task_id) (\<lambda>snapshot.
     bindE (liftE (py_get snapshot ''status'' (JStr []))) (\<lambda>st.
     let final_status = sdk_str env st in
     case (if raise_on_failure then terminal_error_for final_status else None) of
       Some cls \<Rightarrow> raiseE (SE_terminal cls task_id final_status ev snapshot)
     | None \<Rightarrow> retE \<lparr>wt_task_id = task_id, wt_final_status = final_status, wt_terminal_event = ev, wt_snapshot = snapshot\<rparr>)))"

text \<open>The task's id is interpolated into the paths, so it is printed.\<close>

definition create_and_wait :: "sdk_env \<Rightarrow> json \<Rightarrow> real option \<Rightarrow> bool \<Rightarrow> worker_terminal_result sdk" where
  "create_and_wait env req timeout raise_on_failure =
     bindE (client_create_task env req) (\<lambda>h. wait_until_terminal env (sdk_str env (wh_task_id h)) timeout raise_on_failure)"

section \<open>Artifacts\<close>

definition is_id_char :: "char \<Rightarrow> bool" where
  "is_id_char c \<longleftrightarrow> is_upper c \<or> is_lower c \<or> is_digit c \<or> c \<in> {CHR ''_'', CHR ''.'', CHR ''-''}"

text \<open>\<open>$\<close> also matches before a newline at the end.\<close>

definition artifact_id_ok :: "string \<Rightarrow> bool" where
  "artifact_id_ok s =
     (let t = (if s \<noteq> [] \<and> last s = CHR 0x0A then butlast s else s) in t \<noteq> [] \<and> list_all is_id_char t)"

definition validate_artifact_id :: "string \<Rightarrow> unit sdk" where
  "validate_artifact_id s = (if artifact_id_ok s then retE () else raiseE (SE_value (''invalid artifact_id '' @ s)))"

definition json_to_float :: "json \<Rightarrow> sdk_error + real" where
  "json_to_float v =
     (case v of
        JFloat r \<Rightarrow> Inr r
      | JInt n \<Rightarrow> Inr (of_int n)
      | JBool b \<Rightarrow> Inr (of_bool b)
      | JStr s \<Rightarrow> (case py_float s of None \<Rightarrow> Inl (SE_value ''could not convert string to float'') | Some r \<Rightarrow> Inr r)
      | _ \<Rightarrow> Inl (SE_type ''float() argument must be a string or a real number''))"

definition to_artifact_ref :: "sdk_env \<Rightarrow> json \<Rightarrow> worker_artifact_ref sdk" where
  "to_artifact_ref env item =
     bindE (liftE (py_item item ''artifact_id'')) (\<lambda>aid.
     bindE (liftE (py_item item ''task_id'')) (\<lambda>tid.
     bindE (liftE (py_item item ''type'')) (\<lambda>ty.
     bindE (liftE (py_item item ''filename'')) (\<lambda>fn.
     bindE (liftE (py_get item ''size'' JNull)) (\<lambda>size.
     bindE (liftE (py_item item ''created_at'')) (\<lambda>ca.
     bindE (liftE (json_to_float ca)) (\<lambda>created.
     bindE (liftE (py_get item ''expires_at'' JNull)) (\<lambda>ex.
     bindE (liftE (py_get item ''download_url'' JNull)) (\<lambda>url.
     bindE (liftE (py_get item ''metadata'' JNull)) (\<lambda>meta.
     retE \<lparr>wa_artifact_id = aid, wa_task_id = tid, wa_type = sdk_str env ty, wa_filename = fn, wa_size = size,
       wa_created_at = created, wa_expires_at = ex, wa_download_url = url,
       wa_metadata = py_or meta (JObj [])\<rparr>))))))))))"

fun mapE :: "('a \<Rightarrow> 'b sdk) \<Rightarrow> 'a list \<Rightarrow> 'b list sdk" where
  "mapE f [] = retE []"
| "mapE f (x # xs) = bindE (f x) (\<lambda>y. bindE (mapE f xs) (\<lambda>ys. retE (y # ys)))"

definition client_list_artifacts :: "sdk_env \<Rightarrow> string \<Rightarrow> worker_artifact_ref list sdk" where
  "client_list_artifacts env task_id =
     thenE (maybe_compat_check env)
     (bindE (api_json env ''GET'' (task_path task_id ''/artifacts'') None) (\<lambda>items.
        case items of
          JList xs \<Rightarrow> mapE (to_artifact_ref env) xs
        | _ \<Rightarrow> raiseE (SE_client ''list_artifacts: expected JSON array'')))"

definition download_artifact_bytes :: "sdk_env \<Rightarrow> string \<Rightarrow> string \<Rightarrow> json_text sdk" where
  "download_artifact_bytes env task_id artifact_id =
     thenE (validate_artifact_id artifact_id)
     (thenE (maybe_compat_check env)
     (bindE (request env ''GET'' (task_path task_id (''/artifacts/'' @ artifact_id)) None None) (\<lambda>r. retE (hr_body r))))"

text \<open>Writing the chunks to the part file: the file's content after it, and the exception if one stops it,
  an \<open>OSError\<close> of the disk or the \<open>httpx.HTTPError\<close> that breaks the stream.\<close>

definition part_path :: "string \<Rightarrow> string" where
  "part_path path = path @ ''.part''"

definition disk :: "sdk_env \<Rightarrow> disk_op \<Rightarrow> string \<Rightarrow> unit sdk" where
  "disk env op path = (case sd_disk env op path of None \<Rightarrow> retE () | Some m \<Rightarrow> raiseE (SE_os m))"

definition set_file :: "string \<Rightarrow> string option \<Rightarrow> unit sdk" where
  "set_file path content = modifyE (\<lambda>c. c\<lparr>sc_files := (sc_files c)(path := content)\<rparr>)"

fun write_chunks :: "sdk_env \<Rightarrow> string \<Rightarrow> string \<Rightarrow> string list \<Rightarrow> unit sdk" where
  "write_chunks env tmp written [] = retE ()"
| "write_chunks env tmp written (ch # chs) =
     thenE (disk env Op_write tmp)
     (thenE (set_file tmp (Some (written @ ch))) (write_chunks env tmp (written @ ch) chs))"

definition download_failed :: "string \<Rightarrow> sdk_error" where
  "download_failed m = SE_transport (''artifact download failed: '' @ m)"

text \<open>The inner \<open>try\<close>: its handler removes the part file, and swallows an \<open>OSError\<close> of that.\<close>

definition save_download :: "sdk_env \<Rightarrow> string \<Rightarrow> string list \<Rightarrow> string option \<Rightarrow> unit sdk" where
  "save_download env path chunks broken =
     (let tmp = part_path path in
      tryE
        (thenE (disk env Op_open tmp)
        (thenE (set_file tmp (Some []))
        (thenE (write_chunks env tmp [] chunks)
        (thenE (case broken of None \<Rightarrow> retE () | Some m \<Rightarrow> raiseE (download_failed m))
        (thenE (disk env Op_replace path)
        (bindE (getE (\<lambda>c. sc_files c tmp)) (\<lambda>content.
         thenE (set_file path content) (set_file tmp None))))))))
        (\<lambda>e. thenE (tryE (thenE (disk env Op_unlink tmp) (set_file tmp None)) (\<lambda>_. retE ())) (raiseE e)))"

text \<open>The block of \<open>async with self._http.stream(...)\<close>.\<close>

definition store_response :: "sdk_env \<Rightarrow> string \<Rightarrow> download \<Rightarrow> string sdk" where
  "store_response env path dl =
     (case dl of
        Dl_error m \<Rightarrow> raiseE (download_failed m)
      | Dl_status code body \<Rightarrow>
          (case body of Inl m \<Rightarrow> raiseE (download_failed m) | Inr raw \<Rightarrow> raiseE (raise_http_error code raw))
      | Dl_chunks chunks broken \<Rightarrow>
          if path = ''/'' then raiseE (SE_value ''has an empty name'')
          else thenE (save_download env path chunks broken) (retE path))"

definition download_artifact_to :: "sdk_env \<Rightarrow> string \<Rightarrow> string \<Rightarrow> string \<Rightarrow> bool \<Rightarrow> string sdk" where
  "download_artifact_to env task_id artifact_id dest overwrite =
     thenE (validate_artifact_id artifact_id)
     (thenE (maybe_compat_check env)
     (bindE (getE (\<lambda>c. c)) (\<lambda>c.
      let path = sd_resolve env dest in
      if (path \<in> dom (sc_files c) \<or> sd_is_dir env path) \<and> \<not> overwrite
      then raiseE (SE_file_exists (''destination already exists: '' @ path))
      else thenE (disk env Op_mkdir path)
        (store_response env path
          (sd_download env (sc_base_url c @ task_path task_id (''/artifacts/'' @ artifact_id)) (bearer_headers (sc_token c)))))))"

section \<open>The retries\<close>

text \<open>A reference for the loop: of the answers the library has ready, those up to the first that the policy
  does not retry count; the last of them is what the caller gets.\<close>

definition call_of :: "string \<Rightarrow> string \<Rightarrow> json option \<Rightarrow> sdk_client \<Rightarrow> http_call" where
  "call_of meth path body c = \<lparr>hc_method = meth, hc_path = path, hc_headers = bearer_headers (sc_token c), hc_body = body\<rparr>"

definition retried :: "retry_policy \<Rightarrow> string + http_response \<Rightarrow> bool" where
  "retried p out =
     (case out of Inl _ \<Rightarrow> rp_retry_on_transport p | Inr r \<Rightarrow> rp_retry_on_5xx p \<and> is_5xx (hr_status r))"

definition answers :: "sdk_env \<Rightarrow> retry_policy \<Rightarrow> http_call \<Rightarrow> nat \<Rightarrow> nat \<Rightarrow> (string + http_response) list" where
  "answers env p call k n = take_until (\<lambda>out. \<not> retried p out) (map (\<lambda>i. sd_http env (k + i) call) [0..<n])"

definition answer_of :: "string \<Rightarrow> string \<Rightarrow> string + http_response \<Rightarrow> sdk_error + http_response" where
  "answer_of meth path out =
     (case out of
        Inl m \<Rightarrow> Inl (SE_transport (meth @ '' '' @ path @ '' transport error: '' @ m))
      | Inr r \<Rightarrow> if is_2xx (hr_status r) then Inr r else Inl (raise_http_error (hr_status r) (hr_body r)))"

lemma answers_Suc:
  "answers env p call k (Suc n) =
     sd_http env k call # (if retried p (sd_http env k call) then answers env p call (Suc k) n else [])"
  by (simp add: answers_def upt_conv_Cons comp_def map_Suc_upt [symmetric] del: upt_Suc map_Suc_upt)

lemma butlast_take_until: "\<forall>x \<in> set (butlast (take_until P xs)). \<not> P x"
  by (induction xs) auto

lemma answers_0: "answers env p call k 0 = []"
  by (simp add: answers_def)

lemma answers_bounds: "length (answers env p call k n) \<le> n" "0 < n \<Longrightarrow> answers env p call k n \<noteq> []"
proof -
  show "length (answers env p call k n) \<le> n"
    by (induction n arbitrary: k) (simp_all add: answers_0 answers_Suc)
  show "0 < n \<Longrightarrow> answers env p call k n \<noteq> []" by (cases n) (simp_all add: answers_Suc)
qed

lemma no_5xx_is_2xx: "is_5xx n \<Longrightarrow> \<not> is_2xx n"
  by (simp add: is_5xx_def is_2xx_def)

lemma backoff_ok: "1 \<le> attempt \<Longrightarrow> \<exists>d. backoff_for_attempt p attempt u = Inr d"
  by (simp add: backoff_for_attempt_def Let_def)

text \<open>One turn of the loop.\<close>

lemma request_step_spec:
  assumes "int attempt < rp_max_attempts p"
  shows "\<exists>st c1. request_step env p meth path body (Suc attempt) c = (st, c1) \<and>
    sc_sent c1 = sc_sent c @ [call_of meth path body c] \<and> sc_token c1 = sc_token c \<and>
    (let out = sd_http env (length (sc_sent c)) (call_of meth path body c) in
     if retried p out \<and> int (Suc attempt) < rp_max_attempts p then st = Again_status \<or> (\<exists>e. st = Again e)
     else st = Done (answer_of meth path out))"
proof -
  obtain d where d: "backoff_for_attempt p (Suc attempt) (sd_random env (length (sc_sent c))) = Inr d"
    using backoff_ok by fastforce
  show ?thesis
    by (cases "sd_http env (length (sc_sent c)) (call_of meth path body c)")
      (auto simp: request_step_def send_once_def Let_def d call_of_def retried_def answer_of_def sleep_for_backoff_def no_5xx_is_2xx)
qed

lemma request_loop_spec:
  assumes "int attempt < rp_max_attempts p" and "n = nat (rp_max_attempts p) - attempt"
  shows "\<exists>c'. request_loop env p meth path body attempt lst c =
      (answer_of meth path (last (answers env p (call_of meth path body c) (length (sc_sent c)) n)), c') \<and>
    sc_sent c' = sc_sent c @ replicate (length (answers env p (call_of meth path body c) (length (sc_sent c)) n)) (call_of meth path body c)"
  using assms
proof (induction n arbitrary: attempt lst c)
  case (Suc n)
  let ?call = "call_of meth path body c"
  obtain st c1 where s: "request_step env p meth path body (Suc attempt) c = (st, c1)"
      "sc_sent c1 = sc_sent c @ [?call]" "sc_token c1 = sc_token c"
      "let out = sd_http env (length (sc_sent c)) ?call in
       if retried p out \<and> int (Suc attempt) < rp_max_attempts p then st = Again_status \<or> (\<exists>e. st = Again e)
       else st = Done (answer_of meth path out)"
    using request_step_spec [OF Suc.prems(1)] by blast
  have call: "call_of meth path body c1 = ?call" using s(3) by (simp add: call_of_def)
  show ?case
  proof (cases "retried p (sd_http env (length (sc_sent c)) ?call) \<and> int (Suc attempt) < rp_max_attempts p")
    case True
    have nn: "n = nat (rp_max_attempts p) - Suc attempt" using Suc.prems by simp
    have n0: "0 < n" using True nn by linarith
    have "\<exists>l2. request_loop env p meth path body attempt lst c = request_loop env p meth path body (Suc attempt) l2 c1"
      using True s(1,4) Suc.prems(1) by (subst request_loop.simps) (auto simp: Let_def)
    then obtain l2 where run: "request_loop env p meth path body attempt lst c = request_loop env p meth path body (Suc attempt) l2 c1"
      by blast
    from Suc.IH [of "Suc attempt" l2 c1] True nn
    show ?thesis using True answers_bounds(2) [OF n0]
      by (auto simp: run call s(2) answers_Suc)
  next
    case False
    have out: "request_loop env p meth path body attempt lst c =
        (answer_of meth path (sd_http env (length (sc_sent c)) ?call), c1)"
      using False s(1,4) Suc.prems(1) by (subst request_loop.simps) (auto simp: Let_def)
    have "answers env p ?call (length (sc_sent c)) (Suc n) = [sd_http env (length (sc_sent c)) ?call]"
    proof (cases "retried p (sd_http env (length (sc_sent c)) ?call)")
      case True
      then have "n = 0" using False Suc.prems by linarith
      then show ?thesis by (simp add: answers_Suc answers_0)
    qed (simp add: answers_Suc)
    then show ?thesis using out s(2) by simp
  qed
qed linarith

lemma request_spec:
  assumes "policy_ok (sc_policy c)"
  shows "let p = (if should_retry meth retry then sc_policy c else disabled_policy);
      call = call_of meth path body c;
      outs = answers env p call (length (sc_sent c)) (nat (rp_max_attempts p));
      run = request env meth path body retry c in
    fst run = answer_of meth path (last outs) \<and>
    sc_sent (snd run) = sc_sent c @ replicate (length outs) call \<and>
    1 \<le> length outs \<and> int (length outs) \<le> rp_max_attempts p \<and>
    list_all (retried p) (butlast outs) \<and>
    (should_retry meth retry \<or> length outs = 1)"
proof -
  define p where "p = (if should_retry meth retry then sc_policy c else disabled_policy)"
  define outs where "outs = answers env p (call_of meth path body c) (length (sc_sent c)) (nat (rp_max_attempts p))"
  have p1: "1 \<le> rp_max_attempts p" using assms by (simp add: p_def policy_ok_def disabled_policy_def)
  obtain c' where run: "request_loop env p meth path body 0 None c = (answer_of meth path (last outs), c')"
      "sc_sent c' = sc_sent c @ replicate (length outs) (call_of meth path body c)"
    using request_loop_spec [where attempt = 0 and p = p and n = "nat (rp_max_attempts p)" and meth = meth and path = path
        and body = body and c = c and env = env and lst = None] p1
    by (auto simp: outs_def)
  have l: "length outs \<le> nat (rp_max_attempts p)" "outs \<noteq> []"
    using answers_bounds p1 by (simp_all add: outs_def)
  have l1: "1 \<le> length outs" using l(2) by (cases outs) simp_all
  have lm: "int (length outs) \<le> rp_max_attempts p" using l(1) p1 by linarith
  have b: "list_all (retried p) (butlast outs)"
    using butlast_take_until [of "\<lambda>out. \<not> retried p out"] by (simp add: outs_def answers_def list_all_iff)
  have one: "should_retry meth retry \<or> length outs = 1"
    using l1 lm by (cases "should_retry meth retry") (simp_all add: p_def disabled_policy_def)
  have "request env meth path body retry c = (answer_of meth path (last outs), c')"
    using run(1) by (simp add: request_def p_def)
  then show ?thesis using run(2) l1 lm b one by (simp add: Let_def flip: p_def outs_def)
qed

text \<open>C15: The retry loop is the reference: a request under a valid policy ends, its result is the last of
  the answers up to the first that is not to be retried, and it has sent the call once for each of
  them: between one and \<open>max_attempts\<close> times, once only for a POST, and never again after a 2xx
  or a 4xx.\<close>

theorem request_is_the_reference:
  assumes "policy_ok (sc_policy c)"
  shows "let p = (if should_retry meth retry then sc_policy c else disabled_policy);
      call = call_of meth path body c;
      outs = answers env p call (length (sc_sent c)) (nat (rp_max_attempts p));
      run = request env meth path body retry c in
    fst run = answer_of meth path (last outs) \<and>
    sc_sent (snd run) = sc_sent c @ replicate (length outs) call \<and>
    1 \<le> length outs \<and> int (length outs) \<le> rp_max_attempts p \<and>
    list_all (retried p) (butlast outs) \<and>
    (should_retry meth retry \<or> length outs = 1)"
  using assms by (rule request_spec)

text \<open>A worker that is restarting: the first answer is lost, the second refused, the third arrives.\<close>

definition ex_client_state :: sdk_client where
  "ex_client_state = \<lparr>sc_base_url = ''http://w'', sc_token = ''t'', sc_auto_reconnect = True, sc_max_sse_attempts = 5,
     sc_compat_enabled = True, sc_compat_checked = False, sc_policy = default_policy,
     sc_sent = [], sc_slept = [], sc_files = Map.empty\<rparr>"

definition ex_sdk_env :: sdk_env where
  "ex_sdk_env = \<lparr>
     sd_http = (\<lambda>k call. if k = 0 then Inl ''ConnectError()''
        else if k = 1 then Inr \<lparr>hr_status = 503, hr_retry_after = Some ''2'', hr_body = NotJson []\<rparr>
        else Inr \<lparr>hr_status = 200, hr_retry_after = None, hr_body = JText (JObj [(''version'', JStr ''0.1.3'')])\<rparr>),
     sd_random = (\<lambda>_. 1/2), sd_uuid = (\<lambda>_. ''u''), sd_show = (\<lambda>_. []), sd_stream = (\<lambda>_ _ _ _. Http_error ''down''),
     sd_late = (\<lambda>_ _. False), sd_resolve = (\<lambda>p. ''/'' @ p), sd_is_dir = (\<lambda>_. False), sd_disk = (\<lambda>_ _. None),
     sd_download = (\<lambda>_ _. Dl_chunks [''ab'', ''c''] None)\<rparr>"

lemma ex_answers:
  "answers ex_sdk_env default_policy call 0 3 =
     [Inl ''ConnectError()'', Inr \<lparr>hr_status = 503, hr_retry_after = Some ''2'', hr_body = NotJson []\<rparr>,
      Inr \<lparr>hr_status = 200, hr_retry_after = None, hr_body = JText (JObj [(''version'', JStr ''0.1.3'')])\<rparr>]"
  by (simp add: answers_def ex_sdk_env_def retried_def default_policy_def is_5xx_def upt_conv_Cons numeral_3_eq_3)

lemma request_is_the_reference_witness:
  "fst (request ex_sdk_env ''GET'' ''/health'' None (Some True) ex_client_state) =
     Inr \<lparr>hr_status = 200, hr_retry_after = None, hr_body = JText (JObj [(''version'', JStr ''0.1.3'')])\<rparr>"
proof -
  have p: "policy_ok (sc_policy ex_client_state)" by (simp add: policy_ok_def ex_client_state_def default_policy_def)
  have m: "nat (rp_max_attempts default_policy) = 3" by (simp add: default_policy_def)
  have "fst (request ex_sdk_env ''GET'' ''/health'' None (Some True) ex_client_state) =
      answer_of ''GET'' ''/health'' (last (answers ex_sdk_env default_policy
        (call_of ''GET'' ''/health'' None ex_client_state) 0 3))"
    using request_is_the_reference [OF p, where meth = "''GET''" and retry = "Some True" and env = ex_sdk_env
        and path = "''/health''" and body = None]
    by (simp add: Let_def should_retry_def m) (simp add: ex_client_state_def m)
  then show ?thesis by (simp add: ex_answers answer_of_def is_2xx_def)
qed

section \<open>The compatibility check\<close>

definition client_settings :: "sdk_client \<Rightarrow> string \<times> string \<times> bool \<times> int \<times> bool \<times> bool \<times> retry_policy \<times> (string \<rightharpoonup> string)" where
  "client_settings c = (sc_base_url c, sc_token c, sc_auto_reconnect c, sc_max_sse_attempts c, sc_compat_enabled c,
     sc_compat_checked c, sc_policy c, sc_files c)"

lemma request_step_settings: "request_step env p meth path body n c = (st, c') \<Longrightarrow> client_settings c' = client_settings c"
  by (auto simp: request_step_def send_once_def Let_def sleep_for_backoff_def client_settings_def
      split: sum.splits if_splits prod.splits)

lemma request_loop_settings: "client_settings (snd (request_loop env p meth path body attempt lst c)) = client_settings c"
proof (induction env p meth path body attempt lst c rule: request_loop.induct)
  case (1 env p meth path body attempt lst c)
  obtain st c1 where s: "request_step env p meth path body (Suc attempt) c = (st, c1)" by fastforce
  show ?case
    using "1.IH" [OF _ s [symmetric]] request_step_settings [OF s]
    by (subst request_loop.simps) (auto simp: s split: loop_step.splits)
qed

lemma request_settings [preserves_intros]: "preserves client_settings (request env meth path body retry)"
  by (rule preservesI) (simp add: request_def request_loop_settings)

definition is_compat_error :: "sdk_error \<Rightarrow> bool" where
  "is_compat_error e = (case e of SE_compatibility _ \<Rightarrow> True | _ \<Rightarrow> False)"

lemma request_no_compat:
  assumes "policy_ok (sc_policy c)" and "request env meth path body retry c = (Inl e, c')"
  shows "\<not> is_compat_error e"
  using request_spec [OF assms(1), of meth retry path body env] assms(2)
  by (auto simp: Let_def answer_of_def raise_http_error_def is_compat_error_def split: sum.splits if_splits)

text \<open>The version that a health check sees, if it sees one.\<close>

definition health_version :: "sdk_env \<Rightarrow> sdk_client \<Rightarrow> string option" where
  "health_version env c =
     (case fst (get_health env c) of
        Inr (JObj d) \<Rightarrow> Some (sdk_str env (dict_get d ''version'' (JStr [])))
      | _ \<Rightarrow> None)"

lemma assert_compatible_spec:
  assumes "policy_ok (sc_policy c)"
  shows "case assert_compatible env c of
      (Inr _, c') \<Rightarrow> sc_compat_checked c' \<and> (\<exists>v. health_version env c = Some v \<and> is_compatible v)
    | (Inl e, c') \<Rightarrow> client_settings c' = client_settings c \<and>
        (if is_compat_error e then \<exists>v. e = SE_compatibility v \<and> health_version env c = Some v \<and> \<not> is_compatible v
         else health_version env c = None)"
proof -
  obtain r c1 where h: "get_health env c = (r, c1)" by fastforce
  have set: "client_settings c1 = client_settings c"
  proof -
    have "preserves client_settings (get_health env)"
      unfolding get_health_def raw_get_def by (intro preserves_intros)
    from preservesD [OF this, of c] show ?thesis by (simp add: h)
  qed
  have nc: "\<not> is_compat_error e" if "r = Inl e" for e
    using h that request_no_compat [OF assms]
    by (auto simp: get_health_def raw_get_def bindE_def liftE_def parse_json_def is_compat_error_def
        split: sum.splits prod.splits option.splits)
  show ?thesis
  proof (cases r)
    case (Inl e)
    then show ?thesis using h set nc by (simp add: assert_compatible_def bindE_def health_version_def)
  next
    case (Inr v)
    then show ?thesis using h set
      by (cases v) (simp_all add: assert_compatible_def bindE_def health_version_def liftE_def py_get_def Let_def
          raiseE_def set_checked_def modifyE_def is_compat_error_def)
  qed
qed

text \<open>What the first call of a client learns about the worker's version. It goes on only when the
  version it saw is in the matrix; a version outside the matrix raises and leaves the check due;
  but a check that saw no version, because the worker could not be reached or answered an error,
  raises once and counts as passed from then on.\<close>

theorem a_failed_check_counts_as_passed:
  assumes "policy_ok (sc_policy c)" and "sc_compat_enabled c" and "\<not> sc_compat_checked c"
  shows "case maybe_compat_check env c of
      (Inr _, c') \<Rightarrow> sc_compat_checked c' \<and>
        (\<exists>v. health_version env (c\<lparr>sc_compat_checked := True\<rparr>) = Some v \<and> is_compatible v)
    | (Inl e, c') \<Rightarrow>
        (if is_compat_error e
         then \<not> sc_compat_checked c' \<and>
           (\<exists>v. health_version env (c\<lparr>sc_compat_checked := True\<rparr>) = Some v \<and> \<not> is_compatible v)
         else health_version env (c\<lparr>sc_compat_checked := True\<rparr>) = None \<and> maybe_compat_check env c' = (Inr (), c'))"
proof -
  let ?c = "c\<lparr>sc_compat_checked := True\<rparr>"
  obtain r c1 where a: "assert_compatible env ?c = (r, c1)" by fastforce
  have run: "maybe_compat_check env c =
      (case r of
         Inr x \<Rightarrow> (Inr x, c1)
       | Inl e \<Rightarrow> (Inl e, if is_compat_error e then c1\<lparr>sc_compat_checked := False\<rparr> else c1))"
    using a assms(2,3)
    by (auto simp: maybe_compat_check_def comp_defs set_checked_def is_compat_error_def
        split: sum.splits sdk_error.splits)
  have spec: "case (r, c1) of
      (Inr _, c') \<Rightarrow> sc_compat_checked c' \<and> (\<exists>v. health_version env ?c = Some v \<and> is_compatible v)
    | (Inl e, c') \<Rightarrow> client_settings c' = client_settings ?c \<and>
        (if is_compat_error e then \<exists>v. e = SE_compatibility v \<and> health_version env ?c = Some v \<and> \<not> is_compatible v
         else health_version env ?c = None)"
    using assert_compatible_spec [of ?c env] assms(1) a by simp
  show ?thesis
  proof (cases r)
    case (Inl e)
    have "maybe_compat_check env c1 = (Inr (), c1)" if "\<not> is_compat_error e"
      using spec Inl that by (simp add: client_settings_def maybe_compat_check_def comp_defs)
    then show ?thesis using run spec Inl by (auto split: if_splits)
  next
    case (Inr x)
    then show ?thesis using run spec by simp
  qed
qed

definition ex_down_env :: sdk_env where
  "ex_down_env = ex_sdk_env\<lparr>sd_http := \<lambda>_ _. Inl ''ConnectError()''\<rparr>"

lemma ex_client_ok:
  "policy_ok (sc_policy ex_client_state)" "sc_compat_enabled ex_client_state" "\<not> sc_compat_checked ex_client_state"
  by (simp_all add: policy_ok_def ex_client_state_def default_policy_def)

lemma ex_down_health: "health_version ex_down_env (ex_client_state\<lparr>sc_compat_checked := True\<rparr>) = None"
proof -
  let ?c = "ex_client_state\<lparr>sc_compat_checked := True\<rparr>"
  have p: "policy_ok (sc_policy ?c)" using ex_client_ok(1) by simp
  have m: "nat (rp_max_attempts default_policy) = Suc (Suc (Suc 0))" by (simp add: default_policy_def)
  have "fst (request ex_down_env ''GET'' ''/health'' None (Some True) ?c) =
      Inl (SE_transport ''GET /health transport error: ConnectError()'')"
    using request_spec [OF p, where meth = "''GET''" and retry = "Some True" and env = ex_down_env
        and path = "''/health''" and body = None]
    by (simp add: Let_def should_retry_def ex_client_state_def m answers_Suc answers_0 retried_def ex_down_env_def
        ex_sdk_env_def answer_of_def)
  then show ?thesis by (auto simp: health_version_def get_health_def raw_get_def bindE_def split: sum.splits prod.splits)
qed

lemma a_failed_check_witness:
  "\<exists>e c'. maybe_compat_check ex_down_env ex_client_state = (Inl e, c') \<and> \<not> is_compat_error e \<and>
     maybe_compat_check ex_down_env c' = (Inr (), c')"
proof -
  obtain r c' where "maybe_compat_check ex_down_env ex_client_state = (r, c')" by fastforce
  then show ?thesis
    using a_failed_check_counts_as_passed [OF ex_client_ok, of ex_down_env]
    by (cases r) (simp_all add: ex_down_health split: if_splits)
qed

section \<open>Downloads\<close>

lemma part_path_neq [simp]: "part_path p \<noteq> p" "p \<noteq> part_path p"
  by (simp_all add: part_path_def)

lemma write_chunks_spec:
  assumes "sc_files c tmp = Some w"
  shows "\<exists>r x. write_chunks env tmp w chs c = (r, c\<lparr>sc_files := (sc_files c)(tmp := Some x)\<rparr>) \<and>
    (case r of Inl _ \<Rightarrow> True | Inr _ \<Rightarrow> x = w @ concat chs)"
  using assms
proof (induction chs arbitrary: w c)
  case Nil
  have "sc_files c = (sc_files c)(tmp := Some w)" using Nil by (simp add: fun_upd_idem)
  then show ?case by (intro exI [of _ "Inr ()"] exI [of _ w]) (simp add: retE_def)
next
  case (Cons ch chs)
  show ?case
  proof (cases "sd_disk env Op_write tmp")
    case None
    define c2 where "c2 = c\<lparr>sc_files := (sc_files c)(tmp := Some (w @ ch))\<rparr>"
    have run: "write_chunks env tmp w (ch # chs) c = write_chunks env tmp (w @ ch) chs c2"
      using None by (simp add: comp_defs disk_def set_file_def c2_def split: sum.splits)
    have upd: "c2\<lparr>sc_files := (sc_files c2)(tmp := Some x)\<rparr> = c\<lparr>sc_files := (sc_files c)(tmp := Some x)\<rparr>" for x
      by (simp add: c2_def)
    have "sc_files c2 tmp = Some (w @ ch)" by (simp add: c2_def)
    from Cons.IH [OF this] show ?thesis unfolding run upd concat.simps append_assoc .
  next
    case (Some m)
    have "sc_files c = (sc_files c)(tmp := Some w)" using Cons.prems by (simp add: fun_upd_idem)
    then show ?thesis using Some
      by (intro exI [of _ "Inl (SE_os m)"] exI [of _ w]) (simp add: comp_defs disk_def)
  qed
qed

lemma save_download_spec:
  "case save_download env path chunks broken c of
     (Inr _, c') \<Rightarrow> broken = None \<and> sc_files c' = (sc_files c)(path := Some (concat chunks), part_path path := None)
   | (Inl _, c') \<Rightarrow> \<exists>x. sc_files c' = (sc_files c)(part_path path := x) \<and>
       (x = None \<or> sd_disk env Op_unlink (part_path path) \<noteq> None)"
proof (cases "sd_disk env Op_open (part_path path)")
  case (Some m)
  then show ?thesis
    by (cases "sd_disk env Op_unlink (part_path path)")
      (auto simp: save_download_def comp_defs disk_def set_file_def Let_def intro: exI [of _ "sc_files c (part_path path)"])
next
  case None
  let ?tmp = "part_path path"
  define c2 where "c2 = c\<lparr>sc_files := (sc_files c)(?tmp := Some [])\<rparr>"
  have "sc_files c2 ?tmp = Some []" by (simp add: c2_def)
  from write_chunks_spec [OF this, of env chunks]
  obtain r x where w: "write_chunks env ?tmp [] chunks c2 = (r, c2\<lparr>sc_files := (sc_files c2)(?tmp := Some x)\<rparr>)"
      "case r of Inl _ \<Rightarrow> True | Inr _ \<Rightarrow> x = [] @ concat chunks"
    by blast
  define c3 where "c3 = c2\<lparr>sc_files := (sc_files c2)(?tmp := Some x)\<rparr>"
  have f3: "sc_files c3 = (sc_files c)(?tmp := Some x)" by (simp add: c3_def c2_def)
  have o: "disk env Op_open ?tmp c = (Inr (), c)" using None by (simp add: disk_def retE_def)
  have s2: "set_file ?tmp (Some []) c = (Inr (), c2)" by (simp add: set_file_def modifyE_def c2_def)
  have steps: "thenE (disk env Op_open ?tmp) (thenE (set_file ?tmp (Some [])) m) c = m c2" for m
    using o s2 by (simp add: thenE_def bindE_def)
  define body where "body = thenE (write_chunks env ?tmp [] chunks)
        (thenE (case broken of None \<Rightarrow> retE () | Some m \<Rightarrow> raiseE (download_failed m))
        (thenE (disk env Op_replace path) (bindE (getE (\<lambda>c. sc_files c ?tmp))
          (\<lambda>content. thenE (set_file path content) (set_file ?tmp None)))))"
  have save: "save_download env path chunks broken =
      tryE (thenE (disk env Op_open ?tmp) (thenE (set_file ?tmp (Some [])) body))
        (\<lambda>e. thenE (tryE (thenE (disk env Op_unlink ?tmp) (set_file ?tmp None)) (\<lambda>_. retE ())) (raiseE e))"
    by (simp add: save_download_def Let_def body_def)
  have clean: "\<exists>c'. thenE (tryE (thenE (disk env Op_unlink ?tmp) (set_file ?tmp None)) (\<lambda>_. retE ())) (raiseE e) c3 = (Inl e, c') \<and>
      (\<exists>y. sc_files c' = (sc_files c)(?tmp := y) \<and> (y = None \<or> sd_disk env Op_unlink ?tmp \<noteq> None))" for e
    by (cases "sd_disk env Op_unlink ?tmp") (auto simp: comp_defs disk_def set_file_def f3)
  show ?thesis
  proof (cases "r = Inr () \<and> broken = None \<and> sd_disk env Op_replace path = None")
    case True
    then have "body c2 = (Inr (), c3\<lparr>sc_files := (sc_files c3)(path := sc_files c3 ?tmp, ?tmp := None)\<rparr>)"
      using w by (simp add: body_def thenE_def bindE_def disk_def retE_def getE_def set_file_def modifyE_def flip: c3_def)
    then have "save_download env path chunks broken c =
        (Inr (), c3\<lparr>sc_files := (sc_files c3)(path := sc_files c3 ?tmp, ?tmp := None)\<rparr>)"
      unfolding save by (simp add: tryE_def steps)
    moreover have "x = concat chunks" using True w(2) by simp
    ultimately show ?thesis using True f3 by (simp add: fun_upd_twist)
  next
    case False
    then obtain e where "body c2 = (Inl e, c3)"
      using w by (cases r; cases broken; cases "sd_disk env Op_replace path")
        (auto simp: body_def thenE_def bindE_def disk_def retE_def raiseE_def simp flip: c3_def)
    then obtain c' y where "save_download env path chunks broken c = (Inl e, c')"
        "sc_files c' = (sc_files c)(?tmp := y)" "y = None \<or> sd_disk env Op_unlink ?tmp \<noteq> None"
      using clean [of e] unfolding save tryE_def steps by auto
    then show ?thesis by auto
  qed
qed

lemma maybe_check_files [preserves_intros]:
  "preserves (\<lambda>c. (sc_files c, sc_base_url c, sc_token c)) (maybe_compat_check env)"
proof -
  have r: "preserves (\<lambda>c. (sc_files c, sc_base_url c, sc_token c)) (request env meth path body retry)" for meth path body retry
    by (rule preservesI) (use preservesD [OF request_settings] in \<open>simp add: client_settings_def\<close>)
  have s: "preserves (\<lambda>c. (sc_files c, sc_base_url c, sc_token c)) (set_checked b)" for b
    unfolding set_checked_def by (rule preserves_modify) simp
  show ?thesis
    unfolding maybe_compat_check_def assert_compatible_def get_health_def raw_get_def Let_def
    by (intro preserves_intros r s preserves_bind) (auto intro!: preserves_intros s split: sdk_error.splits)
qed

lemma store_response_spec:
  "case store_response env path dl c of
     (Inr p, c') \<Rightarrow> p = path \<and> (\<exists>chunks. dl = Dl_chunks chunks None \<and>
       sc_files c' = (sc_files c)(path := Some (concat chunks), part_path path := None))
   | (Inl _, c') \<Rightarrow> \<exists>x. sc_files c' = (sc_files c)(part_path path := x)"
proof (cases "\<exists>chunks broken. dl = Dl_chunks chunks broken \<and> path \<noteq> ''/''")
  case False
  then have "\<exists>e. store_response env path dl c = (Inl e, c)"
    by (auto simp: store_response_def raiseE_def split: download.splits sum.splits)
  then obtain e where e: "store_response env path dl c = (Inl e, c)" by blast
  have "\<exists>x. sc_files c = (sc_files c)(part_path path := x)"
    by (rule exI [of _ "sc_files c (part_path path)"]) simp
  then show ?thesis by (simp add: e)
next
  case True
  then obtain chunks broken where d: "dl = Dl_chunks chunks broken" "path \<noteq> ''/''" by blast
  obtain r c' where "save_download env path chunks broken c = (r, c')" by fastforce
  then show ?thesis
    using save_download_spec [where env = env and path = path and c = c and chunks = chunks and broken = broken] d
    by (cases r) (auto simp: store_response_def thenE_def bindE_def retE_def)
qed

text \<open>C16: A download is all or nothing at its destination: when it returns, the file at the resolved path is
  the concatenation of the chunks of a complete stream, nothing else has changed and no part file is
  left; when it raises, for whatever reason, no file but the part file next to it has changed.
  An existing file is replaced only if asked.\<close>

theorem download_is_all_or_nothing:
  "let path = sd_resolve env dest; part = part_path path in
   case download_artifact_to env task_id artifact_id dest overwrite c of
     (Inr p, c') \<Rightarrow> p = path \<and> artifact_id_ok artifact_id \<and> (overwrite \<or> sc_files c path = None) \<and>
       (\<exists>chunks. sd_download env (sc_base_url c @ task_path task_id (''/artifacts/'' @ artifact_id))
             (bearer_headers (sc_token c)) = Dl_chunks chunks None \<and>
          sc_files c' = (sc_files c)(path := Some (concat chunks), part := None))
   | (Inl _, c') \<Rightarrow> \<exists>x. sc_files c' = (sc_files c)(part := x)"
proof -
  let ?path = "sd_resolve env dest"
  let ?dl = "sd_download env (sc_base_url c @ task_path task_id (''/artifacts/'' @ artifact_id)) (bearer_headers (sc_token c))"
  let ?taken = "(?path \<in> dom (sc_files c) \<or> sd_is_dir env ?path) \<and> \<not> overwrite"
  obtain r c1 where m: "maybe_compat_check env c = (r, c1)" by fastforce
  have f: "sc_files c1 = sc_files c" "sc_base_url c1 = sc_base_url c" "sc_token c1 = sc_token c"
    using preservesD [OF maybe_check_files, of env c] m by simp_all
  have same: "\<exists>x. sc_files c = (sc_files c)(part_path ?path := x)"
    by (rule exI [of _ "sc_files c (part_path ?path)"]) simp
  show ?thesis
  proof (cases "artifact_id_ok artifact_id \<and> r = Inr () \<and> \<not> ?taken \<and> sd_disk env Op_mkdir ?path = None")
    case True
    then have run: "download_artifact_to env task_id artifact_id dest overwrite c = store_response env ?path ?dl c1"
      using m f by (auto simp: download_artifact_to_def validate_artifact_id_def thenE_def bindE_def getE_def retE_def
          disk_def Let_def dom_def)
    have "overwrite \<or> sc_files c ?path = None" using True by (auto simp: dom_def)
    then show ?thesis
      using store_response_spec [where env = env and path = ?path and dl = ?dl and c = c1] True f by (auto simp: run Let_def split: sum.splits prod.splits)
  next
    case False
    then have "\<exists>e c'. download_artifact_to env task_id artifact_id dest overwrite c = (Inl e, c') \<and> sc_files c' = sc_files c"
      using m f by (cases r) (auto simp: download_artifact_to_def validate_artifact_id_def thenE_def bindE_def getE_def
          retE_def raiseE_def disk_def Let_def)
    then obtain e c' where "download_artifact_to env task_id artifact_id dest overwrite c = (Inl e, c')" "sc_files c' = sc_files c"
      by blast
    then show ?thesis using same by (simp add: Let_def)
  qed
qed

end
