(* ===== verification/End_To_End.thy ===== *)
theory End_To_End
  imports Sse_Server Sdk_Sse
begin

text \<open>
  The event stream from the worker's table to the SDK's caller: what \<open>event_generator\<close> of
  \<open>src/worker/api/routes.py\<close> sends is what \<open>src/worker_sdk/sse.py\<close> yields. In between is the wire: the
  SSE libraries of both ends, of which only this is used, that the events arrive in order with their
  \<open>id\<close>, \<open>event\<close> and \<open>data\<close>, and that an event sent without an id has at the client no id or, as the
  SSE standard has it, that of the event before.
\<close>

fun decodes :: "sse_frame list \<Rightarrow> string \<Rightarrow> server_sent_event list \<Rightarrow> bool" where
  "decodes [] ident xs \<longleftrightarrow> xs = []"
| "decodes (f # fs) ident xs \<longleftrightarrow>
     (case xs of
        [] \<Rightarrow> False
      | x # rest \<Rightarrow> ss_event x = sf_event f \<and> ss_data x = JText (sf_data f) \<and>
          (case sf_id f of
             Some i \<Rightarrow> ss_id x = i \<and> decodes fs i rest
           | None \<Rightarrow> ss_id x \<in> {[], ident} \<and> decodes fs ident rest))"

text \<open>An event of the SDK as an entry of the worker's log, and the entries the worker writes: a payload
  that is an object, and no heartbeat, which is never stored.\<close>

definition sdk_view :: "worker_event \<Rightarrow> view" where
  "sdk_view e = (we_cursor e, we_kind e, JText (JObj (we_payload e)))"

definition stored_view :: "view \<Rightarrow> bool" where
  "stored_view v \<longleftrightarrow> (case v of (c, k, t) \<Rightarrow> k \<noteq> [] \<and> k \<noteq> HEARTBEAT_KIND \<and> (case t of JText (JObj _) \<Rightarrow> True | _ \<Rightarrow> False))"

text \<open>Both ends agree on the terminal kinds.\<close>

lemma terminal_kinds_agree: "terminal_view (sdk_view e) \<longleftrightarrow> is_terminal_kind e"
  by (auto simp: terminal_view_def sdk_view_def is_terminal_kind_def SDK_TERMINAL_KINDS_def TERMINAL_EVENT_KINDS_def)

lemma consume_decoded:
  assumes "decodes (map sse_dict items) ident xs" and "list_all stored_view (map ev_view (item_events items))"
    and "ident \<noteq> [] \<Longrightarrow> py_int ident = pos"
  shows "\<exists>evs c t. consume False pos xs = (evs, c, t) \<and>
    map sdk_view evs = take_until terminal_view (map ev_view (item_events items)) \<and>
    (t \<longleftrightarrow> (\<exists>v \<in> set (map ev_view (item_events items)). terminal_view v))"
  using assms
proof (induction items arbitrary: ident pos xs)
  case Nil
  then show ?case by (intro exI [of _ "[]"] exI [of _ pos] exI [of _ False]) simp
next
  case (Cons it items)
  obtain x rest where x: "xs = x # rest" using Cons.prems(1) by (cases xs) simp_all
  show ?case
  proof (cases it)
    case (Item_heartbeat t)
    have ev: "ss_event x = HEARTBEAT_KIND" "ss_id x \<in> {[], ident}" "decodes (map sse_dict items) ident rest"
      using Cons.prems(1) by (simp_all add: x Item_heartbeat HEARTBEAT_KIND_def)
    have "consume False pos (x # rest) = consume False pos rest"
      using ev(1,2) Cons.prems(3)
      by (auto simp: parse_sse_event_def HEARTBEAT_KIND_def split: option.splits)
    then show ?thesis using Cons.IH [OF ev(3) _ Cons.prems(3)] Cons.prems(2) by (simp add: x Item_heartbeat)
  next
    case (Item_event e)
    let ?i = "show_int (ev_cursor e)"
    have ev: "ss_event x = event_kind_value (ev_kind e)" "ss_data x = JText (ev_payload e)" "ss_id x = ?i"
        "decodes (map sse_dict items) ?i rest"
      using Cons.prems(1) by (simp_all add: x Item_event)
    have st: "stored_view (ev_view e)" using Cons.prems(2) by (simp add: Item_event)
    then obtain d where d: "ev_payload e = JObj d"
      by (auto simp: stored_view_def ev_view_def split: json.splits)
    have k: "event_kind_value (ev_kind e) \<noteq> []" "event_kind_value (ev_kind e) \<noteq> HEARTBEAT_KIND"
      using st by (simp_all add: stored_view_def ev_view_def)
    define we where "we = \<lparr>we_cursor = ev_cursor e, we_kind = event_kind_value (ev_kind e), we_payload = d\<rparr>"
    have i0: "?i \<noteq> []" by (simp add: show_int_def)
    have p: "parse_sse_event x = Some we"
      using k(1) i0 by (simp add: parse_sse_event_def ev py_int_show_int sse_payload_def d we_def)
    have v: "sdk_view we = ev_view e" by (simp add: sdk_view_def ev_view_def we_def d)
    have tk: "is_terminal_kind we \<longleftrightarrow> terminal_view (ev_view e)" using terminal_kinds_agree [of we] v by simp
    have nh: "we_kind we \<noteq> HEARTBEAT_KIND" "we_cursor we = ev_cursor e" using k by (simp_all add: we_def)
    show ?thesis
    proof (cases "terminal_view (ev_view e)")
      case True
      then show ?thesis using p v tk nh
        by (intro exI [of _ "[we]"] exI [of _ "Some (ev_cursor e)"] exI [of _ True])
          (simp add: x Item_event del: terminal_view_ev)
    next
      case False
      obtain evs c t where "consume False (Some (ev_cursor e)) rest = (evs, c, t)"
          "map sdk_view evs = take_until terminal_view (map ev_view (item_events items))"
          "t \<longleftrightarrow> (\<exists>v \<in> set (map ev_view (item_events items)). terminal_view v)"
        using Cons.IH [OF ev(4), of "Some (ev_cursor e)"] Cons.prems(2) by (auto simp: Item_event py_int_show_int)
      then show ?thesis using p v tk nh False by (simp add: x Item_event del: terminal_view_ev)
    qed
  qed
qed

text \<open>C2: End to end: when the SDK connects with its cursor \<open>k\<close> and the connection holds, what the worker's
  generator sends and the SDK reads back is, event for event, the task's log after \<open>k\<close> up to its first
  terminal event, with the kinds and payloads as stored, and the SDK's iterator stops there exactly if
  there is one. Heartbeats between them leave no trace.\<close>

theorem events_survive_the_wire:
  assumes "calm w" and "k \<le> length (log_view tid w)" and "log_grows tid env0"
    and "\<forall>x \<in> set waits. log_grows tid (fst x)" and "(case cur of None \<Rightarrow> 0 | Some n \<Rightarrow> n) = int k"
    and "event_generator tid st (last_event_id (map_of (bearer_sse_headers token cur) ''Last-Event-ID''))
      hb ds env0 d waits w = (items, e, w')" and "e \<noteq> E_disconnected"
    and "\<forall>v \<in> set (log_view tid (if st \<in> TERMINAL_STATUSES then w else w')). stored_view v"
    and "decodes (map sse_dict items) [] xs"
  shows "\<exists>evs c t. consume False cur xs = (evs, c, t) \<and>
    map sdk_view evs = take_until terminal_view (drop k (log_view tid (if st \<in> TERMINAL_STATUSES then w else w'))) \<and>
    (t \<longleftrightarrow> (\<exists>v \<in> set (drop k (log_view tid (if st \<in> TERMINAL_STATUSES then w else w'))). terminal_view v))"
proof -
  let ?L = "drop k (log_view tid (if st \<in> TERMINAL_STATUSES then w else w'))"
  have "last_event_id (map_of (bearer_sse_headers token cur) ''Last-Event-ID'') = int k"
    using assms(5) by (cases cur) (simp_all add: bearer_sse_headers_def last_event_id_def py_int_show_int)
  then have views: "map ev_view (item_events items) = take_until terminal_view ?L"
    using stream_complete [OF assms(1-4) _ assms(7)] assms(6) by simp
  have "set (take_until terminal_view ?L) \<subseteq> set ?L"
    using set_mono_prefix [OF prefix_take_until] .
  also have "\<dots> \<subseteq> set (log_view tid (if st \<in> TERMINAL_STATUSES then w else w'))" by (rule set_drop_subset)
  finally have "list_all stored_view (map ev_view (item_events items))"
    unfolding views using assms(8) by (auto simp: list_all_iff)
  from consume_decoded [OF assms(9) this, of cur]
  obtain evs c t where r: "consume False cur xs = (evs, c, t)"
      "map sdk_view evs = take_until terminal_view (take_until terminal_view ?L)"
      "t \<longleftrightarrow> (\<exists>v \<in> set (take_until terminal_view ?L). terminal_view v)"
    by (auto simp: views)
  have idem: "take_until terminal_view (take_until terminal_view vs) = take_until terminal_view vs" for vs
    by (induction vs) simp_all
  have some: "(\<exists>v \<in> set (take_until terminal_view vs). terminal_view v) \<longleftrightarrow> (\<exists>v \<in> set vs. terminal_view v)" for vs
    by (induction vs) auto
  show ?thesis using r by (simp add: idem some)
qed

text \<open>A client that leaves out the id of an event without one.\<close>

definition plain_event :: "sse_frame \<Rightarrow> server_sent_event" where
  "plain_event f = \<lparr>ss_id = (case sf_id f of Some i \<Rightarrow> i | None \<Rightarrow> []), ss_event = sf_event f, ss_data = JText (sf_data f)\<rparr>"

lemma decodes_plain: "decodes fs ident (map plain_event fs)"
  by (induction fs arbitrary: ident) (simp_all add: plain_event_def split: option.splits)

lemma events_survive_the_wire_witness:
  "\<exists>items e w'. event_generator ''t1'' S_completed
       (last_event_id (map_of (bearer_sse_headers ''secret'' None) ''Last-Event-ID'')) 15 [] id False [] ex_world = (items, e, w') \<and>
     (\<exists>evs c t. consume False None (map plain_event (map sse_dict items)) = (evs, c, t) \<and>
       map sdk_view evs = take_until terminal_view (log_view ''t1'' ex_world))"
proof -
  obtain items e w' where g: "event_generator ''t1'' S_completed
       (last_event_id (map_of (bearer_sse_headers ''secret'' None) ''Last-Event-ID'')) 15 [] id False [] ex_world = (items, e, w')"
    by (metis prod.exhaust)
  have calm: "calm ex_world" by (simp add: calm_def ex_world_db_ok)
  have id: "log_grows ''t1'' id" by (simp add: log_grows_def)
  have e: "e \<noteq> E_disconnected"
    using g by (auto simp: event_generator_def Let_def TERMINAL_STATUSES_def dest: replay_no_answers
      split: prod.splits sum.splits sse_end.splits if_splits)
  have st: "\<forall>v \<in> set (log_view ''t1'' (if S_completed \<in> TERMINAL_STATUSES then ex_world else w')). stored_view v"
    by (simp add: TERMINAL_STATUSES_def log_view_def row_view_def stored_view_def ex_event_row_def HEARTBEAT_KIND_def)
  show ?thesis
    using g events_survive_the_wire [OF calm _ id _ _ g e st decodes_plain, of 0] by (auto simp: TERMINAL_STATUSES_def)
qed

end
