(* ===== verification/Scrubbing.thy ===== *)
theory Scrubbing
  imports Py_Strings
begin

text \<open>
  \<open>scrub\<close> of \<open>src/worker/adapters/opencode/interceptors/conversations.py\<close>: the patterns of the
  secrets as matchers, \<open>re.sub\<close> as the scan from left to right, the seven scrubbers one after the
  other, and that no key of the three prefixed kinds survives them.
\<close>

section \<open>Patterns and scrubbers\<close>

text \<open>A pattern is a matcher: from the character before the position, if any, and the text at the
  position it gives the length of the match. All the patterns are deterministic, so that their greedy
  match is the only one.\<close>

type_synonym matcher = "char option \<Rightarrow> string \<Rightarrow> nat option"

definition is_alnum :: "char \<Rightarrow> bool" where
  "is_alnum c \<longleftrightarrow> is_upper c \<or> is_lower c \<or> is_digit c"

definition is_word :: "char \<Rightarrow> bool" where
  "is_word c \<longleftrightarrow> is_alnum c \<or> c = CHR ''_''"

text \<open>The two sides of \<open>\b\<close> before and after a word character.\<close>

definition starts_word :: "char option \<Rightarrow> bool" where
  "starts_word prev = (case prev of None \<Rightarrow> True | Some c \<Rightarrow> \<not> is_word c)"

definition ends_word :: "string \<Rightarrow> bool" where
  "ends_word rest = (case rest of [] \<Rightarrow> True | c # _ \<Rightarrow> \<not> is_word c)"

definition run_length :: "(char \<Rightarrow> bool) \<Rightarrow> string \<Rightarrow> nat" where
  "run_length P s = length (takeWhile P s)"

text \<open>A literal prefix after a word boundary and at least \<open>n\<close> characters of a class.\<close>

definition prefixed :: "string \<Rightarrow> (char \<Rightarrow> bool) \<Rightarrow> nat \<Rightarrow> matcher" where
  "prefixed p P n prev s =
     (if starts_word prev \<and> starts_with p s \<and> n \<le> run_length P (drop (length p) s)
      then Some (length p + run_length P (drop (length p) s)) else None)"

definition first_match :: "matcher list \<Rightarrow> matcher" where
  "first_match ms prev s = (case filter (\<lambda>m. m \<noteq> None) (map (\<lambda>m. m prev s) ms) of [] \<Rightarrow> None | m # _ \<Rightarrow> m)"

definition match_openai :: matcher where
  "match_openai = prefixed ''sk-'' is_alnum 20"

definition match_stripe :: matcher where
  "match_stripe = first_match [prefixed ''sk_live_'' is_alnum 16, prefixed ''sk_test_'' is_alnum 16]"

definition match_slack :: matcher where
  "match_slack = first_match (map (\<lambda>c. prefixed (''xox'' @ [c, CHR ''-'']) (\<lambda>x. is_alnum x \<or> x = CHR ''-'') 10) ''abpr'')"

text \<open>\<open>\bAKIA[0-9A-Z]{16}\b\<close>\<close>

definition match_aws :: matcher where
  "match_aws prev s =
     (if starts_word prev \<and> starts_with ''AKIA'' s \<and> 20 \<le> length s \<and>
         list_all (\<lambda>c. is_digit c \<or> is_upper c) (take 16 (drop 4 s)) \<and> ends_word (drop 20 s)
      then Some 20 else None)"

text \<open>\<open>\bgh[pousr]_[A-Za-z0-9]{36,255}\b\<close>: only the whole run can end at a boundary.\<close>

definition match_github :: matcher where
  "match_github prev s =
     (let n = run_length is_alnum (drop 4 s) in
      if starts_word prev \<and> (\<exists>c \<in> set ''pousr''. starts_with (''gh'' @ [c, CHR ''_'']) s) \<and> 36 \<le> n \<and> n \<le> 255 \<and>
         ends_word (drop (4 + n) s)
      then Some (4 + n) else None)"

text \<open>\<open>\b\d{17}[\dXx]\b\<close>\<close>

definition match_id :: matcher where
  "match_id prev s =
     (if starts_word prev \<and> 18 \<le> length s \<and> list_all is_digit (take 17 s) \<and>
         (is_digit (s ! 17) \<or> s ! 17 \<in> {CHR ''X'', CHR ''x''}) \<and> ends_word (drop 18 s)
      then Some 18 else None)"

text \<open>\<open>(?i)Bearer\s+[A-Za-z0-9._\-]{20,}\<close>\<close>

definition match_bearer :: matcher where
  "match_bearer prev s =
     (let sp = run_length is_space (drop 6 s);
          n = run_length (\<lambda>c. is_alnum c \<or> c \<in> {CHR ''.'', CHR ''_'', CHR ''-''}) (drop (6 + sp) s) in
      if starts_with ''bearer'' (str_lower s) \<and> 1 \<le> sp \<and> 20 \<le> n then Some (6 + sp + n) else None)"

text \<open>\<open>re.sub\<close>: from left to right, each match replaced, the scan going on behind it.\<close>

function re_sub :: "matcher \<Rightarrow> string \<Rightarrow> char option \<Rightarrow> string \<Rightarrow> string" where
  "re_sub m r prev [] = []"
| "re_sub m r prev (c # s) =
     (case m prev (c # s) of
        Some (Suc n) \<Rightarrow> r @ re_sub m r (Some (last (take (Suc n) (c # s)))) (drop n s)
      | _ \<Rightarrow> c # re_sub m r (Some c) s)"
  by pat_completeness auto
termination by (relation "measure (\<lambda>(m, r, prev, s). length s)") auto

definition SCRUBBERS :: "(matcher \<times> string) list" where
  "SCRUBBERS =
     [(match_openai, ''<REDACTED:api_key>''), (match_stripe, ''<REDACTED:api_key>''),
      (match_slack, ''<REDACTED:slack_token>''), (match_aws, ''<REDACTED:aws_access_key>''),
      (match_github, ''<REDACTED:github_token>''), (match_id, ''<REDACTED:id_number>''),
      (match_bearer, ''Bearer <REDACTED>'')]"

definition scrub :: "string \<Rightarrow> string" where
  "scrub text = fold (\<lambda>(m, r) out. re_sub m r None out) SCRUBBERS text"

section \<open>What scrubbing removes\<close>

text \<open>\<open>clear t prev s\<close>: no position of the text \<open>s\<close>, read after \<open>prev\<close>, has a match of \<open>t\<close>.\<close>

fun clear :: "matcher \<Rightarrow> char option \<Rightarrow> string \<Rightarrow> bool" where
  "clear t prev [] = True"
| "clear t prev (c # s) = (t prev (c # s) = None \<and> clear t (Some c) s)"

definition avoids :: "string \<Rightarrow> string \<Rightarrow> bool" where
  "avoids p r \<longleftrightarrow> list_all (\<lambda>v. v = [] \<or> \<not> prefix p v \<and> \<not> prefix v p) (suffixes r)"

text \<open>Replacing the matches of \<open>m\<close> by \<open>r\<close> brings up no new match of the pattern with prefix \<open>p\<close> and
  class \<open>P\<close>: the replacement has no such prefix in it, ends outside words and makes no run longer.\<close>

definition harmless :: "string \<Rightarrow> (char \<Rightarrow> bool) \<Rightarrow> matcher \<Rightarrow> string \<Rightarrow> bool" where
  "harmless p P m r \<longleftrightarrow> avoids p r \<and> r \<noteq> [] \<and> hd r \<notin> set p \<and> \<not> is_word (last r) \<and>
     (\<forall>prev v k x. m prev v = Some k \<longrightarrow> run_length P (r @ x) \<le> run_length P v)"

lemma harmlessD:
  assumes "harmless p P m r"
  shows "avoids p r" "r \<noteq> []" "hd r \<notin> set p" "\<not> is_word (last r)"
    and "m prev v = Some k \<Longrightarrow> run_length P (r @ x) \<le> run_length P v"
  using assms by (auto simp: harmless_def)

lemma starts_with_prefix: "starts_with p s \<longleftrightarrow> prefix p s"
  by (auto simp: starts_with_def prefix_def) (metis append_take_drop_id)

lemma re_sub_miss:
  "m prev (c # s) = None \<or> m prev (c # s) = Some 0 \<Longrightarrow> re_sub m r prev (c # s) = c # re_sub m r (Some c) s"
  by auto

lemma re_sub_hit:
  "m prev (c # s) = Some (Suc k) \<Longrightarrow>
   re_sub m r prev (c # s) = r @ re_sub m r (Some (last (take (Suc k) (c # s)))) (drop k s)"
  by simp

lemma re_sub_cases:
  obtains "m prev (c # s) = None \<or> m prev (c # s) = Some 0" | k where "m prev (c # s) = Some (Suc k)"
  by (metis not0_implies_Suc option.exhaust)

declare re_sub.simps(2) [simp del]

text \<open>Induction along the scan.\<close>

lemma scan_induct:
  assumes "\<And>prev. Q prev []"
    and "\<And>prev c s. m prev (c # s) = None \<or> m prev (c # s) = Some 0 \<Longrightarrow> Q (Some c) s \<Longrightarrow> Q prev (c # s)"
    and "\<And>prev c s k. m prev (c # s) = Some (Suc k) \<Longrightarrow> Q (Some (last (take (Suc k) (c # s)))) (drop k s) \<Longrightarrow> Q prev (c # s)"
  shows "Q prev s"
proof (induction "length s" arbitrary: prev s rule: less_induct)
  case less
  show ?case
  proof (cases s)
    case (Cons c t)
    show ?thesis
      unfolding Cons
    proof (cases rule: re_sub_cases [of m prev c t])
      case 1
      then show "Q prev (c # t)" using assms(2) less [of t] Cons by simp
    next
      case (2 k)
      then show "Q prev (c # t)" using assms(3) less [of "drop k t"] Cons by simp
    qed
  qed (simp add: assms(1))
qed

lemma starts_re_sub:
  assumes "starts_with p (re_sub m r prev s)" and "r \<noteq> []" and "hd r \<notin> set p"
  shows "starts_with p s \<and> (\<exists>q. drop (length p) (re_sub m r prev s) = re_sub m r q (drop (length p) s))"
  using assms
proof (induction p arbitrary: prev s)
  case Nil
  then show ?case by (auto simp: starts_with_def)
next
  case (Cons a p)
  obtain c s' where s: "s = c # s'" using Cons.prems(1) by (cases s) (simp_all add: starts_with_def)
  show ?case
  proof (cases rule: re_sub_cases [of m prev c s'])
    case 1
    then have "re_sub m r prev s = c # re_sub m r (Some c) s'" by (simp add: s re_sub_miss)
    then show ?thesis using Cons.IH [of "Some c" s'] Cons.prems by (auto simp: s starts_with_def)
  next
    case (2 k)
    then have "hd (re_sub m r prev s) = hd r" using Cons.prems(2) by (simp add: s re_sub_hit hd_append)
    moreover have "hd (re_sub m r prev s) = a"
      using Cons.prems(1) by (cases "re_sub m r prev s") (simp_all add: starts_with_def)
    ultimately show ?thesis using Cons.prems(3) by simp
  qed
qed

lemma run_re_sub:
  assumes "\<And>prev v k x. m prev v = Some k \<Longrightarrow> run_length P (r @ x) \<le> run_length P v"
  shows "run_length P (re_sub m r prev s) \<le> run_length P s"
proof (induction prev s rule: scan_induct [where m = m])
  case (2 prev c s)
  then show ?case by (simp add: re_sub_miss run_length_def)
next
  case (3 prev c s k)
  then show ?case using assms by (simp add: re_sub_hit)
qed (simp add: run_length_def)

lemma prefixed_re_sub:
  assumes "harmless p P m r" and "p = a # p'" and "prefixed p P n prev (c # re_sub m r q s) \<noteq> None"
  shows "prefixed p P n prev (c # s) \<noteq> None"
proof -
  have ca: "c = a" and st: "starts_with p' (re_sub m r q s)" and w: "starts_word prev"
    and len: "n \<le> run_length P (drop (length p') (re_sub m r q s))"
    using assms(2,3) by (auto simp: prefixed_def starts_with_def split: if_splits)
  have "hd r \<notin> set p'" using harmlessD(3) [OF assms(1)] assms(2) by simp
  from starts_re_sub [OF st harmlessD(2) [OF assms(1)] this]
  obtain q' where "starts_with p' s" "drop (length p') (re_sub m r q s) = re_sub m r q' (drop (length p') s)" by blast
  moreover have "run_length P (re_sub m r q' (drop (length p') s)) \<le> run_length P (drop (length p') s)"
    by (rule run_re_sub) (rule harmlessD(5) [OF assms(1)])
  ultimately show ?thesis
    using assms(2) ca w len
    by (simp add: prefixed_def starts_with_def)
qed

lemma clear_append:
  assumes "avoids p r" and "r \<noteq> []" and "clear (prefixed p P n) (Some (last r)) x"
  shows "clear (prefixed p P n) prev (r @ x)"
  using assms
proof (induction r arbitrary: prev)
  case (Cons c r)
  have no: "\<not> starts_with p (c # r @ x)"
    using Cons.prems(1) prefix_same_cases [of p "(c # r) @ x" "c # r"]
    by (auto simp: avoids_def starts_with_prefix)
  then have "prefixed p P n prev (c # r @ x) = None" by (simp add: prefixed_def)
  moreover have "clear (prefixed p P n) (Some c) (r @ x)"
    using Cons.IH [of "Some c"] Cons.prems by (cases "r = []") (simp_all add: avoids_def)
  ultimately show ?case by simp
qed simp

text \<open>What follows a match: from then on only the class of the character before matters.\<close>

lemma clear_drop_last:
  "clear t prev (c # s) \<Longrightarrow> clear t (Some (last (take (Suc k) (c # s)))) (drop k s)"
proof (induction k arbitrary: prev c s)
  case (Suc k)
  show ?case
  proof (cases s)
    case (Cons d u)
    then show ?thesis using Suc.IH [of "Some c" d u] Suc.prems by simp
  qed (simp add: Suc.prems)
qed simp

text \<open>\<open>calm t m r\<close>: replacing the matches of \<open>m\<close> by \<open>r\<close> brings up no match of \<open>t\<close>, neither at a character that
  stays nor in \<open>r\<close>; and a match of \<open>t\<close> starts with a letter or digit and asks of the character before
  no more than whether a word starts.\<close>

definition calm :: "matcher \<Rightarrow> matcher \<Rightarrow> string \<Rightarrow> bool" where
  "calm t m r \<longleftrightarrow>
     (\<forall>prev v. t prev v \<noteq> None \<longrightarrow> v \<noteq> [] \<and> is_alnum (hd v)) \<and>
     (\<forall>prev prev' v. starts_word prev = starts_word prev' \<longrightarrow> t prev v = t prev' v) \<and>
     (\<forall>prev c s. t prev (c # re_sub m r (Some c) s) \<noteq> None \<longrightarrow> t prev (c # s) \<noteq> None) \<and>
     (\<forall>prev x. clear t (Some (last r)) x \<longrightarrow> clear t prev (r @ x))"

lemma calmD:
  assumes "calm t m r"
  shows "t prev v \<noteq> None \<Longrightarrow> v \<noteq> [] \<and> is_alnum (hd v)"
    and "starts_word prev = starts_word prev' \<Longrightarrow> t prev v = t prev' v"
    and "t prev (c # re_sub m r (Some c) s) \<noteq> None \<Longrightarrow> t prev (c # s) \<noteq> None"
    and "clear t (Some (last r)) x \<Longrightarrow> clear t prev (r @ x)"
  using assms unfolding calm_def by blast+

definition stops :: "matcher \<Rightarrow> bool" where
  "stops m \<longleftrightarrow> (\<forall>prev v k. m prev v = Some k \<longrightarrow> 0 < k \<and> (drop k v = [] \<or> \<not> is_alnum (hd (drop k v))))"

lemma clear_re_sub:
  assumes "calm t m r" and "stops m"
    and "(\<forall>q v. m q v = None \<longrightarrow> t q v = None) \<or> clear t prev s"
    and "starts_word prev' = starts_word prev \<or> s = [] \<or> \<not> is_alnum (hd s)"
  shows "clear t prev' (re_sub m r prev s)"
  using assms(3,4)
proof (induction prev s arbitrary: prev' rule: scan_induct [where m = m])
  case (2 prev c s)
  have miss: "m prev (c # s) = None" using "2.hyps"(1) assms(2) by (auto simp: stops_def)
  have "t prev' (c # re_sub m r (Some c) s) = None"
  proof (rule ccontr)
    assume bad: "t prev' (c # re_sub m r (Some c) s) \<noteq> None"
    then have "is_alnum c" using calmD(1) [OF assms(1)] by fastforce
    then have "starts_word prev' = starts_word prev" using "2.prems"(2) by simp
    then have "t prev (c # s) \<noteq> None" using calmD(2,3) [OF assms(1)] bad by metis
    then show False using miss "2.prems"(1) by auto
  qed
  moreover have "clear t (Some c) (re_sub m r (Some c) s)"
    using "2.IH" [of "Some c"] "2.prems"(1) by auto
  ultimately show ?case using "2.hyps"(1) by (simp add: re_sub_miss)
next
  case (3 prev c s k)
  have fol: "drop k s = [] \<or> \<not> is_alnum (hd (drop k s))"
    using assms(2) "3.hyps"(1) unfolding stops_def by (metis drop_Suc_Cons)
  have "clear t (Some (last r)) (re_sub m r (Some (last (take (Suc k) (c # s)))) (drop k s))"
    using "3.IH" [of "Some (last r)"] "3.prems"(1) fol clear_drop_last [of t prev c s k] by auto
  then show ?case using calmD(4) [OF assms(1)] "3.hyps"(1) by (simp add: re_sub_hit)
qed simp

lemma calm_prefixed:
  assumes "harmless p P m r" and "p = a # p'" and "is_alnum a"
  shows "calm (prefixed p P n) m r"
  unfolding calm_def
proof (intro conjI allI impI)
  fix prev v assume "prefixed p P n prev v \<noteq> None"
  then show "v \<noteq> []" "is_alnum (hd v)"
    using assms(2,3) by (cases v; auto simp: prefixed_def starts_with_def split: if_splits)+
next
  fix prev c s assume "prefixed p P n prev (c # re_sub m r (Some c) s) \<noteq> None"
  then show "prefixed p P n prev (c # s) \<noteq> None" by (rule prefixed_re_sub [OF assms(1,2)])
next
  fix prev x assume "clear (prefixed p P n) (Some (last r)) x"
  then show "clear (prefixed p P n) prev (r @ x)" by (rule clear_append [OF harmlessD(1,2) [OF assms(1)]])
qed (simp add: prefixed_def)

text \<open>What a scrubber's match takes away, and that it stops at the end of a word.\<close>

definition key_class :: "(char \<Rightarrow> bool) \<Rightarrow> bool" where
  "key_class P \<longleftrightarrow> (\<forall>c. is_alnum c \<longrightarrow> P c) \<and> \<not> P CHR ''<'' \<and> \<not> P CHR '' ''"

lemma drop_run: "drop (run_length P s) s = [] \<or> \<not> P (hd (drop (run_length P s) s))"
proof -
  have "drop (run_length P s) s = dropWhile P s" by (simp add: run_length_def dropWhile_eq_drop)
  then show ?thesis by (metis dropWhile_eq_Nil_conv hd_dropWhile)
qed

lemma stops_prefixed:
  assumes "p \<noteq> []" and "\<And>c. is_alnum c \<Longrightarrow> P c"
  shows "stops (prefixed p P n)"
  unfolding stops_def
proof (intro allI impI)
  fix prev v k assume m: "prefixed p P n prev v = Some k"
  define w where "w = drop (length p) v"
  have "k = length p + run_length P w" using m by (simp add: prefixed_def w_def split: if_splits)
  moreover from this have "drop k v = drop (run_length P w) w" by (simp add: w_def add.commute)
  ultimately show "0 < k \<and> (drop k v = [] \<or> \<not> is_alnum (hd (drop k v)))"
    using assms drop_run [of P w] by auto
qed

lemma first_match_simps [simp]:
  "first_match [] prev s = None"
  "first_match (m # ms) prev s = (case m prev s of None \<Rightarrow> first_match ms prev s | Some k \<Rightarrow> Some k)"
  by (simp_all add: first_match_def split: option.splits)

lemma first_match_cases:
  "first_match ms prev s = None \<Longrightarrow> m \<in> set ms \<Longrightarrow> m prev s = None"
  "first_match ms prev s = Some k \<Longrightarrow> \<exists>m \<in> set ms. m prev s = Some k"
proof -
  show "first_match ms prev s = None \<Longrightarrow> m \<in> set ms \<Longrightarrow> m prev s = None"
    by (induction ms) (auto split: option.splits)
  show "first_match ms prev s = Some k \<Longrightarrow> \<exists>m \<in> set ms. m prev s = Some k"
    by (induction ms) (auto split: option.splits)
qed

lemma stops_first: "(\<And>m. m \<in> set ms \<Longrightarrow> stops m) \<Longrightarrow> stops (first_match ms)"
  unfolding stops_def using first_match_cases(2) by metis

lemma ends_word_stops: "ends_word s \<Longrightarrow> s = [] \<or> \<not> is_alnum (hd s)"
  by (cases s) (auto simp: ends_word_def is_word_def)

lemma stops_scrubbers: "list_all (\<lambda>(m, r). stops m) SCRUBBERS"
proof -
  have "stops match_aws" "stops match_id"
    unfolding stops_def match_aws_def match_id_def by (auto split: if_splits dest!: ends_word_stops)
  moreover have "stops match_github"
    unfolding stops_def match_github_def Let_def by (auto split: if_splits dest!: ends_word_stops)
  moreover have "stops match_bearer"
    unfolding stops_def
  proof (intro allI impI)
    fix prev v k assume m: "match_bearer prev v = Some k"
    define P where "P = (\<lambda>c. is_alnum c \<or> c \<in> {CHR ''.'', CHR ''_'', CHR ''-''})"
    define w where "w = drop (6 + run_length is_space (drop 6 v)) v"
    have k: "k = 6 + run_length is_space (drop 6 v) + run_length P w"
      using m by (simp add: match_bearer_def Let_def w_def P_def split: if_splits)
    then have "drop k v = drop (run_length P w) w" by (simp add: w_def add.commute)
    then show "0 < k \<and> (drop k v = [] \<or> \<not> is_alnum (hd (drop k v)))"
      using k drop_run [of P w] by (auto simp: P_def)
  qed
  moreover have "stops match_openai" "stops match_stripe" "stops match_slack"
    unfolding match_openai_def match_stripe_def match_slack_def
    by (auto intro!: stops_prefixed stops_first)
  ultimately show ?thesis by (simp add: SCRUBBERS_def)
qed

lemma lower_alnum: "is_lower (lower_char c) \<Longrightarrow> is_alnum c"
  by (auto simp: lower_char_def is_alnum_def split: if_splits)

lemma bearer_text:
  assumes "match_bearer prev v = Some k"
  obtains u rest where "v = u @ rest" and "str_lower u = ''bearer''" and "list_all is_alnum u" and "length u = 6"
    and "rest \<noteq> []" and "is_space (hd rest)"
proof -
  have "starts_with ''bearer'' (str_lower v)" and sp: "1 \<le> run_length is_space (drop 6 v)"
    using assms by (simp_all add: match_bearer_def Let_def split: if_splits)
  then obtain t where t: "str_lower v = ''bearer'' @ t" by (auto simp: starts_with_iff)
  have lo: "str_lower (take 6 v) = ''bearer''"
    using t by (simp add: str_lower_def flip: take_map)
  have "list_all is_lower (str_lower (take 6 v))" unfolding lo by (simp add: is_lower_def)
  then have al: "list_all is_alnum (take 6 v)" using lower_alnum by (auto simp: str_lower_def list_all_iff)
  have "length (str_lower (take 6 v)) = 6" unfolding lo by simp
  then have len: "length (take 6 v) = 6" by simp
  have "drop 6 v \<noteq> [] \<and> is_space (hd (drop 6 v))"
    using sp by (cases "drop 6 v") (auto simp: run_length_def split: if_splits)
  then show thesis using that [of "take 6 v" "drop 6 v"] lo al len by simp
qed

lemma bearer_run:
  assumes "key_class P" and "match_bearer prev v = Some k"
  shows "6 \<le> run_length P v"
proof -
  from bearer_text [OF assms(2)] obtain u rest where u: "v = u @ rest" "list_all is_alnum u" "length u = 6" by metis
  have "takeWhile P (u @ rest) = u @ takeWhile P rest"
    using u(2) assms(1) by (intro takeWhile_append2) (simp add: list_all_iff key_class_def)
  then show ?thesis using u(1,3) by (simp add: run_length_def)
qed

lemma harmless_scrubbers:
  assumes "key_class P" and "list_all (\<lambda>(m, r). avoids p r \<and> hd r \<notin> set p) SCRUBBERS"
  shows "list_all (\<lambda>(m, r). harmless p P m r) SCRUBBERS"
proof -
  have run: "run_length P (r @ x) \<le> run_length P v" if "(m, r) \<in> set SCRUBBERS" "m prev v = Some k" for m r prev v k x
  proof (cases "hd r = CHR ''<''")
    case True
    moreover have "r \<noteq> []" using that(1) by (auto simp: SCRUBBERS_def)
    ultimately show ?thesis using assms(1) by (cases r) (simp_all add: run_length_def key_class_def)
  next
    case False
    then have "m = match_bearer" "r = ''Bearer <REDACTED>''" using that(1) by (auto simp: SCRUBBERS_def)
    moreover have "run_length P (''Bearer <REDACTED>'' @ x) = 6"
      using assms(1) by (simp add: run_length_def key_class_def is_alnum_def is_upper_def is_lower_def)
    ultimately show ?thesis using bearer_run [OF assms(1)] that(2) by metis
  qed
  have "list_all (\<lambda>(m, r). r \<noteq> [] \<and> \<not> is_word (last r)) SCRUBBERS"
    by (simp add: SCRUBBERS_def is_word_def is_alnum_def is_upper_def is_lower_def is_digit_def)
  then show ?thesis
    using assms(2) run by (auto simp: list_all_iff harmless_def split: prod.splits; blast)
qed

section \<open>No key survives\<close>

definition KEY_PATTERNS :: "(string \<times> (char \<Rightarrow> bool) \<times> nat) list" where
  "KEY_PATTERNS =
     [(''sk-'', is_alnum, 20), (''sk_live_'', is_alnum, 16), (''sk_test_'', is_alnum, 16)] @
     map (\<lambda>c. (''xox'' @ [c, CHR ''-''], \<lambda>x. is_alnum x \<or> x = CHR ''-'', 10)) ''abpr''"

text \<open>A scrubber that takes every match of \<open>t\<close> away, and calm ones behind it.\<close>

lemma clear_fold:
  assumes "list_all (\<lambda>(m, r). calm t m r \<and> stops m) xs"
    and "clear t None s \<or> (\<exists>(m, r) \<in> set xs. \<forall>q v. m q v = None \<longrightarrow> t q v = None)"
  shows "clear t None (fold (\<lambda>(m, r) out. re_sub m r None out) xs s)"
  using assms
proof (induction xs arbitrary: s)
  case (Cons x xs)
  obtain m r where x: "x = (m, r)" by (cases x)
  have h: "calm t m r" "stops m" using Cons.prems(1) x by simp_all
  have "clear t None (re_sub m r None s) \<or> (\<exists>(m, r) \<in> set xs. \<forall>q v. m q v = None \<longrightarrow> t q v = None)"
    using Cons.prems(2) clear_re_sub [OF h, of None s None] x by auto
  then show ?case using Cons.IH Cons.prems(1) x by simp
qed simp

lemma key_patterns_avoided:
  "list_all (\<lambda>(p, _). list_all (\<lambda>(m, r). avoids p r \<and> hd r \<notin> set p) SCRUBBERS) KEY_PATTERNS"
  by (simp add: KEY_PATTERNS_def SCRUBBERS_def avoids_def)

lemma key_patterns_scrubbed:
  assumes "(p, P, n) \<in> set KEY_PATTERNS"
  shows "\<exists>(m, r) \<in> set SCRUBBERS. \<forall>q v. m q v = None \<longrightarrow> prefixed p P n q v = None"
proof -
  have own: "\<forall>q v. first_match ms q v = None \<longrightarrow> prefixed p P n q v = None" if "prefixed p P n \<in> set ms" for ms
    using that first_match_cases(1) by metis
  have one: "match_openai = first_match [prefixed ''sk-'' is_alnum 20]"
    by (intro ext) (simp add: match_openai_def split: option.splits)
  consider "prefixed p P n = prefixed ''sk-'' is_alnum 20"
    | "prefixed p P n \<in> set [prefixed ''sk_live_'' is_alnum 16, prefixed ''sk_test_'' is_alnum 16]"
    | "prefixed p P n \<in> set (map (\<lambda>c. prefixed (''xox'' @ [c, CHR ''-'']) (\<lambda>x. is_alnum x \<or> x = CHR ''-'') 10) ''abpr'')"
    using assms unfolding KEY_PATTERNS_def by auto
  then obtain m where m: "m \<in> {match_openai, match_stripe, match_slack}"
    and own_m: "\<forall>q v. m q v = None \<longrightarrow> prefixed p P n q v = None"
  proof cases
    case 1
    then show ?thesis
      using own [of "[prefixed ''sk-'' is_alnum 20]", folded one] by (intro that [of match_openai]) simp_all
  next
    case 2
    from own [OF this, folded match_stripe_def] show ?thesis by (intro that [of match_stripe]) simp_all
  next
    case 3
    from own [OF this, folded match_slack_def] show ?thesis by (intro that [of match_slack]) simp_all
  qed
  have "m \<in> fst ` set SCRUBBERS" using m by (auto simp: SCRUBBERS_def)
  then obtain r where "(m, r) \<in> set SCRUBBERS" by (auto simp del: set_simps)
  then show ?thesis using own_m by (intro bexI [of _ "(m, r)"]) simp_all
qed

lemma key_patterns_classes:
  assumes "(p, P, n) \<in> set KEY_PATTERNS"
  shows "key_class P \<and> p \<noteq> [] \<and> is_alnum (hd p)"
  using assms unfolding KEY_PATTERNS_def
  by (auto simp: key_class_def is_alnum_def is_upper_def is_lower_def is_digit_def)

text \<open>At no place of a scrubbed text, where a word starts, stands a key long enough for its pattern.\<close>

lemma keys_cleared: "list_all (\<lambda>(p, P, n). clear (prefixed p P n) None (scrub raw)) KEY_PATTERNS"
proof -
  have "clear (prefixed p P n) None (scrub raw)" if mem: "(p, P, n) \<in> set KEY_PATTERNS" for p P n
  proof -
    obtain a p' where p: "p = a # p'" "is_alnum a" using key_patterns_classes [OF mem] by (cases p) simp_all
    have "list_all (\<lambda>(m, r). harmless p P m r) SCRUBBERS"
      using harmless_scrubbers key_patterns_classes [OF mem] key_patterns_avoided mem
      by (fastforce simp: list_all_iff)
    then have "list_all (\<lambda>(m, r). calm (prefixed p P n) m r \<and> stops m) SCRUBBERS"
      using stops_scrubbers calm_prefixed [OF _ p] by (auto simp: list_all_iff)
    from clear_fold [OF this] key_patterns_scrubbed [OF mem] show ?thesis
      unfolding scrub_def by blast
  qed
  then show ?thesis by (auto simp: list_all_iff)
qed

text \<open>A key in the middle of a word is none for the patterns.\<close>

lemma key_after_a_letter_survives:
  "re_sub match_openai r None (''xsk-'' @ replicate 20 CHR ''a'') = ''xsk-'' @ replicate 20 CHR ''a''"
  by (simp add: eval_nat_numeral re_sub.simps(2) match_openai_def prefixed_def starts_with_def starts_word_def is_word_def
      is_alnum_def is_upper_def is_lower_def is_digit_def)

end
