(* ===== verification/Recorder.thy ===== *)
theory Recorder
  imports Worker_Prelude
begin

text \<open>
  What \<open>src/worker/adapters/opencode/interceptors/base.py\<close> asks of an interceptor, as interfaces over
  its calls and its own state: a call leaves the state well-formed, and (\<open>on_event\<close>: "must be
  idempotent") an event delivered twice leaves the state of one delivery, as long as there is room.
  The recorders of
  tool calls interpret them.
\<close>

locale recorder =
  fixes step :: "'c \<Rightarrow> 's \<Rightarrow> 's"
    and start :: 's
    and inv :: "'s \<Rightarrow> bool"
  assumes start_inv: "inv start"
    and step_inv: "inv s \<Longrightarrow> inv (step c s)"
begin

lemma run_from: "inv s \<Longrightarrow> inv (fold step cs s)"
  by (induction cs arbitrary: s) (simp_all add: step_inv)

lemma run_inv: "inv (fold step cs start)"
  by (rule run_from [OF start_inv])

end

text \<open>\<open>load\<close> is what a recorder holds back, \<open>cap\<close> how much of it there is room for.\<close>

locale idempotent_recorder = recorder step start inv
  for step :: "'c \<Rightarrow> 's \<Rightarrow> 's" and start :: 's and inv :: "'s \<Rightarrow> bool" +
  fixes load :: "'s \<Rightarrow> nat" and cap :: nat
  assumes empty_load: "load start = 0"
    and step_load: "load (step c s) \<le> Suc (load s)"
    and step_again: "inv s \<Longrightarrow> load s < cap \<Longrightarrow> step c (step c s) = step c s"
begin

lemma duplicates_from:
  "inv s \<Longrightarrow> load s + length cs \<le> cap \<Longrightarrow> fold step (concat (map (\<lambda>c. [c, c]) cs)) s = fold step cs s"
proof (induction cs arbitrary: s)
  case (Cons c cs)
  then have "step c (step c s) = step c s" by (intro step_again) simp_all
  moreover have "fold step (concat (map (\<lambda>c. [c, c]) cs)) (step c s) = fold step cs (step c s)"
    by (rule Cons.IH) (use Cons.prems step_inv step_load [of c s] in auto)
  ultimately show ?case by simp
qed simp

lemma duplicates: "length cs \<le> cap \<Longrightarrow> fold step (concat (map (\<lambda>c. [c, c]) cs)) start = fold step cs start"
  by (rule duplicates_from) (simp_all add: start_inv empty_load)

end

end
