(* ===== verification/Conversations.thy ===== *)
theory Conversations
  imports Interceptors Config Scrubbing Recorder
begin

text \<open>
  The interceptor that writes the conversation of a task,
  \<open>src/worker/adapters/opencode/interceptors/conversations.py\<close>: the
  messages it accumulates under its bounds, the choice of the file's slug and the file; the scrubbing
  of secrets is in \<open>Scrubbing\<close>. \<open>str\<close> of a
  value that is no string, \<open>json.dumps\<close> and the time stamp in the file's name are fields of the
  environment, like the outcome of the disk.
\<close>

section \<open>State\<close>

record conv_options =
  co_summarize :: "(dict list \<Rightarrow> exn + json) option"
  co_max_content :: int
  co_max_messages :: int
  co_slug_prefix :: string

definition default_conv_options :: conv_options where
  "default_conv_options = \<lparr>co_summarize = None, co_max_content = 32 * 1024, co_max_messages = 2000,
     co_slug_prefix = ''untitled''\<rparr>"

record conv_state =
  cv_messages :: "dict list"
  cv_buffer :: "string list"
  cv_started :: "timestamp option"
  cv_task :: "string option"
  cv_truncated :: nat
  cv_terminal :: "string option"

definition new_conversation :: conv_state where
  "new_conversation = \<lparr>cv_messages = [], cv_buffer = [], cv_started = None, cv_task = None, cv_truncated = 0,
     cv_terminal = None\<rparr>"

record conv_env =
  ce_show :: "json \<Rightarrow> string"
  ce_dumps :: "json \<Rightarrow> string"
  ce_stamp :: "timestamp \<Rightarrow> string"
  ce_artifacts_dir :: string
  ce_mkdir_fails :: "string option"
  ce_write_fails :: "string option"

definition conv_str :: "conv_env \<Rightarrow> json \<Rightarrow> string" where
  "conv_str env v = (case v of JStr s \<Rightarrow> s | _ \<Rightarrow> ce_show env v)"

section \<open>Accumulating messages\<close>

text \<open>\<open>xs[:n]\<close> and \<open>xs[n:]\<close> of Python, for any integer.\<close>

definition slice_to :: "int \<Rightarrow> 'a list \<Rightarrow> 'a list" where
  "slice_to n xs = (if 0 \<le> n then take (nat n) xs else take (length xs - nat (- n)) xs)"

definition slice_from :: "int \<Rightarrow> 'a list \<Rightarrow> 'a list" where
  "slice_from n xs = (if 0 \<le> n then drop (nat n) xs else drop (length xs - nat (- n)) xs)"

definition scrub_value :: "string \<times> json \<Rightarrow> string \<times> json" where
  "scrub_value kv = (case kv of (k, JStr s) \<Rightarrow> (k, JStr (scrub s)) | _ \<Rightarrow> kv)"

definition message_of :: "conv_options \<Rightarrow> string \<Rightarrow> string \<Rightarrow> timestamp \<Rightarrow> dict \<Rightarrow> dict" where
  "message_of co role content ts extra =
     (let scrubbed = scrub content; long = (co_max_content co < int (length scrubbed)) in
      fold (\<lambda>kv msg. dict_set (fst kv) (snd kv) msg) (map scrub_value extra)
        ([(''role'', JStr role), (''content'', JStr (if long then slice_to (co_max_content co) scrubbed else scrubbed)),
          (''ts'', JFloat ts)] @
         (if long then [(''truncated'', JStr ''[truncated]'')] else [])))"

definition truncation_note :: "timestamp \<Rightarrow> int \<Rightarrow> dict" where
  "truncation_note ts n = [(''role'', JStr ''system''), (''content'', JStr []), (''ts'', JFloat ts),
     (''kind'', JStr ''messages_truncated''), (''dropped'', JInt n)]"

text \<open>The guard on the number of messages.\<close>

definition limit_messages :: "conv_options \<Rightarrow> timestamp \<Rightarrow> dict list \<Rightarrow> dict list" where
  "limit_messages co ts ms =
     (if co_max_messages co < int (length ms)
      then let front = take 1 ms; rest = slice_from (- (co_max_messages co - 2)) ms in
        front @ [truncation_note ts (int (length ms) - int (length front) - int (length rest))] @ rest
      else ms)"

definition append_message :: "conv_options \<Rightarrow> string \<Rightarrow> string \<Rightarrow> timestamp \<Rightarrow> dict \<Rightarrow> conv_state \<Rightarrow> conv_state" where
  "append_message co role content ts extra s =
     s\<lparr>cv_truncated := (if co_max_content co < int (length (scrub content)) then Suc (cv_truncated s) else cv_truncated s),
       cv_messages := limit_messages co ts (cv_messages s @ [message_of co role content ts extra])\<rparr>"

text \<open>\<open>now\<close> is what \<open>time.time()\<close> gives, used when the buffer has no start or starts at zero.\<close>

definition flush_assistant_buffer :: "conv_options \<Rightarrow> timestamp \<Rightarrow> conv_state \<Rightarrow> conv_state" where
  "flush_assistant_buffer co now s =
     (if cv_buffer s = [] then s
      else (append_message co ''assistant'' (concat (cv_buffer s))
             (case cv_started s of None \<Rightarrow> now | Some t \<Rightarrow> if t = 0 then now else t) [] s)
           \<lparr>cv_buffer := [], cv_started := None\<rparr>)"

definition render_tool_call :: "conv_env \<Rightarrow> dict \<Rightarrow> string" where
  "render_tool_call env p =
     ''call '' @ conv_str env (py_or (dict_get p ''tool'' JNull) (JStr ''unknown'')) @ ''('' @
     ce_dumps env (py_or (dict_get p ''args'' JNull) (JObj [])) @ '')''"

definition render_tool_result :: "conv_env \<Rightarrow> json \<Rightarrow> string" where
  "render_tool_result env v = (case v of JNull \<Rightarrow> [] | JStr s \<Rightarrow> s | _ \<Rightarrow> ce_dumps env v)"

text \<open>\<open>str(payload.get(k) or x)\<close>\<close>

definition text_field :: "conv_env \<Rightarrow> dict \<Rightarrow> string \<Rightarrow> string \<Rightarrow> string" where
  "text_field env p k x = conv_str env (py_or (dict_get p k JNull) (JStr x))"

definition conv_on_event :: "conv_env \<Rightarrow> conv_options \<Rightarrow> timestamp \<Rightarrow> interceptor_event \<Rightarrow> conv_state \<Rightarrow> conv_state" where
  "conv_on_event env co now ev s0 =
     (let s = (if cv_task s0 = None then s0\<lparr>cv_task := Some (ie_task_id ev)\<rparr> else s0);
          p = (case ie_normalized_payload ev of None \<Rightarrow> [] | Some d \<Rightarrow> d);
          flushed = flush_assistant_buffer co now s;
          ts = ie_received_at ev in
      case ie_normalized_kind ev of
        None \<Rightarrow> s
      | Some kind \<Rightarrow>
          if starts_with ''initial_'' kind \<and> ends_with ''_message'' kind then
            append_message co (text_field env p ''role'' ''user'') (text_field env p ''content'' []) ts [] flushed
          else if kind = ''assistant_delta'' then
            (let t = text_field env p ''content'' [] in
             if t = [] then s
             else s\<lparr>cv_started := (if cv_buffer s = [] then Some ts else cv_started s), cv_buffer := cv_buffer s @ [t]\<rparr>)
          else if kind = ''tool_call_started'' then
            append_message co ''tool_call'' (render_tool_call env p) ts
              [(''tool'', JStr (text_field env p ''tool'' [])), (''tool_use_id'', JStr (text_field env p ''tool_use_id'' []))]
              flushed
          else if kind = ''tool_call_finished'' then
            append_message co ''tool_result'' (render_tool_result env (dict_get p ''result'' JNull)) ts
              [(''tool_use_id'', JStr (text_field env p ''tool_use_id'' [])),
               (''is_error'', JBool (py_truthy (dict_get p ''is_error'' (JBool False))))] flushed
          else if kind = ''decision_received'' then
            append_message co ''system'' [] ts
              [(''kind'', JStr ''decision_received''), (''decision_id'', JStr (text_field env p ''decision_id'' [])),
               (''choice'', JStr (text_field env p ''choice'' [])),
               (''auto_approved'', JBool (py_truthy (dict_get p ''auto_approved'' (JBool False))))] flushed
          else s)"

definition conv_on_terminal :: "conv_options \<Rightarrow> timestamp \<Rightarrow> terminal_signal \<Rightarrow> conv_state \<Rightarrow> conv_state" where
  "conv_on_terminal co now sg s = (flush_assistant_buffer co now s)\<lparr>cv_terminal := Some (tg_status sg)\<rparr>"

section \<open>The file\<close>

text \<open>\<open>^[a-z0-9][a-z0-9-]{2,40}$\<close>; \<open>$\<close> also matches before a final newline.\<close>

definition slug_body_ok :: "string \<Rightarrow> bool" where
  "slug_body_ok s \<longleftrightarrow> (case s of [] \<Rightarrow> False
     | c # cs \<Rightarrow> (is_lower c \<or> is_digit c) \<and> 2 \<le> length cs \<and> length cs \<le> 40 \<and> list_all name_char cs)"

definition slug_ok :: "string \<Rightarrow> bool" where
  "slug_ok s \<longleftrightarrow> slug_body_ok s \<or> (s \<noteq> [] \<and> last s = CHR 0x0A \<and> slug_body_ok (butlast s))"

definition clean_slug :: "string \<Rightarrow> string" where
  "clean_slug s = filter name_char s"

definition fallback_slug :: "conv_options \<Rightarrow> string option \<Rightarrow> string" where
  "fallback_slug co task =
     (let suffix = take 6 (case task of None \<Rightarrow> ''unknown'' | Some t \<Rightarrow> if t = [] then ''unknown'' else t);
          cleaned = clean_slug (str_lower (co_slug_prefix co @ ''-'' @ suffix)) in
      if slug_ok cleaned then cleaned
      else let c = clean_slug (str_lower (''untitled-'' @ suffix)) in if c = [] then ''untitled-x'' else c)"

text \<open>The slug and where it comes from.\<close>

definition resolve_slug :: "conv_options \<Rightarrow> conv_state \<Rightarrow> exn + string \<times> string" where
  "resolve_slug co s =
     (let fallback = fallback_slug co (cv_task s) in
      case co_summarize co of
        None \<Rightarrow> Inr (fallback, ''fallback'')
      | Some f \<Rightarrow>
          (case f (cv_messages s) of
             Inl e \<Rightarrow> if is_Exception e then Inr (fallback, ''callback-failed'') else Inl e
           | Inr (JStr raw) \<Rightarrow>
               (let candidate = str_lower (str_strip raw) in
                if slug_ok candidate then Inr (candidate, ''callback'') else Inr (fallback, ''callback-rejected''))
           | Inr _ \<Rightarrow> Inr (fallback, ''callback-rejected'')))"

text \<open>The artifact and the file written, a path and its lines.\<close>

definition conv_flush ::
    "conv_env \<Rightarrow> conv_options \<Rightarrow> timestamp \<Rightarrow> conv_state \<Rightarrow>
     (exn + (interceptor_artifact \<times> string \<times> string list) option) \<times> conv_state" where
  "conv_flush env co now s0 =
     (let s = flush_assistant_buffer co now s0 in
      case (cv_messages s, cv_task s) of
        (_ # _, Some tid) \<Rightarrow>
          (case resolve_slug co s of
             Inl e \<Rightarrow> (Inl e, s)
           | Inr (slug, source) \<Rightarrow>
               if ce_mkdir_fails env \<noteq> None \<or> ce_write_fails env \<noteq> None then (Inr None, s)
               else
                 let filename = ce_stamp env now @ ''-'' @ slug @ ''.jsonl'';
                     target = path_join (path_join (path_join (ce_artifacts_dir env) tid) ''conversations'') filename in
                 (Inr (Some (\<lparr>ia_artifact_type = ''custom'', ia_filename = filename, ia_local_path = target,
                    ia_metadata = [(''subtype'', JStr ''conversations''), (''conversations_path'', JStr target),
                      (''slug'', JStr slug), (''slug_source'', JStr source),
                      (''message_count'', JInt (int (length (cv_messages s)))),
                      (''truncated_count'', JInt (int (cv_truncated s))),
                      (''terminal_status'', case cv_terminal s of None \<Rightarrow> JNull | Some t \<Rightarrow> JStr t)],
                    ia_size_bytes = None\<rparr>, target, map (\<lambda>m. ce_dumps env (JObj m)) (cv_messages s))), s))
      | _ \<Rightarrow> (Inr None, s))"

section \<open>The bounds\<close>

text \<open>A call of the interceptor and a run of calls; each comes with what \<open>time.time()\<close> gives then.\<close>

datatype conv_call = Conv_event timestamp interceptor_event | Conv_terminal timestamp terminal_signal

fun conv_step :: "conv_env \<Rightarrow> conv_options \<Rightarrow> conv_call \<Rightarrow> conv_state \<Rightarrow> conv_state" where
  "conv_step env co (Conv_event now ev) s = conv_on_event env co now ev s"
| "conv_step env co (Conv_terminal now sg) s = conv_on_terminal co now sg s"

definition conv_run :: "conv_env \<Rightarrow> conv_options \<Rightarrow> conv_call list \<Rightarrow> conv_state \<Rightarrow> conv_state" where
  "conv_run env co calls s = fold (conv_step env co) calls s"

definition message_fits :: "conv_options \<Rightarrow> dict \<Rightarrow> bool" where
  "message_fits co m \<longleftrightarrow> (case map_of m ''content'' of Some (JStr t) \<Rightarrow> int (length t) \<le> co_max_content co | _ \<Rightarrow> False)"

definition conv_ok :: "conv_options \<Rightarrow> conv_state \<Rightarrow> bool" where
  "conv_ok co s \<longleftrightarrow> int (length (cv_messages s)) \<le> co_max_messages co \<and> list_all (message_fits co) (cv_messages s)"

lemma limit_messages_full:
  assumes "3 \<le> co_max_messages co" and "int (length ms) = co_max_messages co + 1"
  shows "limit_messages co ts ms = hd ms # truncation_note ts 2 # drop 3 ms"
proof -
  have l: "nat (co_max_messages co - 2) = length ms - 3" "4 \<le> length ms" using assms by linarith+
  have f: "take (Suc 0) ms = [hd ms]" using l(2) by (cases ms) simp_all
  have r: "slice_from (2 - co_max_messages co) ms = drop 3 ms"
    using assms l by (auto simp: slice_from_def)
  have n: "int (length (drop 3 ms)) = co_max_messages co - 2" using assms l by simp
  show ?thesis using assms n by (simp add: limit_messages_def f r Let_def)
qed

lemma fold_dict_set_other:
  "k \<notin> fst ` set kvs \<Longrightarrow> map_of (fold (\<lambda>kv msg. dict_set (fst kv) (snd kv) msg) kvs m) k = map_of m k"
  by (induction kvs arbitrary: m) (auto simp: map_of_dict_set)

lemma fst_scrub_value [simp]: "fst (scrub_value kv) = fst kv"
  by (cases kv) (simp add: scrub_value_def split: json.splits)

lemma message_fits_message:
  assumes "0 \<le> co_max_content co" and "''content'' \<notin> fst ` set extra"
  shows "message_fits co (message_of co role content ts extra)"
proof -
  let ?long = "co_max_content co < int (length (scrub content))"
  let ?t = "if ?long then slice_to (co_max_content co) (scrub content) else scrub content"
  have "''content'' \<notin> fst ` set (map scrub_value extra)" using assms(2) by (simp add: image_image)
  then have "map_of (message_of co role content ts extra) ''content'' = Some (JStr ?t)"
    by (auto simp: message_of_def Let_def fold_dict_set_other simp del: set_map)
  moreover have "int (length ?t) \<le> co_max_content co" using assms(1) by (simp add: slice_to_def)
  ultimately show ?thesis by (simp only: message_fits_def option.case json.case)
qed

lemma conv_ok_append:
  assumes "conv_ok co s" and "3 \<le> co_max_messages co" and "0 \<le> co_max_content co" and "''content'' \<notin> fst ` set extra"
  shows "conv_ok co (append_message co role content ts extra s) \<and>
    (cv_messages s \<noteq> [] \<longrightarrow> cv_messages (append_message co role content ts extra s) \<noteq> [] \<and>
       hd (cv_messages (append_message co role content ts extra s)) = hd (cv_messages s))"
proof -
  let ?m = "message_of co role content ts extra" and ?ms = "cv_messages s"
  have fit: "message_fits co ?m" by (rule message_fits_message [OF assms(3,4)])
  have tn: "message_fits co (truncation_note ts n)" for n
    using assms(3) by (simp add: message_fits_def truncation_note_def)
  show ?thesis
  proof (cases "co_max_messages co < int (length (?ms @ [?m]))")
    case True
    then have len: "int (length (?ms @ [?m])) = co_max_messages co + 1" using assms(1) by (simp add: conv_ok_def)
    have full: "limit_messages co ts (?ms @ [?m]) = hd (?ms @ [?m]) # truncation_note ts 2 # drop 3 (?ms @ [?m])"
      by (rule limit_messages_full [OF assms(2) len])
    have ne: "?ms \<noteq> []" using len assms(2) by auto
    have "list_all (message_fits co) (drop 3 (?ms @ [?m]))"
      using assms(1) fit by (auto simp: conv_ok_def list_all_iff dest: in_set_dropD)
    moreover have "message_fits co (hd ?ms)" using assms(1) ne by (simp add: conv_ok_def list_all_iff)
    moreover have "int (length (drop 3 (?ms @ [?m]))) + 2 = co_max_messages co" using len assms(2) by simp
    ultimately show ?thesis using ne tn by (simp add: append_message_def full conv_ok_def)
  next
    case False
    then show ?thesis using assms(1) fit by (auto simp: append_message_def limit_messages_def conv_ok_def)
  qed
qed

text \<open>A law of the messages: a relation of states that holds where no message is touched, goes on from step
  to step, and is kept when a message is appended. Then every call of the interceptor keeps it.\<close>

fun is_scalar :: "json \<Rightarrow> bool" where
  "is_scalar (JStr _) = True"
| "is_scalar (JBool _) = True"
| "is_scalar _ = False"

locale message_law =
  fixes co :: conv_options
    and R :: "conv_state \<Rightarrow> conv_state \<Rightarrow> bool"
  assumes same: "cv_messages t = cv_messages s \<Longrightarrow> R s t"
    and trans: "R s t \<Longrightarrow> R t u \<Longrightarrow> R s u"
    and append: "''content'' \<notin> fst ` set extra \<Longrightarrow> list_all (is_scalar \<circ> snd) extra \<Longrightarrow>
      R s (append_message co role content ts extra s)"
begin

lemma flush: "R s (flush_assistant_buffer co now s)"
proof (cases "cv_buffer s = []")
  case False
  define ts where "ts = (case cv_started s of None \<Rightarrow> now | Some t \<Rightarrow> if t = 0 then now else t)"
  define t where "t = append_message co ''assistant'' (concat (cv_buffer s)) ts [] s"
  have "flush_assistant_buffer co now s = t\<lparr>cv_buffer := [], cv_started := None\<rparr>"
    using False by (simp add: flush_assistant_buffer_def t_def ts_def)
  moreover have "R s t" unfolding t_def by (rule append) simp_all
  moreover have "R t (t\<lparr>cv_buffer := [], cv_started := None\<rparr>)" by (rule same) simp
  ultimately show ?thesis using trans [of s t] by simp
qed (simp add: flush_assistant_buffer_def same)

lemma event: "R s (conv_on_event env co now ev s)"
proof -
  define a where "a = (if cv_task s = None then s\<lparr>cv_task := Some (ie_task_id ev)\<rparr> else s)"
  have a: "R s a" by (rule same) (simp add: a_def)
  have dl: "R s (a\<lparr>cv_started := x, cv_buffer := y\<rparr>)" for x y by (rule same) (simp add: a_def)
  have choice: "R s x \<Longrightarrow> R s y \<Longrightarrow> R s (if b then x else y)" for b x y by simp
  have ap: "R s (append_message co role content ts extra (flush_assistant_buffer co now a))"
    if "''content'' \<notin> fst ` set extra" "list_all (is_scalar \<circ> snd) extra" for role content ts extra
    using trans [OF trans [OF a flush] append [OF that]] .
  show ?thesis
    unfolding conv_on_event_def Let_def a_def [symmetric]
    by (cases "ie_normalized_kind ev"; simp only: option.case; intro choice a dl ap) simp_all
qed

lemma step: "R s (conv_step env co c s)"
proof (cases c)
  case (Conv_terminal now sg)
  have "R (flush_assistant_buffer co now s) (conv_on_terminal co now sg s)"
    by (rule same) (simp add: conv_on_terminal_def)
  then show ?thesis using trans [OF flush] Conv_terminal by simp
qed (simp add: event)

lemma run: "R s (conv_run env co calls s)"
proof (induction calls arbitrary: s)
  case (Cons c calls)
  show ?case using trans [OF step Cons.IH] by (simp add: conv_run_def)
qed (simp add: conv_run_def same)

end

text \<open>Within the bounds, and with the first message kept.\<close>

definition bounded :: "conv_options \<Rightarrow> conv_state \<Rightarrow> conv_state \<Rightarrow> bool" where
  "bounded co s t \<longleftrightarrow> (3 \<le> co_max_messages co \<and> 0 \<le> co_max_content co \<and> conv_ok co s \<longrightarrow> conv_ok co t \<and>
     (cv_messages s \<noteq> [] \<longrightarrow> cv_messages t \<noteq> [] \<and> hd (cv_messages t) = hd (cv_messages s)))"

interpretation bounds: message_law co "bounded co" for co
proof
  show "bounded co s (append_message co role content ts extra s)" if "''content'' \<notin> fst ` set extra" for s role content ts extra
    using conv_ok_append [OF _ _ _ that] by (simp add: bounded_def)
qed (auto simp: bounded_def conv_ok_def)

text \<open>C30: The recorded conversation stays within its bounds whatever the stream sends: with a limit of at
  least three messages, at any time at most that many are kept, each with at most the allowed
  number of characters, and the first message, the task's prompt, is never lost. When a message too
  many arrives, the two after the first make room for a note, the note of an earlier truncation among
  them, so that the note always says two were dropped, however many have been.\<close>

theorem conversation_is_bounded:
  assumes "3 \<le> co_max_messages co" and "0 \<le> co_max_content co"
  shows "list_all (message_fits co) (cv_messages (conv_run env co calls new_conversation)) \<and>
    int (length (cv_messages (conv_run env co calls new_conversation))) \<le> co_max_messages co \<and>
    (cv_messages (conv_run env co calls new_conversation) = [] \<or>
       cv_messages (conv_run env co (calls @ more_calls) new_conversation) \<noteq> [] \<and>
       hd (cv_messages (conv_run env co (calls @ more_calls) new_conversation)) =
       hd (cv_messages (conv_run env co calls new_conversation))) \<and>
    (int (length ms) \<noteq> co_max_messages co + 1 \<or>
       limit_messages co ts ms = hd ms # truncation_note ts 2 # drop 3 ms)"
proof -
  let ?s = "conv_run env co calls new_conversation"
  have "conv_ok co new_conversation" using assms(1) by (simp add: conv_ok_def new_conversation_def)
  then have ok: "conv_ok co ?s" using bounds.run [of co new_conversation env calls] assms by (simp add: bounded_def)
  have "conv_run env co (calls @ more_calls) new_conversation = conv_run env co more_calls ?s"
    by (simp add: conv_run_def)
  then show ?thesis
    using ok bounds.run [of co ?s env more_calls] assms limit_messages_full [OF assms(1)]
    by (auto simp: conv_ok_def bounded_def)
qed

lemma conversation_is_bounded_witness:
  "int (length (cv_messages (conv_run \<lparr>ce_show = (\<lambda>_. []), ce_dumps = (\<lambda>_. []), ce_stamp = (\<lambda>_. []),
       ce_artifacts_dir = [], ce_mkdir_fails = None, ce_write_fails = None\<rparr> default_conv_options
       [Conv_event 1 \<lparr>ie_task_id = ''t1'', ie_session_id = None, ie_normalized_kind = Some ''assistant_delta'',
          ie_normalized_payload = Some [(''content'', JStr ''hi'')], ie_raw_type = [], ie_raw_payload = [], ie_received_at = 1\<rparr>,
        Conv_terminal 2 \<lparr>tg_task_id = ''t1'', tg_session_id = None, tg_status = ''completed'', tg_reason = None, tg_ended_at = 2\<rparr>]
       new_conversation))) \<le> 2000"
  using conversation_is_bounded [of default_conv_options] by (simp add: default_conv_options_def)

text \<open>It is not idempotent, although the base class asks for it: a repeated event is recorded again.\<close>

lemma repeated_tool_call_is_recorded_twice:
  assumes "ie_normalized_kind ev = Some ''tool_call_started''" and "2 \<le> co_max_messages co"
  shows "length (cv_messages (conv_run env co [Conv_event now ev, Conv_event now ev] new_conversation)) = 2"
  using assms
  by (simp add: conv_run_def conv_on_event_def Let_def starts_with_def flush_assistant_buffer_def append_message_def
      limit_messages_def new_conversation_def)

text \<open>With a limit below three the guard fails: \<open>messages[-0:]\<close> is the whole list.\<close>

lemma two_messages_are_no_limit:
  "co_max_messages co = 2 \<Longrightarrow> 2 < length ms \<Longrightarrow> length (limit_messages co ts ms) = length ms + 2"
  by (simp add: limit_messages_def slice_from_def)

section \<open>No key is recorded\<close>

definition keyless :: "string \<Rightarrow> bool" where
  "keyless s \<longleftrightarrow> list_all (\<lambda>(p, P, n). clear (prefixed p P n) None s) KEY_PATTERNS"

definition clean_field :: "string \<times> json \<Rightarrow> bool" where
  "clean_field kv \<longleftrightarrow> (case snd kv of JStr s \<Rightarrow> fst kv = ''role'' \<or> keyless s | JList _ \<Rightarrow> False | JObj _ \<Rightarrow> False | _ \<Rightarrow> True)"

definition clean_message :: "dict \<Rightarrow> bool" where
  "clean_message m \<longleftrightarrow> list_all clean_field m"

lemma prefixed_take: "prefixed p P n prev (take k s) \<noteq> None \<Longrightarrow> prefixed p P n prev s \<noteq> None"
proof -
  assume "prefixed p P n prev (take k s) \<noteq> None"
  then have w: "starts_word prev" "starts_with p (take k s)" "n \<le> run_length P (drop (length p) (take k s))"
    by (simp_all add: prefixed_def split: if_splits)
  have "starts_with p s" using w(2) by (metis append_take_drop_id append.assoc starts_with_iff)
  moreover have "run_length P (take m t) \<le> run_length P t" for m t
    by (induction t arbitrary: m) (simp_all add: run_length_def take_Cons split: nat.split)
  then have "n \<le> run_length P (drop (length p) s)" using w(3) by (metis drop_take le_trans)
  ultimately show ?thesis using w(1) by (simp add: prefixed_def)
qed

lemma clear_take: "clear (prefixed p P n) prev s \<Longrightarrow> clear (prefixed p P n) prev (take k s)"
proof (induction s arbitrary: prev k)
  case (Cons c s)
  show ?case
  proof (cases k)
    case (Suc l)
    then have "prefixed p P n prev (c # take l s) = None"
      using prefixed_take [of p P n prev "Suc l" "c # s"] Cons.prems by (cases "prefixed p P n prev (c # take l s)") auto
    then show ?thesis using Cons Suc by simp
  qed simp
qed simp

lemma keyless_slice: "keyless s \<Longrightarrow> keyless (slice_to k s)"
  using clear_take by (auto simp: keyless_def slice_to_def list_all_iff)

lemma keyless_scrub: "keyless (scrub s)"
  unfolding keyless_def by (rule keys_cleared)

lemma clean_dict_set: "clean_message m \<Longrightarrow> clean_field (k, v) \<Longrightarrow> clean_message (dict_set k v m)"
  unfolding clean_message_def by (induction k v m rule: dict_set.induct) (auto simp: clean_field_def)

lemma clean_extra: "list_all (is_scalar \<circ> snd) extra \<Longrightarrow> list_all clean_field (map scrub_value extra)"
  using keyless_scrub by (auto simp: list_all_iff scrub_value_def clean_field_def split: json.splits)

lemma clean_fold: "clean_message m \<Longrightarrow> list_all clean_field kvs \<Longrightarrow>
  clean_message (fold (\<lambda>kv msg. dict_set (fst kv) (snd kv) msg) kvs m)"
proof (induction kvs arbitrary: m)
  case (Cons kv kvs)
  then have "clean_message (dict_set (fst kv) (snd kv) m)" by (intro clean_dict_set) simp_all
  then show ?case using Cons by simp
qed simp

lemma keyless_marks: "keyless []" "keyless ''[truncated]''" "keyless ''messages_truncated''"
  by (simp_all add: keyless_def KEY_PATTERNS_def prefixed_def starts_with_def)

lemma clean_message_of:
  "list_all (is_scalar \<circ> snd) extra \<Longrightarrow> clean_message (message_of co role content ts extra)"
  unfolding message_of_def Let_def
  by (rule clean_fold [OF _ clean_extra])
    (auto simp: clean_message_def clean_field_def keyless_scrub keyless_slice keyless_marks)

definition stays_clean :: "conv_state \<Rightarrow> conv_state \<Rightarrow> bool" where
  "stays_clean s t \<longleftrightarrow> (list_all clean_message (cv_messages s) \<longrightarrow> list_all clean_message (cv_messages t))"

interpretation clean: message_law co stays_clean for co
proof
  show "stays_clean s (append_message co role content ts extra s)" if "list_all (is_scalar \<circ> snd) extra"
    for s role content ts extra
  proof -
    have "clean_message (truncation_note ts n)" for n
      by (simp add: clean_message_def clean_field_def truncation_note_def keyless_marks)
    moreover have "x \<in> set (slice_from k ms) \<Longrightarrow> x \<in> set ms" for x k and ms :: "dict list"
      by (auto simp: slice_from_def dest: in_set_dropD split: if_splits)
    ultimately have "list_all clean_message ms \<Longrightarrow> list_all clean_message (limit_messages co ts ms)" for ms
      by (fastforce simp: limit_messages_def Let_def list_all_iff dest: in_set_takeD)
    then show ?thesis using clean_message_of [OF that] by (simp add: stays_clean_def append_message_def)
  qed
qed (simp_all add: stays_clean_def)


section \<open>Where the file is\<close>

lemma name_char_facts: "name_char c \<Longrightarrow> c \<noteq> CHR 0x0A" "\<not> name_char CHR ''/''"
  by (auto simp: name_char_def is_lower_def is_digit_def)

lemma slug_ok_no_newline: "slug_ok s \<Longrightarrow> s = [] \<or> last s \<noteq> CHR 0x0A \<Longrightarrow> slug_body_ok s"
  by (auto simp: slug_ok_def)

lemma last_clean: "clean_slug s = [] \<or> last (clean_slug s) \<noteq> CHR 0x0A"
proof (cases "clean_slug s = []")
  case False
  then have "last (clean_slug s) \<in> set (clean_slug s)" by simp
  then show ?thesis using name_char_facts(1) by (auto simp: clean_slug_def)
qed simp

lemma fallback_slug_ok: "slug_body_ok (fallback_slug co task)"
proof -
  define suffix where "suffix = take 6 (case task of None \<Rightarrow> ''unknown'' | Some t \<Rightarrow> if t = [] then ''unknown'' else t)"
  define c where "c = clean_slug (str_lower suffix)"
  have u: "clean_slug (str_lower (''untitled-'' @ suffix)) = ''untitled-'' @ c"
    by (simp add: clean_slug_def str_lower_def lower_char_def is_upper_def name_char_def is_lower_def c_def)
  have "length c \<le> 6"
    unfolding c_def clean_slug_def using length_filter_le [of name_char "str_lower suffix"] by (simp add: suffix_def)
  moreover have "list_all name_char c" by (simp add: c_def clean_slug_def list_all_iff)
  ultimately have "slug_body_ok (''untitled-'' @ c)"
    by (simp add: slug_body_ok_def name_char_def is_lower_def)
  then show ?thesis
    unfolding fallback_slug_def Let_def suffix_def [symmetric] u
    using slug_ok_no_newline [OF _ last_clean] by simp
qed

lemma last_strip: "str_strip s = [] \<or> \<not> is_space (last (str_strip s))"
proof -
  define xs where "xs = dropWhile is_space (rev (dropWhile is_space s))"
  have "xs = [] \<or> \<not> is_space (hd xs)"
    unfolding xs_def by (metis dropWhile_eq_Nil_conv hd_dropWhile)
  moreover have "str_strip s = rev xs" by (simp only: str_strip_def xs_def)
  ultimately show ?thesis by (simp add: last_rev)
qed

lemma resolve_slug_ok: "resolve_slug co s = Inr (slug, src) \<Longrightarrow> slug_body_ok slug"
proof -
  have cb: "slug_body_ok (str_lower (str_strip raw))" if "slug_ok (str_lower (str_strip raw))" for raw
  proof (rule slug_ok_no_newline [OF that])
    show "str_lower (str_strip raw) = [] \<or> last (str_lower (str_strip raw)) \<noteq> CHR 0x0A"
    proof (cases "str_strip raw = []")
      case False
      then have "last (str_lower (str_strip raw)) = lower_char (last (str_strip raw))"
        by (simp add: str_lower_def last_map)
      moreover have "\<not> is_space (lower_char (last (str_strip raw)))"
        using last_strip [of raw] False by (simp add: is_space_lower)
      ultimately show ?thesis by (auto simp: is_space_def)
    qed (simp add: str_lower_def)
  qed
  assume "resolve_slug co s = Inr (slug, src)"
  then show ?thesis
    by (auto simp: resolve_slug_def Let_def fallback_slug_ok cb split: option.splits sum.splits json.splits if_splits)
qed

text \<open>C31: The file of a conversation is one file of the task's own \<open>conversations\<close> directory, whatever the
  configured prefix, the task's id or the summarising callback say: its name is a time stamp and a slug
  of 3 to 41 letters, digits and dashes; it has one line for each message kept.\<close>

theorem conversation_file_is_confined:
  assumes "conv_flush env co now s = (Inr (Some (art, target, content)), s')"
  shows "\<exists>slug tid. slug_body_ok slug \<and> CHR ''/'' \<notin> set slug \<and> cv_task s' = Some tid \<and>
    ia_filename art = ce_stamp env now @ ''-'' @ slug @ ''.jsonl'' \<and> ia_local_path art = target \<and>
    target = path_join (path_join (path_join (ce_artifacts_dir env) tid) ''conversations'') (ia_filename art) \<and>
    length content = length (cv_messages s')"
proof -
  have s': "s' = flush_assistant_buffer co now s"
    using assms by (auto simp: conv_flush_def Let_def split: list.splits option.splits sum.splits prod.splits if_splits)
  obtain m ms tid slug src where c: "cv_messages s' = m # ms" "cv_task s' = Some tid" "resolve_slug co s' = Inr (slug, src)"
    using assms by (auto simp: conv_flush_def Let_def s' split: list.splits option.splits sum.splits prod.splits if_splits)
  have ok: "slug_body_ok slug" by (rule resolve_slug_ok [OF c(3)])
  then have ns: "CHR ''/'' \<notin> set slug"
    using name_char_facts(2) by (auto simp: slug_body_ok_def list_all_iff is_lower_def is_digit_def split: list.splits)
  show ?thesis
    using assms c ok ns
    by (intro exI [of _ slug] exI [of _ tid])
      (auto simp: conv_flush_def Let_def simp flip: s' split: if_splits)
qed

definition ex_conv_env :: conv_env where
  "ex_conv_env = \<lparr>ce_show = (\<lambda>_. []), ce_dumps = (\<lambda>_. ''{}''), ce_stamp = (\<lambda>_. ''20260101T000000Z''),
     ce_artifacts_dir = ''/data/artifacts'', ce_mkdir_fails = None, ce_write_fails = None\<rparr>"

lemma conversation_file_is_confined_witness:
  "\<exists>art target content s' slug. conv_flush ex_conv_env default_conv_options 1
       (new_conversation\<lparr>cv_task := Some ''t1'', cv_buffer := [''hi'']\<rparr>) = (Inr (Some (art, target, content)), s') \<and>
     slug_body_ok slug \<and>
     target = ''/data/artifacts/t1/conversations/20260101T000000Z-'' @ slug @ ''.jsonl'' \<and> length content = 1"
proof -
  obtain art target content s' where run: "conv_flush ex_conv_env default_conv_options 1
       (new_conversation\<lparr>cv_task := Some ''t1'', cv_buffer := [''hi'']\<rparr>) = (Inr (Some (art, target, content)), s')"
    and s': "cv_task s' = Some ''t1''" "length (cv_messages s') = 1"
    by (simp add: conv_flush_def flush_assistant_buffer_def append_message_def limit_messages_def default_conv_options_def
        new_conversation_def Let_def resolve_slug_def ex_conv_env_def)
  show ?thesis
    using conversation_file_is_confined [OF run] run s'
    by (auto simp: ex_conv_env_def path_join_def starts_with_def)
qed

end
