(* ===== verification/Scrub_Twice.thy ===== *)
theory Scrub_Twice
  imports Scrubbing
begin

text \<open>
  The comment on \<open>scrub\<close> in \<open>src/worker/adapters/opencode/interceptors/conversations.py\<close> says that it
  is idempotent. It is: after all the scrubbers no pattern has a match left, because no replacement
  brings one up. The patterns that end at a word boundary are treated through the word at whose
  start they match.
\<close>

section \<open>Patterns of a whole word\<close>

definition word_of :: "string \<Rightarrow> string" where
  "word_of s = takeWhile is_word s"

lemma word_of_simps [simp]:
  "word_of [] = []"
  "word_of (c # s) = (if is_word c then c # word_of s else [])"
  by (simp_all add: word_of_def)

text \<open>A match is a whole word of at least 18 characters, told by the word alone.\<close>

definition whole_word :: "matcher \<Rightarrow> (string \<Rightarrow> bool) \<Rightarrow> bool" where
  "whole_word t W \<longleftrightarrow> (\<forall>prev s. t prev s = (if starts_word prev \<and> W (word_of s) then Some (length (word_of s)) else None)) \<and>
     (\<forall>w. W w \<longrightarrow> 18 \<le> length w \<and> is_alnum (hd w))"

lemma whole_wordD:
  assumes "whole_word t W"
  shows "t prev s = (if starts_word prev \<and> W (word_of s) then Some (length (word_of s)) else None)"
    and "W w \<Longrightarrow> 18 \<le> length w" and "W w \<Longrightarrow> is_alnum (hd w)"
  using assms by (auto simp: whole_word_def)

definition aws_word :: "string \<Rightarrow> bool" where
  "aws_word w \<longleftrightarrow> starts_with ''AKIA'' w \<and> length w = 20 \<and> list_all (\<lambda>c. is_digit c \<or> is_upper c) (drop 4 w)"

definition github_word :: "string \<Rightarrow> bool" where
  "github_word w \<longleftrightarrow> (\<exists>c \<in> set ''pousr''. starts_with (''gh'' @ [c, CHR ''_'']) w) \<and>
     40 \<le> length w \<and> length w \<le> 259 \<and> list_all is_alnum (drop 4 w)"

definition id_word :: "string \<Rightarrow> bool" where
  "id_word w \<longleftrightarrow> length w = 18 \<and> list_all is_digit (take 17 w) \<and> (is_digit (w ! 17) \<or> w ! 17 \<in> {CHR ''X'', CHR ''x''})"

lemma word_of_whole: "list_all is_word w \<Longrightarrow> ends_word rest \<Longrightarrow> word_of (w @ rest) = w"
  by (induction w) (auto simp: ends_word_def split: list.splits)

lemma ends_word_dropWhile: "ends_word (dropWhile is_word s)"
  by (induction s) (simp_all add: ends_word_def)

lemma word_of_split:
  obtains rest where "s = word_of s @ rest" and "ends_word rest"
  using ends_word_dropWhile [of s] by (metis takeWhile_dropWhile_id word_of_def)

lemma word_of_append: "ends_word x \<Longrightarrow> word_of (v @ x) = word_of v"
  by (induction v) (auto simp: ends_word_def split: list.splits)

lemma list_all_word_of: "list_all is_word (word_of s)"
  by (auto simp: word_of_def list_all_iff dest: set_takeWhileD)

lemma class_words:
  "is_alnum c \<Longrightarrow> is_word c" "is_digit c \<Longrightarrow> is_alnum c" "is_upper c \<Longrightarrow> is_alnum c" "is_lower c \<Longrightarrow> is_alnum c"
  by (auto simp: is_word_def is_alnum_def)

lemma list_all_weaken: "list_all P xs \<Longrightarrow> (\<And>x. P x \<Longrightarrow> Q x) \<Longrightarrow> list_all Q xs"
  by (auto simp: list_all_iff)

lemma starts_with_app: "starts_with p w \<Longrightarrow> starts_with p (w @ x)"
  by (auto simp: starts_with_iff)

lemma prefix_word: "list_all is_word ''AKIA''" "c \<in> set ''pousr'' \<Longrightarrow> list_all is_word (''gh'' @ [c, CHR ''_''])"
  by (auto simp: is_word_def is_alnum_def is_upper_def is_lower_def)

lemma aws_text:
  "starts_with ''AKIA'' s \<and> 20 \<le> length s \<and> list_all (\<lambda>c. is_digit c \<or> is_upper c) (take 16 (drop 4 s)) \<and>
     ends_word (drop 20 s) \<longleftrightarrow> aws_word (word_of s)" (is "?L \<longleftrightarrow> ?R")
proof
  assume L: ?L
  then obtain t where t: "s = ''AKIA'' @ t" by (auto simp: starts_with_iff)
  define u where "u = take 16 t"
  have u: "length u = 16" "list_all (\<lambda>c. is_digit c \<or> is_upper c) u" "ends_word (drop 16 t)"
    using L by (simp_all add: t u_def)
  have "s = (''AKIA'' @ u) @ drop 16 t" by (simp add: t u_def)
  moreover have "list_all is_word (''AKIA'' @ u)"
    using prefix_word(1) list_all_weaken [OF u(2), of is_word] class_words by auto
  ultimately have "word_of s = ''AKIA'' @ u" using word_of_whole u(3) by metis
  then show ?R using u by (simp add: aws_word_def starts_with_def)
next
  assume R: ?R
  obtain w rest where w: "s = w @ rest" "ends_word rest" "word_of s = w" by (metis word_of_split)
  then have "aws_word w" using R by simp
  then show ?L using w(1,2) starts_with_app [of "''AKIA''" w rest] by (simp add: aws_word_def)
qed

lemma whole_word_aws: "whole_word match_aws aws_word"
  unfolding whole_word_def
proof (intro conjI allI impI)
  fix prev s
  have "aws_word (word_of s) \<Longrightarrow> length (word_of s) = 20" by (simp add: aws_word_def)
  then show "match_aws prev s = (if starts_word prev \<and> aws_word (word_of s) then Some (length (word_of s)) else None)"
    unfolding match_aws_def using aws_text [of s] by auto
next
  fix w assume "aws_word w"
  then show "18 \<le> length w" "is_alnum (hd w)"
    by (auto simp: aws_word_def starts_with_iff is_alnum_def is_upper_def)
qed

lemma id_text:
  "18 \<le> length s \<and> list_all is_digit (take 17 s) \<and> (is_digit (s ! 17) \<or> s ! 17 \<in> {CHR ''X'', CHR ''x''}) \<and>
     ends_word (drop 18 s) \<longleftrightarrow> id_word (word_of s)" (is "?L \<longleftrightarrow> ?R")
proof
  assume L: ?L
  define u where "u = take 17 s @ [s ! 17]"
  have "Suc 17 \<le> length s" using L by simp
  then have u: "u = take 18 s" using take_Suc_conv_app_nth [of 17 s] by (simp add: u_def)
  have "list_all is_word (take 17 s)" using L class_words by (auto simp: list_all_iff)
  moreover have "is_word (s ! 17)" using L class_words by (auto simp: is_word_def is_alnum_def is_upper_def is_lower_def)
  ultimately have "list_all is_word u" by (simp add: u_def)
  then have w: "word_of s = take 18 s" using word_of_whole [of u "drop 18 s"] L by (simp add: u)
  then show ?R using L by (simp add: id_word_def min_def)
next
  assume R: ?R
  obtain w rest where w: "s = w @ rest" "ends_word rest" "word_of s = w" by (metis word_of_split)
  then have "id_word w" using R by simp
  then show ?L using w(1,2) by (simp add: id_word_def nth_append)
qed

lemma whole_word_id: "whole_word match_id id_word"
  unfolding whole_word_def
proof (intro conjI allI impI)
  fix prev s
  have "id_word (word_of s) \<Longrightarrow> length (word_of s) = 18" by (simp add: id_word_def)
  then show "match_id prev s = (if starts_word prev \<and> id_word (word_of s) then Some (length (word_of s)) else None)"
    unfolding match_id_def using id_text [of s] by auto
next
  fix w assume w: "id_word w"
  then show "18 \<le> length w" by (simp add: id_word_def)
  show "is_alnum (hd w)" using w by (cases w) (auto simp: id_word_def is_alnum_def)
qed

lemma github_text:
  fixes s :: string
  defines "n \<equiv> run_length is_alnum (drop 4 s)"
  shows "(\<exists>c \<in> set ''pousr''. starts_with (''gh'' @ [c, CHR ''_'']) s) \<and> 36 \<le> n \<and> n \<le> 255 \<and> ends_word (drop (4 + n) s)
     \<longleftrightarrow> github_word (word_of s)" (is "?L \<longleftrightarrow> ?R")
    and "github_word (word_of s) \<Longrightarrow> 4 + n = length (word_of s)"
proof -
  have run: "4 + n = length (word_of s)" if R: ?R
  proof -
    obtain rest where s: "s = word_of s @ rest" "ends_word rest" by (rule word_of_split)
    define w where "w = word_of s"
    have w: "4 \<le> length w" "list_all is_alnum (drop 4 w)" using R by (simp_all add: github_word_def w_def)
    have "drop 4 s = drop 4 w @ rest" using s(1) w(1) by (simp flip: w_def)
    moreover have "takeWhile is_alnum rest = []"
      using s(2) class_words(1) by (cases rest) (auto simp: ends_word_def)
    ultimately have "takeWhile is_alnum (drop 4 s) = drop 4 w"
      using w(2) by (simp add: takeWhile_append list_all_iff)
    then show ?thesis using w(1) by (simp add: n_def run_length_def flip: w_def)
  qed
  show "4 + n = length (word_of s)" if ?R using run that .
  show "?L \<longleftrightarrow> ?R"
  proof
    assume L: ?L
    then obtain c t where c: "c \<in> set ''pousr''" and t: "s = (''gh'' @ [c, CHR ''_'']) @ t" by (auto simp: starts_with_iff)
    define u where "u = takeWhile is_alnum t"
    have n: "n = length u" by (simp add: n_def t run_length_def u_def)
    have tu: "t = u @ drop n t" unfolding n u_def by (metis append_take_drop_id takeWhile_eq_take)
    have "drop (4 + n) s = drop n (drop 4 s)" by (simp add: add.commute)
    then have "drop (4 + n) s = drop n t" by (simp add: t)
    then have "ends_word (drop n t)" using L by simp
    moreover have "list_all is_alnum u" by (auto simp: u_def list_all_iff dest: set_takeWhileD)
    moreover from this have "list_all is_word ((''gh'' @ [c, CHR ''_'']) @ u)"
      using prefix_word(2) [OF c] list_all_weaken [of is_alnum u is_word] class_words(1) by auto
    moreover have "s = ((''gh'' @ [c, CHR ''_'']) @ u) @ drop n t" using tu by (simp add: t)
    ultimately have w: "word_of s = (''gh'' @ [c, CHR ''_'']) @ u" using word_of_whole by metis
    then show ?R using L c n \<open>list_all is_alnum u\<close> by (auto simp: github_word_def starts_with_def)
  next
    assume R: ?R
    obtain w rest where w: "s = w @ rest" "ends_word rest" "word_of s = w" by (metis word_of_split)
    have g: "github_word w" using R w(3) by simp
    then obtain c where "c \<in> set ''pousr''" "starts_with (''gh'' @ [c, CHR ''_'']) w" unfolding github_word_def by blast
    then have "\<exists>c \<in> set ''pousr''. starts_with (''gh'' @ [c, CHR ''_'']) s" unfolding w(1) using starts_with_app by blast
    moreover have len: "length w = 4 + n" using run [OF R] w(3) by simp
    moreover from this have "drop (4 + n) s = rest" by (simp add: w(1))
    ultimately show ?L using g w(2) by (simp add: github_word_def)
  qed
qed

lemma whole_word_github: "whole_word match_github github_word"
  unfolding whole_word_def
proof (intro conjI allI impI)
  fix prev s
  show "match_github prev s = (if starts_word prev \<and> github_word (word_of s) then Some (length (word_of s)) else None)"
    unfolding match_github_def Let_def using github_text [of s] by auto
next
  fix w assume "github_word w"
  then show "18 \<le> length w" "is_alnum (hd w)"
    by (auto simp: github_word_def starts_with_iff is_alnum_def is_lower_def)
qed

section \<open>Calm replacements\<close>

definition short_words :: "string \<Rightarrow> bool" where
  "short_words r \<longleftrightarrow> list_all (\<lambda>v. length (word_of v) < 18) (suffixes r)"

lemma word_of_stopped: "v \<noteq> [] \<Longrightarrow> \<not> is_word (last v) \<Longrightarrow> word_of (v @ x) = word_of v"
  by (induction v) (auto split: if_splits)

lemma clear_in_replacement:
  assumes "whole_word t W" and "short_words r" and "r \<noteq> []" and "\<not> is_word (last r)" and "clear t (Some (last r)) x"
  shows "clear t prev (r @ x)"
  using assms(2-)
proof (induction r arbitrary: prev)
  case (Cons c r)
  have "word_of ((c # r) @ x) = word_of (c # r)" using Cons.prems by (intro word_of_stopped) simp_all
  moreover have "length (word_of (c # r)) < 18" using Cons.prems(1) by (simp add: short_words_def)
  ultimately have "\<not> W (word_of (c # r @ x))" using whole_wordD(2) [OF assms(1)] by fastforce
  then have "t prev (c # r @ x) = None" by (simp add: whole_wordD(1) [OF assms(1)])
  moreover have "clear t (Some c) (r @ x)"
    using Cons.IH [of "Some c"] Cons.prems by (cases "r = []") (simp_all add: short_words_def)
  ultimately show ?case by simp
qed simp

lemma calm_whole_word:
  assumes t: "whole_word t W" and r: "short_words r" "r \<noteq> []" "\<not> is_word (last r)"
    and kept: "\<And>c s. is_word c \<Longrightarrow> W (word_of (c # re_sub m r (Some c) s)) \<Longrightarrow> W (word_of (c # s))"
  shows "calm t m r"
  unfolding calm_def
proof (intro conjI allI impI)
  have W: "W w \<Longrightarrow> w \<noteq> []" for w using whole_wordD(2) [OF t, of w] by auto
  fix prev v assume "t prev v \<noteq> None"
  then have "W (word_of v)" by (simp add: whole_wordD(1) [OF t] split: if_splits)
  then show "v \<noteq> []" "is_alnum (hd v)"
    using W whole_wordD(3) [OF t] by (cases v; force split: if_splits)+
next
  fix prev c s assume "t prev (c # re_sub m r (Some c) s) \<noteq> None"
  then have w: "starts_word prev" "W (word_of (c # re_sub m r (Some c) s))"
    by (simp_all add: whole_wordD(1) [OF t] split: if_splits)
  then have "is_word c" using whole_wordD(2) [OF t, of "word_of (c # re_sub m r (Some c) s)"] by (auto split: if_splits)
  then have "W (word_of (c # s))" using kept w(2) by blast
  then show "t prev (c # s) \<noteq> None" using w(1) by (simp add: whole_wordD(1) [OF t])
next
  fix prev x assume "clear t (Some (last r)) x"
  then show "clear t prev (r @ x)" by (rule clear_in_replacement [OF t r])
qed (simp add: whole_wordD(1) [OF t])

lemma word_of_re_sub:
  assumes "whole_word m V" and "r \<noteq> []" and "\<not> is_word (hd r)" and "is_word c"
  shows "word_of (re_sub m r (Some c) s) = word_of s"
  using assms(4)
proof (induction s arbitrary: c)
  case (Cons d s)
  show ?case
  proof (cases "is_word d")
    case True
    have "m (Some c) (d # s) = None" using Cons.prems by (simp add: whole_wordD(1) [OF assms(1)] starts_word_def)
    then show ?thesis using Cons.IH True by (simp add: re_sub_miss)
  next
    case False
    then have "m (Some c) (d # s) = None"
      using whole_wordD(2) [OF assms(1), of "[]"] by (auto simp: whole_wordD(1) [OF assms(1)])
    then show ?thesis using False by (simp add: re_sub_miss)
  qed
qed simp

section \<open>The bearer scrubber\<close>

abbreviation BEARER :: string where "BEARER \<equiv> ''Bearer <REDACTED>''"

lemma space_no_word: "is_space c \<Longrightarrow> \<not> is_word c"
  by (auto simp: is_space_def Let_def is_word_def is_alnum_def is_upper_def is_lower_def is_digit_def)

lemma word_of_bearer:
  "word_of (re_sub match_bearer BEARER prev s) = word_of s \<or>
   (\<exists>w u. word_of (re_sub match_bearer BEARER prev s) = w @ ''Bearer'' \<and> word_of s = w @ u \<and>
      length u = 6 \<and> list_all is_alnum u)"
proof (induction prev s rule: scan_induct [where m = match_bearer])
  case (2 prev c s)
  show ?case
  proof (cases "is_word c")
    case True
    from "2.IH" show ?thesis
    proof
      assume "\<exists>w u. word_of (re_sub match_bearer BEARER (Some c) s) = w @ ''Bearer'' \<and> word_of s = w @ u \<and>
        length u = 6 \<and> list_all is_alnum u"
      then obtain w u where "word_of (re_sub match_bearer BEARER (Some c) s) = w @ ''Bearer''" "word_of s = w @ u"
        "length u = 6" "list_all is_alnum u" by blast
      then show ?thesis
        using True "2.hyps" by (intro disjI2 exI [of _ "c # w"] exI [of _ u]) (simp add: re_sub_miss)
    qed (use True "2.hyps" in \<open>simp add: re_sub_miss\<close>)
  qed (use "2.hyps" in \<open>simp add: re_sub_miss\<close>)
next
  case (3 prev c s k)
  from bearer_text [OF "3.hyps"(1)] obtain u rest where u: "c # s = u @ rest" "list_all is_alnum u" "length u = 6"
    "rest \<noteq> []" "is_space (hd rest)" by metis
  have "ends_word rest" using u(4,5) space_no_word by (cases rest) (simp_all add: ends_word_def)
  moreover have "list_all is_word u" by (rule list_all_weaken [OF u(2) class_words(1)])
  ultimately have "word_of (c # s) = u" unfolding u(1) by (rule word_of_whole [rotated])
  moreover have "word_of (re_sub match_bearer BEARER prev (c # s)) = ''Bearer''"
    using "3.hyps" by (simp add: re_sub_hit is_word_def is_alnum_def is_upper_def is_lower_def is_digit_def)
  ultimately show ?case using u(2,3) by (intro disjI2 exI [of _ "[]"] exI [of _ u]) simp
qed simp

lemma bearer_words:
  assumes "length u = 6" and "list_all is_alnum u"
  shows "\<not> aws_word (w @ ''Bearer'')" "\<not> id_word (w @ ''Bearer'')"
    and "github_word (w @ ''Bearer'') \<Longrightarrow> github_word (w @ u)"
proof -
  show "\<not> id_word (w @ ''Bearer'')" by (auto simp: id_word_def nth_append is_digit_def)
  show "\<not> aws_word (w @ ''Bearer'')" by (auto simp: aws_word_def is_digit_def is_upper_def)
  assume g: "github_word (w @ ''Bearer'')"
  then have "34 \<le> length w" by (simp add: github_word_def)
  then show "github_word (w @ u)" using g assms by (auto simp: github_word_def starts_with_def)
qed

lemma lower_B: "lower_char CHR ''B'' = CHR ''b''"
  by code_simp

definition bearer_char :: "char \<Rightarrow> bool" where
  "bearer_char c \<longleftrightarrow> is_alnum c \<or> c \<in> {CHR ''.'', CHR ''_'', CHR ''-''}"

lemma bearer_at:
  "match_bearer prev (c # y) \<noteq> None \<longleftrightarrow> lower_char c = CHR ''b'' \<and> starts_with ''earer'' (str_lower y) \<and>
     1 \<le> run_length is_space (drop 5 y) \<and>
     20 \<le> run_length bearer_char (drop (run_length is_space (drop 5 y)) (drop 5 y))"
proof -
  have "drop (6 + n) (c # y) = drop n (drop 5 y)" for n by (simp add: drop_Cons' add.commute)
  then show ?thesis
    by (simp add: match_bearer_def Let_def starts_with_def str_lower_def bearer_char_def [abs_def] conj_assoc del: drop_drop)
qed

lemma starts_bearer_re_sub:
  assumes "starts_with p (str_lower (re_sub match_bearer BEARER prev s))" and "CHR ''b'' \<notin> set p"
  shows "starts_with p (str_lower s) \<and>
    (\<exists>q. drop (length p) (re_sub match_bearer BEARER prev s) = re_sub match_bearer BEARER q (drop (length p) s))"
  using assms
proof (induction p arbitrary: prev s)
  case Nil
  then show ?case by (auto simp: starts_with_def)
next
  case (Cons a p)
  obtain c s' where s: "s = c # s'" using Cons.prems(1) by (cases s) (simp_all add: starts_with_def str_lower_def)
  show ?case
  proof (cases rule: re_sub_cases [of match_bearer prev c s'])
    case 1
    then have "re_sub match_bearer BEARER prev s = c # re_sub match_bearer BEARER (Some c) s'" by (simp add: s re_sub_miss)
    then show ?thesis using Cons.IH [of "Some c" s'] Cons.prems by (auto simp: s starts_with_def str_lower_def)
  next
    case (2 k)
    then have "a = CHR ''b''"
      using Cons.prems(1) by (simp add: s re_sub_hit starts_with_def str_lower_def lower_B)
    then show ?thesis using Cons.prems(2) by simp
  qed
qed

lemma space_run_re_sub:
  "run_length is_space (re_sub match_bearer BEARER prev s) = run_length is_space s \<and>
   (\<exists>q. drop (run_length is_space s) (re_sub match_bearer BEARER prev s) =
        re_sub match_bearer BEARER q (drop (run_length is_space s) s))"
proof (induction prev s rule: scan_induct [where m = match_bearer])
  case (2 prev c s)
  then show ?case by (auto simp: re_sub_miss run_length_def intro: exI [of _ prev])
next
  case (3 prev c s k)
  from bearer_text [OF "3.hyps"(1)] obtain u rest where u: "c # s = u @ rest" "list_all is_alnum u" "length u = 6" by metis
  then have "is_alnum c" by (cases u) simp_all
  then have "\<not> is_space c" using space_no_word class_words(1) by blast
  then show ?case using "3.hyps" by (auto simp: run_length_def is_space_def re_sub_hit intro: exI [of _ prev])
qed (auto simp: run_length_def)

lemma calm_bearer_bearer: "calm match_bearer match_bearer BEARER"
  unfolding calm_def
proof (intro conjI allI impI)
  fix prev v assume "match_bearer prev v \<noteq> None"
  then obtain k where "match_bearer prev v = Some k" by blast
  from bearer_text [OF this] obtain u rest where "v = u @ rest" "list_all is_alnum u" "length u = 6" by metis
  then show "v \<noteq> []" "is_alnum (hd v)" by (cases u; simp)+
next
  fix prev c s
  let ?y = "re_sub match_bearer BEARER (Some c) s"
  assume "match_bearer prev (c # ?y) \<noteq> None"
  then have c: "lower_char c = CHR ''b''" and st: "starts_with ''earer'' (str_lower ?y)"
    and sp: "1 \<le> run_length is_space (drop 5 ?y)"
    and n: "20 \<le> run_length bearer_char (drop (run_length is_space (drop 5 ?y)) (drop 5 ?y))"
    unfolding bearer_at by blast+
  from starts_bearer_re_sub [OF st] obtain q where s: "starts_with ''earer'' (str_lower s)"
    and d: "drop 5 ?y = re_sub match_bearer BEARER q (drop 5 s)" by (auto simp: eval_nat_numeral)
  from space_run_re_sub [of q "drop 5 s"] obtain q' where
    l: "run_length is_space (drop 5 ?y) = run_length is_space (drop 5 s)" and
    e: "drop (run_length is_space (drop 5 s)) (drop 5 ?y) =
      re_sub match_bearer BEARER q' (drop (run_length is_space (drop 5 s)) (drop 5 s))" unfolding d by blast
  have "key_class bearer_char"
    by (auto simp: key_class_def bearer_char_def is_alnum_def is_upper_def is_lower_def is_digit_def)
  then have "run_length bearer_char (BEARER @ x) \<le> run_length bearer_char v" if "match_bearer prev v = Some k" for prev v k x
    using bearer_run [OF _ that, of bearer_char]
    by (simp add: run_length_def bearer_char_def is_alnum_def is_upper_def is_lower_def is_digit_def)
  then have "run_length bearer_char (re_sub match_bearer BEARER q' (drop (run_length is_space (drop 5 s)) (drop 5 s))) \<le>
      run_length bearer_char (drop (run_length is_space (drop 5 s)) (drop 5 s))" by (rule run_re_sub)
  then have "20 \<le> run_length bearer_char (drop (run_length is_space (drop 5 s)) (drop 5 s))"
    using n unfolding l e by linarith
  then show "match_bearer prev (c # s) \<noteq> None" unfolding bearer_at using c s sp l by simp
next
  fix prev x assume "clear match_bearer (Some (last BEARER)) x"
  then show "clear match_bearer prev (BEARER @ x)"
    by (simp add: match_bearer_def Let_def starts_with_def str_lower_def lower_char_def is_upper_def run_length_def
        is_space_def is_alnum_def is_lower_def is_digit_def)
qed (simp add: match_bearer_def)

section \<open>Scrubbing twice\<close>

lemma short_replacements: "list_all (\<lambda>(m, r). short_words r \<and> r \<noteq> [] \<and> \<not> is_word (last r)) SCRUBBERS"
  by (simp add: SCRUBBERS_def short_words_def is_word_def is_alnum_def is_upper_def is_lower_def is_digit_def)

lemma calm_after:
  assumes "whole_word t W"
    and "\<And>w u. length u = 6 \<Longrightarrow> list_all is_alnum u \<Longrightarrow> W (w @ ''Bearer'') \<Longrightarrow> W (w @ u)"
  shows "list_all (\<lambda>(m, r). calm t m r \<and> stops m) (drop 3 SCRUBBERS)"
proof -
  have r: "short_words r" "r \<noteq> []" "\<not> is_word (last r)" if "(m, r) \<in> set SCRUBBERS" for m r
    using short_replacements that by (auto simp: list_all_iff)
  have whole: "calm t m r" if "whole_word m V" "(m, r) \<in> set SCRUBBERS" "hd r = CHR ''<''" for m V r
  proof (rule calm_whole_word [OF assms(1) r [OF that(2)]])
    fix c s assume "is_word c" and "W (word_of (c # re_sub m r (Some c) s))"
    moreover have "\<not> is_word (hd r)" using that(3) by (simp add: is_word_def is_alnum_def is_upper_def is_lower_def is_digit_def)
    ultimately show "W (word_of (c # s))" using word_of_re_sub [OF that(1) r(2) [OF that(2)], of c s] by simp
  qed
  have "calm t match_bearer BEARER"
  proof (rule calm_whole_word [OF assms(1)])
    fix c s assume c: "is_word c" and W: "W (word_of (c # re_sub match_bearer BEARER (Some c) s))"
    from word_of_bearer [of "Some c" s] show "W (word_of (c # s))"
    proof
      assume "word_of (re_sub match_bearer BEARER (Some c) s) = word_of s"
      then show ?thesis using W c by simp
    next
      assume "\<exists>w u. word_of (re_sub match_bearer BEARER (Some c) s) = w @ ''Bearer'' \<and> word_of s = w @ u \<and>
        length u = 6 \<and> list_all is_alnum u"
      then obtain w u where "word_of (re_sub match_bearer BEARER (Some c) s) = w @ ''Bearer''" "word_of s = w @ u"
        and u: "length u = 6" "list_all is_alnum u" by blast
      then show ?thesis using W c assms(2) [OF u, of "c # w"] by simp
    qed
  qed (use r [of match_bearer BEARER] in \<open>simp_all add: SCRUBBERS_def\<close>)
  then show ?thesis
    using whole [OF whole_word_aws] whole [OF whole_word_github] whole [OF whole_word_id] stops_scrubbers
    by (simp add: SCRUBBERS_def)
qed

lemma scrub_split:
  "scrub raw = fold (\<lambda>(m, r) out. re_sub m r None out) (drop 3 SCRUBBERS)
     (fold (\<lambda>(m, r) out. re_sub m r None out) (take 3 SCRUBBERS) raw)"
  "scrub raw = re_sub match_bearer BEARER None
     (fold (\<lambda>(m, r) out. re_sub m r None out) (take 6 SCRUBBERS) raw)"
  by (simp_all add: scrub_def SCRUBBERS_def)

lemma clear_first_match: "(\<And>m. m \<in> set ms \<Longrightarrow> clear m prev s) \<Longrightarrow> clear (first_match ms) prev s"
proof (induction s arbitrary: prev)
  case (Cons c s)
  have "first_match ms prev (c # s) = None"
    using first_match_cases(2) [of ms prev "c # s"] Cons.prems by (cases "first_match ms prev (c # s)") fastforce+
  moreover have "clear (first_match ms) (Some c) s" by (rule Cons.IH) (use Cons.prems in fastforce)
  ultimately show ?case by simp
qed simp

lemma all_cleared: "list_all (\<lambda>(m, r). clear m None (scrub raw)) SCRUBBERS"
proof -
  have word: "clear t None (scrub raw)"
    if "whole_word t W" "\<And>w u. length u = 6 \<Longrightarrow> list_all is_alnum u \<Longrightarrow> W (w @ ''Bearer'') \<Longrightarrow> W (w @ u)"
      "t \<in> {match_aws, match_github, match_id}" for t W
    unfolding scrub_split(1)
    by (rule clear_fold [OF calm_after [OF that(1,2)]]) (use that(3) in \<open>auto simp: SCRUBBERS_def\<close>)
  have "clear match_aws None (scrub raw)" by (rule word [OF whole_word_aws]) (use bearer_words in auto)
  moreover have "clear match_github None (scrub raw)" by (rule word [OF whole_word_github]) (use bearer_words in auto)
  moreover have "clear match_id None (scrub raw)" by (rule word [OF whole_word_id]) (use bearer_words in auto)
  moreover have "clear match_bearer None (scrub raw)"
    unfolding scrub_split(2)
    by (rule clear_re_sub [OF calm_bearer_bearer]) (use stops_scrubbers in \<open>simp_all add: SCRUBBERS_def\<close>)
  moreover have "clear match_openai None (scrub raw)"
    using keys_cleared [of raw] by (simp add: KEY_PATTERNS_def match_openai_def)
  moreover have "clear match_stripe None (scrub raw)"
    unfolding match_stripe_def by (rule clear_first_match) (insert keys_cleared [of raw], auto simp: KEY_PATTERNS_def)
  moreover have "clear match_slack None (scrub raw)"
    unfolding match_slack_def by (rule clear_first_match) (insert keys_cleared [of raw], auto simp: KEY_PATTERNS_def)
  ultimately show ?thesis by (simp add: SCRUBBERS_def)
qed

lemma re_sub_clear: "clear m prev s \<Longrightarrow> re_sub m r prev s = s"
  by (induction s arbitrary: prev) (simp_all add: re_sub_miss)

lemma scrub_clear:
  "list_all (\<lambda>(m, r). clear m None s) xs \<Longrightarrow> fold (\<lambda>(m, r) out. re_sub m r None out) xs s = s"
  by (induction xs) (auto simp: re_sub_clear)


end
