(* ===== verification/Pending_Calls.thy ===== *)
theory Pending_Calls
  imports Interceptors Recorder
begin

text \<open>
  What the interceptors \<open>backtest.py\<close> and \<open>mcp_fields.py\<close> of
  \<open>src/worker/adapters/opencode/interceptors/\<close> share: the calls of tools that have started and not
  finished, by \<open>tool_use_id\<close> in the order of their arrival, with a limit on their number, and the
  lookup of a field of \<open>part.metadata\<close> in a raw event.
\<close>

type_synonym pending_calls = "(string \<times> string \<times> dict) list"

text \<open>\<open>_stash_pending\<close>: with the limit reached, the oldest call goes, even if the new one replaces a
  call that is already there.\<close>

definition stash_pending :: "int \<Rightarrow> dict \<Rightarrow> pending_calls \<Rightarrow> pending_calls" where
  "stash_pending limit p calls =
     (case (dict_get p ''tool_use_id'' JNull, dict_get p ''tool'' JNull) of
        (JStr (c # cs), JStr tool) \<Rightarrow>
          dict_set (c # cs) (tool, obj_of (py_or (dict_get p ''args'' JNull) (JObj [])))
            (if limit \<le> int (length calls) then drop 1 calls else calls)
      | _ \<Rightarrow> calls)"

definition raw_metadata :: "dict \<Rightarrow> dict option" where
  "raw_metadata raw =
     (case dict_get raw ''part'' JNull of
        JObj part \<Rightarrow> (case dict_get part ''metadata'' JNull of JObj meta \<Rightarrow> Some meta | _ \<Rightarrow> None)
      | _ \<Rightarrow> None)"

lemma stash_pending_cases:
  obtains "stash_pending limit p calls = calls"
  | c cs v where "dict_get p ''tool_use_id'' JNull = JStr (c # cs)"
      "stash_pending limit p calls = dict_set (c # cs) v (if limit \<le> int (length calls) then drop 1 calls else calls)"
proof (cases "\<exists>c cs tool. dict_get p ''tool_use_id'' JNull = JStr (c # cs) \<and> dict_get p ''tool'' JNull = JStr tool")
  case True
  then show thesis using that(2) by (auto simp: stash_pending_def)
next
  case False
  then have "stash_pending limit p calls = calls" by (auto simp: stash_pending_def split: json.splits list.splits)
  then show thesis by (rule that(1))
qed

lemma stash_pending_bounded:
  assumes "int (length calls) \<le> max 1 limit"
  shows "int (length (stash_pending limit p calls)) \<le> max 1 limit"
  by (cases rule: stash_pending_cases [of limit p calls]) (use assms in \<open>auto simp: length_dict_set\<close>)

lemma stash_pending_distinct:
  assumes "distinct (map fst calls)"
  shows "distinct (map fst (stash_pending limit p calls))"
proof -
  have "distinct (map fst (drop 1 calls))" using assms by (simp add: distinct_drop flip: drop_map)
  then show ?thesis
    using assms by (cases rule: stash_pending_cases [of limit p calls]) (simp_all add: distinct_dict_set)
qed

lemma length_dict_pop: "length (dict_pop k ps) \<le> length ps"
  by (simp add: dict_pop_def)

lemma stash_pending_load: "length (stash_pending limit p calls) \<le> Suc (length calls)"
  by (cases rule: stash_pending_cases [of limit p calls]) (auto simp: length_dict_set)

lemma dict_set_again: "dict_set k v (dict_set k v ps) = dict_set k v ps"
  by (induction k v ps rule: dict_set.induct) simp_all

text \<open>Below the limit a call that is stashed twice is stashed once; at the limit the second drops one more.\<close>

lemma stash_pending_again:
  assumes "int (length calls) + 1 < limit"
  shows "stash_pending limit p (stash_pending limit p calls) = stash_pending limit p calls"
proof (cases "\<exists>c cs tool. dict_get p ''tool_use_id'' JNull = JStr (c # cs) \<and> dict_get p ''tool'' JNull = JStr tool")
  case True
  then obtain k v where st: "stash_pending limit p xs = dict_set k v (if limit \<le> int (length xs) then drop 1 xs else xs)"
    for xs by (auto simp: stash_pending_def)
  have "\<not> limit \<le> int (length (dict_set k v calls))" using assms by (simp add: length_dict_set)
  then show ?thesis using assms by (simp add: st dict_set_again)
next
  case False
  then show ?thesis by (auto simp: stash_pending_def split: json.splits list.splits)
qed

text \<open>An entry that is dropped is the oldest; the others stay.\<close>

lemma stash_pending_keeps:
  assumes "map_of calls k = Some v" and "int (length calls) < limit" and "dict_get p ''tool_use_id'' JNull \<noteq> JStr k"
  shows "map_of (stash_pending limit p calls) k = Some v"
  by (cases rule: stash_pending_cases [of limit p calls]) (use assms in auto)

end
