(* ===== verification/Mcp_Fields.thy ===== *)
theory Mcp_Fields
  imports Pending_Calls Config Metrics "HOL-Library.Product_Lexorder" "HOL-Library.Multiset"
begin

text \<open>
  The interceptor that records which fields of an MCP tool are used,
  \<open>src/worker/adapters/opencode/interceptors/mcp_fields.py\<close>: its state, the two events it listens to
  and the summary it writes at the end. The regular expression for the name of the MCP server is a
  function of the options; the default one is written out. Python's sets of texts are lists without
  duplicates, sorted where the code sorts them.
\<close>

section \<open>State\<close>

text \<open>\<open>re.match\<close> and \<open>group(1)\<close>: no match, a pattern without groups (\<open>IndexError\<close>), or the group,
  \<open>None\<close> when it took no part in the match.\<close>

datatype mcp_match = No_match | No_group | Group "string option"

record mcp_options =
  mo_match :: "string \<Rightarrow> mcp_match"
  mo_read_key :: string
  mo_max_pending :: int

record field_use =
  fu_count :: nat
  fu_inputs :: "string list"
  fu_outputs :: "string list"

record mcp_state =
  mf_pending :: pending_calls
  mf_processed :: "string list"
  mf_aggregates :: "((string option \<times> string) \<times> field_use) list"
  mf_task :: "string option"
  mf_terminal :: "string option"

text \<open>\<open>^([a-z][a-z0-9-]+)\.\<close>\<close>

definition default_mcp_name :: "string \<Rightarrow> mcp_match" where
  "default_mcp_name tool =
     (let seg = takeWhile name_char tool in
      if 2 \<le> length seg \<and> is_lower (hd seg) \<and> starts_with ''.'' (drop (length seg) tool) then Group (Some seg)
      else No_match)"

text \<open>\<open>compile\<close> is \<open>re.compile\<close>, \<open>None\<close> for a pattern it refuses.\<close>

definition new_mcp_options :: "(string \<Rightarrow> (string \<Rightarrow> mcp_match) option) \<Rightarrow> string \<Rightarrow> string \<Rightarrow> int \<Rightarrow> exn + mcp_options" where
  "new_mcp_options compile pat key limit =
     (case compile pat of
        None \<Rightarrow> Inl (ValueError (''invalid mcp_name_pattern '' @ pat))
      | Some f \<Rightarrow> Inr \<lparr>mo_match = f, mo_read_key = key, mo_max_pending = limit\<rparr>)"

definition default_mcp_options :: mcp_options where
  "default_mcp_options = \<lparr>mo_match = default_mcp_name, mo_read_key = ''read_fields'', mo_max_pending = 1024\<rparr>"

definition new_mcp_state :: mcp_state where
  "new_mcp_state = \<lparr>mf_pending = [], mf_processed = [], mf_aggregates = [], mf_task = None, mf_terminal = None\<rparr>"

section \<open>Events\<close>

definition extract_read_fields :: "string \<Rightarrow> dict \<Rightarrow> string list" where
  "extract_read_fields key raw =
     (case raw_metadata raw of
        None \<Rightarrow> []
      | Some meta \<Rightarrow>
          (case dict_get meta key JNull of
             JList vs \<Rightarrow> concat (map (\<lambda>v. case v of JStr (c # cs) \<Rightarrow> [c # cs] | _ \<Rightarrow> []) vs)
           | _ \<Rightarrow> []))"

definition no_use :: field_use where
  "no_use = \<lparr>fu_count = 0, fu_inputs = [], fu_outputs = []\<rparr>"

definition count_use :: "string list \<Rightarrow> string list \<Rightarrow> field_use \<Rightarrow> field_use" where
  "count_use ins outs u = \<lparr>fu_count = Suc (fu_count u), fu_inputs = fold List.insert ins (fu_inputs u),
     fu_outputs = fold List.insert outs (fu_outputs u)\<rparr>"

definition aggregate_finished :: "mcp_options \<Rightarrow> dict \<Rightarrow> dict \<Rightarrow> mcp_state \<Rightarrow> mcp_state" where
  "aggregate_finished mo raw p s =
     (case dict_get p ''tool_use_id'' JNull of
        JStr (c # cs) \<Rightarrow>
          (let tid = c # cs in
           if tid \<in> set (mf_processed s) then s
           else
             (case map_of (mf_pending s) tid of
                None \<Rightarrow> s
              | Some (tool, args) \<Rightarrow>
                  (let s1 = s\<lparr>mf_pending := dict_pop tid (mf_pending s), mf_processed := tid # mf_processed s\<rparr> in
                   case mo_match mo tool of
                     Group name \<Rightarrow>
                       (let use = (case map_of (mf_aggregates s) (name, tool) of None \<Rightarrow> no_use | Some u \<Rightarrow> u) in
                        s1\<lparr>mf_aggregates := dict_set (name, tool)
                             (count_use (map fst args) (extract_read_fields (mo_read_key mo) raw) use) (mf_aggregates s)\<rparr>)
                   | _ \<Rightarrow> s1)))
      | _ \<Rightarrow> s)"

definition mcp_on_event :: "mcp_options \<Rightarrow> interceptor_event \<Rightarrow> mcp_state \<Rightarrow> mcp_state" where
  "mcp_on_event mo ev s0 =
     (let s = (if mf_task s0 = None then s0\<lparr>mf_task := Some (ie_task_id ev)\<rparr> else s0);
          p = (case ie_normalized_payload ev of None \<Rightarrow> [] | Some d \<Rightarrow> d) in
      case ie_normalized_kind ev of
        None \<Rightarrow> s
      | Some kind \<Rightarrow>
          if kind = ''tool_call_started'' then s\<lparr>mf_pending := stash_pending (mo_max_pending mo) p (mf_pending s)\<rparr>
          else if kind = ''tool_call_finished'' then aggregate_finished mo (ie_raw_payload ev) p s
          else s)"

definition mcp_on_terminal :: "terminal_signal \<Rightarrow> mcp_state \<Rightarrow> mcp_state" where
  "mcp_on_terminal sg s = s\<lparr>mf_terminal := Some (tg_status sg)\<rparr>"

section \<open>The summary\<close>

text \<open>\<open>sorted(self._aggregates.items())\<close> raises where a name is \<open>None\<close> and another is a text.\<close>

definition use_order :: "(string option \<times> string) \<times> field_use \<Rightarrow> string \<times> string" where
  "use_order e = (case fst (fst e) of None \<Rightarrow> [] | Some m \<Rightarrow> m, snd (fst e))"

definition sorted_uses :: "((string option \<times> string) \<times> field_use) list \<Rightarrow> exn + ((string option \<times> string) \<times> field_use) list" where
  "sorted_uses es =
     (if list_ex (\<lambda>e. fst (fst e) = None) es \<and> list_ex (\<lambda>e. fst (fst e) \<noteq> None) es
      then Inl (TypeError ''< not supported between instances of NoneType and str'')
      else Inr (sort_key use_order es))"

definition opt_str :: "string option \<Rightarrow> json" where
  "opt_str v = (case v of None \<Rightarrow> JNull | Some t \<Rightarrow> JStr t)"

definition use_row :: "(string option \<times> string) \<times> field_use \<Rightarrow> json" where
  "use_row e = JObj [(''mcp_name'', opt_str (fst (fst e))), (''tool_name'', JStr (snd (fst e))),
     (''call_count'', JInt (int (fu_count (snd e)))),
     (''required_input_fields'', JList (map JStr (sort (fu_inputs (snd e))))),
     (''required_output_fields'', JList (map JStr (sort (fu_outputs (snd e)))))]"

text \<open>What the disk does: where the artifacts are, and the failures of \<open>mkdir\<close> and of the write.\<close>

record disk =
  dk_artifacts_dir :: string
  dk_mkdir_fails :: "string option"
  dk_write_fails :: "string option"

text \<open>The artifact and the file written, a path and its content.\<close>

definition mcp_flush :: "disk \<Rightarrow> mcp_state \<Rightarrow> exn + (interceptor_artifact \<times> string \<times> json) option" where
  "mcp_flush dk s =
     (case (mf_aggregates s, mf_task s) of
        (_ # _, Some tid) \<Rightarrow>
          if dk_mkdir_fails dk \<noteq> None then Inr None
          else
            (case sorted_uses (mf_aggregates s) of
               Inl e \<Rightarrow> Inl e
             | Inr es \<Rightarrow>
                 if dk_write_fails dk \<noteq> None then Inr None
                 else
                   let target = path_join (path_join (dk_artifacts_dir dk) tid) ''mcp_field_summary.json'' in
                   Inr (Some (\<lparr>ia_artifact_type = ''custom'', ia_filename = ''mcp_field_summary.json'', ia_local_path = target,
                      ia_metadata = [(''subtype'', JStr ''mcp_field_summary''), (''tool_count'', JInt (int (length es))),
                        (''terminal_status'', opt_str (mf_terminal s))],
                      ia_size_bytes = None\<rparr>, target,
                      JObj [(''task_id'', JStr tid), (''terminal_status'', opt_str (mf_terminal s)),
                        (''tool_count'', JInt (int (length es))), (''tools'', JList (map use_row es))])))
      | _ \<Rightarrow> Inr None)"

section \<open>Counted at most once\<close>

definition mcp_run :: "mcp_options \<Rightarrow> interceptor_event list \<Rightarrow> mcp_state \<Rightarrow> mcp_state" where
  "mcp_run mo evs s = fold (mcp_on_event mo) evs s"

definition finished_ids :: "interceptor_event list \<Rightarrow> string list" where
  "finished_ids evs = concat (map (\<lambda>ev. case (ie_normalized_kind ev, ie_normalized_payload ev) of
     (Some kind, Some p) \<Rightarrow> if kind = ''tool_call_finished'' then
        (case dict_get p ''tool_use_id'' JNull of JStr tid \<Rightarrow> [tid] | _ \<Rightarrow> []) else []
   | _ \<Rightarrow> []) evs)"

definition total_count :: "((string option \<times> string) \<times> field_use) list \<Rightarrow> nat" where
  "total_count es = sum_list (map (fu_count \<circ> snd) es)"

definition use_ok :: "field_use \<Rightarrow> bool" where
  "use_ok u \<longleftrightarrow> 1 \<le> fu_count u \<and> distinct (fu_inputs u) \<and> distinct (fu_outputs u)"

definition mcp_ok :: "mcp_options \<Rightarrow> mcp_state \<Rightarrow> bool" where
  "mcp_ok mo s \<longleftrightarrow> int (length (mf_pending s)) \<le> max 1 (mo_max_pending mo) \<and> distinct (mf_processed s) \<and>
     distinct (map fst (mf_aggregates s)) \<and> total_count (mf_aggregates s) \<le> length (mf_processed s) \<and>
     list_all (use_ok \<circ> snd) (mf_aggregates s)"

lemma distinct_fold_insert: "distinct ys \<Longrightarrow> distinct (fold List.insert xs ys)"
  by (induction xs arbitrary: ys) simp_all

lemma use_ok_count: "distinct (fu_inputs u) \<Longrightarrow> distinct (fu_outputs u) \<Longrightarrow> use_ok (count_use ins outs u)"
  by (simp add: use_ok_def count_use_def distinct_fold_insert)

lemma total_count_set:
  assumes "distinct (map fst es)"
    and "fu_count v = Suc (fu_count (case map_of es k of None \<Rightarrow> no_use | Some u \<Rightarrow> u))"
  shows "total_count (dict_set k v es) = Suc (total_count es)"
  using assms
proof (induction es)
  case (Cons e es)
  obtain a u where e: "e = (a, u)" by (cases e)
  show ?case
  proof (cases "a = k")
    case True
    then show ?thesis using Cons.prems(2) by (simp add: e total_count_def)
  next
    case False
    then show ?thesis using Cons by (simp add: e total_count_def)
  qed
qed (simp add: total_count_def no_use_def)

lemma list_all_dict_set: "list_all (Q \<circ> snd) es \<Longrightarrow> Q v \<Longrightarrow> list_all (Q \<circ> snd) (dict_set k v es)"
  by (induction k v es rule: dict_set.induct) simp_all

lemma aggregate_finished_ok:
  assumes "mcp_ok mo s"
  shows "mcp_ok mo (aggregate_finished mo raw p s)"
proof -
  have pop: "int (length (dict_pop tid (mf_pending s))) \<le> max 1 (mo_max_pending mo)" for tid
    using assms length_dict_pop [of tid "mf_pending s"] by (simp add: mcp_ok_def)
  have upd: "total_count (dict_set k (count_use ins outs use) (mf_aggregates s)) \<le> Suc (length (mf_processed s))"
      "distinct (map fst (dict_set k (count_use ins outs use) (mf_aggregates s)))"
      "list_all (use_ok \<circ> snd) (dict_set k (count_use ins outs use) (mf_aggregates s))"
    if "use = (case map_of (mf_aggregates s) k of None \<Rightarrow> no_use | Some u \<Rightarrow> u)" for k ins outs use
  proof -
    have "distinct (fu_inputs use) \<and> distinct (fu_outputs use)"
      using assms that map_of_SomeD [of "mf_aggregates s" k]
      by (fastforce simp: mcp_ok_def list_all_iff use_ok_def no_use_def split: option.splits)
    then show "list_all (use_ok \<circ> snd) (dict_set k (count_use ins outs use) (mf_aggregates s))"
      using assms by (intro list_all_dict_set use_ok_count) (simp_all add: mcp_ok_def)
    show "total_count (dict_set k (count_use ins outs use) (mf_aggregates s)) \<le> Suc (length (mf_processed s))"
      using total_count_set [of "mf_aggregates s" "count_use ins outs use" k] assms that
      by (simp add: mcp_ok_def count_use_def)
    show "distinct (map fst (dict_set k (count_use ins outs use) (mf_aggregates s)))"
      using assms by (simp add: mcp_ok_def distinct_dict_set)
  qed
  show ?thesis
    using assms pop upd
    by (auto simp: aggregate_finished_def Let_def mcp_ok_def split: json.splits list.splits option.splits mcp_match.splits)
qed

lemma mcp_on_event_ok: "mcp_ok mo s \<Longrightarrow> mcp_ok mo (mcp_on_event mo ev s)"
proof -
  assume ok: "mcp_ok mo s"
  define a where "a = (if mf_task s = None then s\<lparr>mf_task := Some (ie_task_id ev)\<rparr> else s)"
  have "mcp_ok mo a" using ok by (simp add: a_def mcp_ok_def)
  then show ?thesis
    unfolding mcp_on_event_def Let_def a_def [symmetric]
    using aggregate_finished_ok stash_pending_bounded
    by (auto simp: mcp_ok_def [of mo "a\<lparr>mf_pending := x\<rparr>" for x] split: option.splits) (auto simp: mcp_ok_def)
qed

lemma new_mcp_ok: "mcp_ok mo new_mcp_state"
  by (simp add: mcp_ok_def new_mcp_state_def total_count_def)

lemma aggregate_finished_processed:
  "set (mf_processed (aggregate_finished mo raw p s)) \<subseteq>
   set (mf_processed s) \<union> (case dict_get p ''tool_use_id'' JNull of JStr tid \<Rightarrow> {tid} | _ \<Rightarrow> {})"
  by (auto simp: aggregate_finished_def Let_def split: json.splits list.splits option.splits mcp_match.splits)

lemma mcp_on_event_processed:
  "set (mf_processed (mcp_on_event mo ev s)) \<subseteq> set (mf_processed s) \<union> set (finished_ids [ev])"
proof (cases "ie_normalized_kind ev = Some ''tool_call_finished''")
  case True
  define a where "a = (if mf_task s = None then s\<lparr>mf_task := Some (ie_task_id ev)\<rparr> else s)"
  define p where "p = (case ie_normalized_payload ev of None \<Rightarrow> [] | Some d \<Rightarrow> d)"
  have "mcp_on_event mo ev s = aggregate_finished mo (ie_raw_payload ev) p a"
    unfolding mcp_on_event_def Let_def a_def [symmetric] p_def [symmetric] by (simp add: True)
  moreover have "mf_processed a = mf_processed s" by (simp add: a_def)
  moreover have "(case dict_get p ''tool_use_id'' JNull of JStr tid \<Rightarrow> {tid} | _ \<Rightarrow> {}) \<subseteq> set (finished_ids [ev])"
    by (cases "ie_normalized_payload ev"; cases "dict_get p ''tool_use_id'' JNull") (simp_all add: finished_ids_def True p_def)
  ultimately show ?thesis using aggregate_finished_processed [of mo "ie_raw_payload ev" p a] by auto
next
  case False
  then show ?thesis by (auto simp: mcp_on_event_def Let_def split: option.splits)
qed

lemma finished_ids_append: "finished_ids (xs @ ys) = finished_ids xs @ finished_ids ys"
  by (simp add: finished_ids_def)

lemma mcp_run_processed:
  "set (mf_processed (mcp_run mo evs s)) \<subseteq> set (mf_processed s) \<union> set (finished_ids evs)"
proof (induction evs arbitrary: s)
  case (Cons ev evs)
  have "mcp_run mo (ev # evs) s = mcp_run mo evs (mcp_on_event mo ev s)" by (simp add: mcp_run_def)
  then show ?case
    using Cons [of "mcp_on_event mo ev s"] mcp_on_event_processed [of mo ev s] finished_ids_append [of "[ev]" evs] by auto
qed (simp add: mcp_run_def)

lemma aggregate_finished_again:
  assumes "\<And>t. dict_get p ''tool_use_id'' JNull = JStr t \<Longrightarrow> t \<in> set (mf_processed s)"
  shows "aggregate_finished mo raw p s = s"
  using assms by (cases "dict_get p ''tool_use_id'' JNull") (auto simp: aggregate_finished_def Let_def split: list.splits)

lemma mcp_on_event_again:
  assumes "set (finished_ids [ev]) \<subseteq> set (mf_processed s)"
  shows "mf_aggregates (mcp_on_event mo ev s) = mf_aggregates s \<and> mf_processed (mcp_on_event mo ev s) = mf_processed s"
proof (cases "ie_normalized_kind ev = Some ''tool_call_finished''")
  case True
  define a where "a = (if mf_task s = None then s\<lparr>mf_task := Some (ie_task_id ev)\<rparr> else s)"
  define p where "p = (case ie_normalized_payload ev of None \<Rightarrow> [] | Some d \<Rightarrow> d)"
  have "mcp_on_event mo ev s = aggregate_finished mo (ie_raw_payload ev) p a"
    unfolding mcp_on_event_def Let_def a_def [symmetric] p_def [symmetric] by (simp add: True)
  moreover have "aggregate_finished mo (ie_raw_payload ev) p a = a"
  proof (rule aggregate_finished_again)
    fix t assume t: "dict_get p ''tool_use_id'' JNull = JStr t"
    then obtain d where "ie_normalized_payload ev = Some d" "p = d"
      by (cases "ie_normalized_payload ev") (simp_all add: p_def)
    then show "t \<in> set (mf_processed a)" using assms t by (simp add: finished_ids_def True a_def)
  qed
  ultimately show ?thesis by (simp add: a_def)
next
  case False
  then show ?thesis by (auto simp: mcp_on_event_def Let_def split: option.splits)
qed

text \<open>A finished call is popped, so the same event finds none the second time.\<close>

lemma aggregate_finished_twice:
  "aggregate_finished mo raw p (aggregate_finished mo raw p s) = aggregate_finished mo raw p s"
proof (cases "aggregate_finished mo raw p s = s")
  case False
  then have "t \<in> set (mf_processed (aggregate_finished mo raw p s))" if "dict_get p ''tool_use_id'' JNull = JStr t" for t
    using that by (cases t) (auto simp: aggregate_finished_def Let_def split: option.splits mcp_match.splits)
  then show ?thesis by (rule aggregate_finished_again)
qed simp

lemma mcp_on_event_twice:
  assumes "int (length (mf_pending s)) + 1 < mo_max_pending mo"
  shows "mcp_on_event mo ev (mcp_on_event mo ev s) = mcp_on_event mo ev s"
proof -
  define a where "a t = (if mf_task t = None then t\<lparr>mf_task := Some (ie_task_id ev)\<rparr> else t)" for t :: mcp_state
  define p where "p = (case ie_normalized_payload ev of None \<Rightarrow> [] | Some d \<Rightarrow> d)"
  define f where "f t = (case ie_normalized_kind ev of None \<Rightarrow> t
    | Some kind \<Rightarrow>
        if kind = ''tool_call_started'' then t\<lparr>mf_pending := stash_pending (mo_max_pending mo) p (mf_pending t)\<rparr>
        else if kind = ''tool_call_finished'' then aggregate_finished mo (ie_raw_payload ev) p t else t)" for t
  have run: "mcp_on_event mo ev t = f (a t)" for t
    unfolding mcp_on_event_def Let_def a_def [symmetric] p_def [symmetric] f_def by simp
  have "mf_task (f t) = mf_task t" for t
    by (auto simp: f_def aggregate_finished_def Let_def split: option.splits json.splits list.splits mcp_match.splits)
  then have "a (f (a s)) = f (a s)" by (simp add: a_def)
  moreover have "int (length (mf_pending (a s))) + 1 < mo_max_pending mo" using assms by (simp add: a_def)
  then have "f (f (a s)) = f (a s)"
    by (simp add: f_def aggregate_finished_twice stash_pending_again split: option.split)
  ultimately show ?thesis by (simp add: run)
qed

lemma aggregate_finished_load: "length (mf_pending (aggregate_finished mo raw p s)) \<le> length (mf_pending s)"
  using length_dict_pop
  by (auto simp: aggregate_finished_def Let_def split: json.splits list.splits option.splits mcp_match.splits)

lemma mcp_on_event_load: "length (mf_pending (mcp_on_event mo ev s)) \<le> Suc (length (mf_pending s))"
proof -
  define a where "a = (if mf_task s = None then s\<lparr>mf_task := Some (ie_task_id ev)\<rparr> else s)"
  have "mf_pending a = mf_pending s" by (simp add: a_def)
  then show ?thesis
    unfolding mcp_on_event_def Let_def a_def [symmetric]
    using stash_pending_load [of _ _ "mf_pending s"] aggregate_finished_load [of mo _ _ a]
    by (auto intro: le_SucI split: option.split)
qed

interpretation mcp: idempotent_recorder "mcp_on_event mo" new_mcp_state "mcp_ok mo"
  "\<lambda>s. length (mf_pending s)" "nat (mo_max_pending mo - 1)" for mo
  by unfold_locales
    (simp_all add: new_mcp_ok mcp_on_event_ok mcp_on_event_load mcp_on_event_twice, simp add: new_mcp_state_def)

lemma mcp_run_again:
  assumes "list_all (\<lambda>ev. set (finished_ids [ev]) \<subseteq> set (mf_processed s)) evs"
  shows "mf_aggregates (mcp_run mo evs s) = mf_aggregates s"
  using assms
proof (induction evs arbitrary: s)
  case (Cons ev evs)
  have "mcp_run mo (ev # evs) s = mcp_run mo evs (mcp_on_event mo ev s)" by (simp add: mcp_run_def)
  moreover have again: "mf_aggregates (mcp_on_event mo ev s) = mf_aggregates s"
      "mf_processed (mcp_on_event mo ev s) = mf_processed s"
    using mcp_on_event_again [of ev s mo] Cons.prems by simp_all
  moreover have "mf_aggregates (mcp_run mo evs (mcp_on_event mo ev s)) = mf_aggregates (mcp_on_event mo ev s)"
    by (rule Cons.IH) (use Cons.prems again(2) in simp)
  ultimately show ?case by simp
qed (simp add: mcp_run_def)

text \<open>C32: A tool call is counted at most once: whatever the stream sends, all the counts together are no more
  than the different ids of finished calls, every count is at least one, at most the allowed number of
  started calls is kept, and sending calls again that have been counted, or starting them again, changes
  nothing of what is recorded.\<close>

theorem tool_calls_are_counted_once:
  "int (length (mf_pending (mcp_run mo evs new_mcp_state))) \<le> max 1 (mo_max_pending mo) \<and>
   total_count (mf_aggregates (mcp_run mo evs new_mcp_state)) \<le> card (set (finished_ids evs)) \<and>
   list_all (use_ok \<circ> snd) (mf_aggregates (mcp_run mo evs new_mcp_state)) \<and>
   mf_aggregates (mcp_run mo
     (evs @ filter (\<lambda>ev. set (finished_ids [ev]) \<subseteq> set (mf_processed (mcp_run mo evs new_mcp_state))) again) new_mcp_state) =
   mf_aggregates (mcp_run mo evs new_mcp_state)"
proof -
  let ?s = "mcp_run mo evs new_mcp_state"
  have ok: "mcp_ok mo ?s" unfolding mcp_run_def by (rule mcp.run_inv)
  have "set (mf_processed ?s) \<subseteq> set (finished_ids evs)"
    using mcp_run_processed [of mo evs new_mcp_state] by (simp add: new_mcp_state_def)
  then have "length (mf_processed ?s) \<le> card (set (finished_ids evs))"
    using ok card_mono [of "set (finished_ids evs)"] by (metis List.finite_set distinct_card mcp_ok_def)
  moreover have "mcp_run mo (evs @ xs) new_mcp_state = mcp_run mo xs ?s" for xs by (simp add: mcp_run_def)
  ultimately show ?thesis
    using ok mcp_run_again [of ?s "filter (\<lambda>ev. set (finished_ids [ev]) \<subseteq> set (mf_processed ?s)) again" mo]
    by (simp add: mcp_ok_def list_all_iff)
qed

text \<open>The recorder is idempotent, as its base class asks: with room for the events, delivering each of them
  twice in a row leaves exactly the state of delivering it once.\<close>

theorem a_repeated_event_changes_nothing:
  assumes "int (length evs) < mo_max_pending mo"
  shows "mcp_run mo (concat (map (\<lambda>ev. [ev, ev]) evs)) new_mcp_state = mcp_run mo evs new_mcp_state"
  unfolding mcp_run_def by (rule mcp.duplicates) (use assms in linarith)

section \<open>The rows of the summary\<close>

lemma sorted_uses_strict:
  assumes "sorted_uses es = Inr xs" and "distinct (map fst es)"
  shows "mset xs = mset es \<and> sorted_wrt (\<lambda>a b. use_order a < use_order b) xs"
proof -
  have xs: "xs = sort_key use_order es" using assms(1) by (simp add: sorted_uses_def split: if_splits)
  have same: "list_all (\<lambda>e. fst (fst e) = None) es \<or> list_all (\<lambda>e. fst (fst e) \<noteq> None) es"
    using assms(1) by (auto simp: sorted_uses_def list_ex_iff list_all_iff split: if_splits)
  have "inj_on use_order (set es)"
  proof (rule inj_onI)
    fix a b assume ab: "a \<in> set es" "b \<in> set es" "use_order a = use_order b"
    then have "fst a = fst b"
      using same by (cases a; cases b) (auto simp: use_order_def list_all_iff prod_eq_iff split: option.splits)
    with ab(1,2) assms(2) show "a = b" by (metis eq_key_imp_eq_value prod.collapse)
  qed
  moreover have "distinct es" using assms(2) by (simp add: distinct_map)
  ultimately have "distinct (map use_order xs)" by (simp add: xs distinct_map)
  moreover have "sorted (map use_order xs)" by (simp add: xs)
  ultimately have "sorted_wrt (<) (map use_order xs)" by (simp add: strict_sorted_iff)
  then show ?thesis by (simp add: xs sorted_wrt_map)
qed

text \<open>C33: The summary is a table with one row for each pair of server and tool that was called, in strictly
  increasing order of the pairs, each with its number of calls and its fields, sorted and without
  repetition; it goes to one file of the task's own directory.\<close>

theorem field_summary_is_a_table:
  assumes "mcp_flush dk (mcp_on_terminal sg (mcp_run mo evs new_mcp_state)) = Inr (Some (art, target, doc))"
  shows "\<exists>es tid. mf_task (mcp_run mo evs new_mcp_state) = Some tid \<and>
    target = path_join (path_join (dk_artifacts_dir dk) tid) ''mcp_field_summary.json'' \<and> ia_local_path art = target \<and>
    mset es = mset (mf_aggregates (mcp_run mo evs new_mcp_state)) \<and> sorted_wrt (\<lambda>a b. use_order a < use_order b) es \<and>
    list_all (\<lambda>e. sorted_wrt (<) (sort (fu_inputs (snd e))) \<and> sorted_wrt (<) (sort (fu_outputs (snd e)))) es \<and>
    doc = JObj [(''task_id'', JStr tid), (''terminal_status'', JStr (tg_status sg)),
      (''tool_count'', JInt (int (length es))), (''tools'', JList (map use_row es))]"
proof -
  define s where "s = mcp_run mo evs new_mcp_state"
  have ok: "mcp_ok mo s" unfolding s_def mcp_run_def by (rule mcp.run_inv)
  obtain es tid where es: "sorted_uses (mf_aggregates s) = Inr es" and tid: "mf_task s = Some tid"
    and doc: "doc = JObj [(''task_id'', JStr tid), (''terminal_status'', JStr (tg_status sg)),
      (''tool_count'', JInt (int (length es))), (''tools'', JList (map use_row es))]"
    and target: "target = path_join (path_join (dk_artifacts_dir dk) tid) ''mcp_field_summary.json'' \<and> ia_local_path art = target"
    using assms
    by (auto simp: mcp_flush_def mcp_on_terminal_def Let_def opt_str_def simp flip: s_def
        split: list.splits option.splits sum.splits if_splits)
  have st: "mset es = mset (mf_aggregates s) \<and> sorted_wrt (\<lambda>a b. use_order a < use_order b) es"
    using sorted_uses_strict [OF es] ok by (simp add: mcp_ok_def)
  then have "set es = set (mf_aggregates s)" by (metis mset_eq_setD)
  then have "list_all (\<lambda>e. sorted_wrt (<) (sort (fu_inputs (snd e))) \<and> sorted_wrt (<) (sort (fu_outputs (snd e)))) es"
    using ok by (auto simp: mcp_ok_def list_all_iff use_ok_def strict_sorted_iff)
  then show ?thesis using st tid doc target by (intro exI [of _ es] exI [of _ tid]) (simp add: s_def)
qed

definition ex_tool_event :: "string \<Rightarrow> string \<Rightarrow> interceptor_event" where
  "ex_tool_event kind tid = \<lparr>ie_task_id = ''t1'', ie_session_id = None, ie_normalized_kind = Some kind,
     ie_normalized_payload = Some [(''tool_use_id'', JStr tid), (''tool'', JStr ''quant.run''),
       (''args'', JObj [(''symbol'', JStr ''x''), (''from'', JInt 1)])],
     ie_raw_type = [], ie_raw_payload = [], ie_received_at = 0\<rparr>"

lemma field_summary_is_a_table_witness:
  "\<exists>art target doc es tid. mcp_flush \<lparr>dk_artifacts_dir = ''a'', dk_mkdir_fails = None, dk_write_fails = None\<rparr>
      (mcp_on_terminal \<lparr>tg_task_id = ''t1'', tg_session_id = None, tg_status = ''succeeded'', tg_reason = None, tg_ended_at = 0\<rparr>
        (mcp_run default_mcp_options [ex_tool_event ''tool_call_started'' ''c1'', ex_tool_event ''tool_call_finished'' ''c1''] new_mcp_state))
    = Inr (Some (art, target, doc)) \<and> tid = ''t1'' \<and> target = ''a/t1/mcp_field_summary.json'' \<and>
    doc = JObj [(''task_id'', JStr tid), (''terminal_status'', JStr ''succeeded''),
      (''tool_count'', JInt (int (length es))), (''tools'', JList (map use_row es))]"
proof -
  let ?s = "mcp_run default_mcp_options [ex_tool_event ''tool_call_started'' ''c1'', ex_tool_event ''tool_call_finished'' ''c1''] new_mcp_state"
  let ?d = "\<lparr>dk_artifacts_dir = ''a'', dk_mkdir_fails = None, dk_write_fails = None\<rparr>"
  let ?sg = "\<lparr>tg_task_id = ''t1'', tg_session_id = None, tg_status = ''succeeded'', tg_reason = None, tg_ended_at = 0\<rparr>"
  have t: "mf_task ?s = Some ''t1''" by code_simp
  obtain art target doc where f: "mcp_flush ?d (mcp_on_terminal ?sg ?s) = Inr (Some (art, target, doc))"
    by (simp add: mcp_flush_def mcp_on_terminal_def mcp_run_def mcp_on_event_def ex_tool_event_def new_mcp_state_def
        stash_pending_def default_mcp_options_def aggregate_finished_def default_mcp_name_def name_char_def is_lower_def
        is_digit_def starts_with_def extract_read_fields_def raw_metadata_def sorted_uses_def count_use_def no_use_def py_or_def Let_def)
  show ?thesis
    using field_summary_is_a_table [OF f] f t by (auto simp: path_join_def starts_with_def)
qed

lemma a_repeated_event_changes_nothing_witness:
  "mcp_run default_mcp_options [ex_tool_event ''tool_call_started'' ''c1'', ex_tool_event ''tool_call_started'' ''c1'',
      ex_tool_event ''tool_call_finished'' ''c1'', ex_tool_event ''tool_call_finished'' ''c1''] new_mcp_state =
   mcp_run default_mcp_options [ex_tool_event ''tool_call_started'' ''c1'', ex_tool_event ''tool_call_finished'' ''c1''] new_mcp_state"
  using a_repeated_event_changes_nothing
    [of "[ex_tool_event ''tool_call_started'' ''c1'', ex_tool_event ''tool_call_finished'' ''c1'']" default_mcp_options]
  by (simp add: default_mcp_options_def)

text \<open>With the default pattern a name is the part of the tool's name before the first dot.\<close>

lemma default_name_of_a_tool:
  assumes "default_mcp_name tool = Group (Some seg)"
  shows "\<exists>r. tool = seg @ ''.'' @ r \<and> list_all name_char seg"
proof -
  have seg: "seg = takeWhile name_char tool" "starts_with ''.'' (drop (length seg) tool)"
    using assms by (auto simp: default_mcp_name_def Let_def split: if_splits)
  then obtain r where "drop (length seg) tool = ''.'' @ r" by (auto simp: starts_with_iff)
  then have "tool = seg @ ''.'' @ r" using seg(1) by (metis append_take_drop_id takeWhile_eq_take)
  then show ?thesis using seg(1) by (auto simp: list_all_iff dest: set_takeWhileD)
qed

text \<open>A pattern with an optional group can name one tool and not another: then there is no summary.\<close>

lemma mixed_names_lose_the_summary:
  "list_ex (\<lambda>e. fst (fst e) = None) (mf_aggregates s) \<Longrightarrow> list_ex (\<lambda>e. fst (fst e) \<noteq> None) (mf_aggregates s) \<Longrightarrow>
   mf_task s = Some tid \<Longrightarrow> dk_mkdir_fails dk = None \<Longrightarrow> \<exists>m. mcp_flush dk s = Inl (TypeError m)"
  by (cases "mf_aggregates s") (auto simp: mcp_flush_def sorted_uses_def)

end
