(* ===== verification/Tool_Stream.thy ===== *)
theory Tool_Stream
  imports Mcp_Fields Driver
begin

text \<open>
  From the event stream of opencode to the summary of the tools: a tool call as it appears in the
  stream, its normalisation (\<open>event_stream.py\<close>), the event the driver hands to the interceptors
  (\<open>driver.py\<close>, \<open>_consume_sse\<close>) and what the recorder of \<open>mcp_fields.py\<close> makes of it.
\<close>

text \<open>What the driver hands over for an event of the stream, if anything.\<close>

definition handed_over :: "string \<Rightarrow> string option \<Rightarrow> timestamp \<Rightarrow> dict \<Rightarrow> interceptor_event list" where
  "handed_over tid session now ev =
     (case normalize_opencode_event ev of
        Inr (Some n) \<Rightarrow> [\<lparr>ie_task_id = tid, ie_session_id = session, ie_normalized_kind = Some (ne_kind n),
          ie_normalized_payload = Some (ne_payload n), ie_raw_type = ne_raw_type n, ie_raw_payload = raw_payload_of ev,
          ie_received_at = now\<rparr>]
      | _ \<Rightarrow> [])"

text \<open>A call of a tool and its two events.\<close>

record tool_call =
  tc_id :: string
  tc_tool :: string
  tc_args :: dict
  tc_fields :: "string list"
  tc_result :: string

definition part_event :: "dict \<Rightarrow> dict" where
  "part_event part = [(''type'', JStr ''message.part.updated''), (''payload'', JObj [(''part'', JObj part)])]"

definition use_event :: "tool_call \<Rightarrow> dict" where
  "use_event c = part_event [(''type'', JStr ''tool-use''), (''toolUseId'', JStr (tc_id c)), (''toolName'', JStr (tc_tool c)),
     (''input'', JObj (tc_args c))]"

definition result_event :: "tool_call \<Rightarrow> dict" where
  "result_event c = part_event [(''type'', JStr ''tool-result''), (''toolUseId'', JStr (tc_id c)), (''content'', JStr (tc_result c)),
     (''metadata'', JObj [(''read_fields'', JList (map JStr (tc_fields c)))])]"

definition call_events :: "string \<Rightarrow> string option \<Rightarrow> timestamp \<Rightarrow> tool_call \<Rightarrow> interceptor_event list" where
  "call_events tid session now c = handed_over tid session now (use_event c) @ handed_over tid session now (result_event c)"

text \<open>The two events as the recorder gets them.\<close>

definition started :: "string \<Rightarrow> string option \<Rightarrow> timestamp \<Rightarrow> tool_call \<Rightarrow> interceptor_event" where
  "started tid session now c = \<lparr>ie_task_id = tid, ie_session_id = session, ie_normalized_kind = Some ''tool_call_started'',
     ie_normalized_payload = Some [(''tool'', JStr (tc_tool c)), (''args'', JObj (tc_args c)), (''tool_use_id'', JStr (tc_id c))],
     ie_raw_type = ''message.part.updated'', ie_raw_payload = raw_payload_of (use_event c), ie_received_at = now\<rparr>"

definition finished :: "string \<Rightarrow> string option \<Rightarrow> timestamp \<Rightarrow> tool_call \<Rightarrow> interceptor_event" where
  "finished tid session now c = \<lparr>ie_task_id = tid, ie_session_id = session, ie_normalized_kind = Some ''tool_call_finished'',
     ie_normalized_payload = Some [(''tool_use_id'', JStr (tc_id c)), (''result'', JStr (tc_result c)), (''is_error'', JBool False)],
     ie_raw_type = ''message.part.updated'', ie_raw_payload = raw_payload_of (result_event c), ie_received_at = now\<rparr>"

lemma py_or_text: "s \<noteq> [] \<Longrightarrow> py_or (JStr s) v = JStr s"
  by (cases s) simp_all

lemma py_or_self: "py_or (JObj d) (JObj []) = JObj d"
  by (simp add: py_or_def)

lemma call_events_seen:
  assumes "tc_id c \<noteq> []" and "tc_tool c \<noteq> []"
  shows "call_events tid session now c = [started tid session now c, finished tid session now c]"
proof -
  have "get_or [(''type'', JStr ''tool-use''), (''toolUseId'', JStr (tc_id c)), (''toolName'', JStr (tc_tool c)),
     (''input'', JObj (tc_args c))] ''input'' ''args'' (JObj []) = JObj (tc_args c)"
    by (simp add: get_or_def py_or_def)
  then have "normalize_opencode_event (use_event c) = Inr (Some \<lparr>ne_kind = ''tool_call_started'',
      ne_payload = [(''tool'', JStr (tc_tool c)), (''args'', JObj (tc_args c)), (''tool_use_id'', JStr (tc_id c))],
      ne_raw_type = ''message.part.updated'', ne_raw_payload = event_payload (use_event c)\<rparr>)"
    using assms
    by (simp add: normalize_opencode_event_def use_event_def part_event_def has_type_def event_payload_def
        normalize_part_updated_def get_or_def [of _ "''toolName''"] py_or_text)
  moreover have "normalize_opencode_event (result_event c) = Inr (Some \<lparr>ne_kind = ''tool_call_finished'',
      ne_payload = [(''tool_use_id'', JStr (tc_id c)), (''result'', JStr (tc_result c)), (''is_error'', JBool False)],
      ne_raw_type = ''message.part.updated'', ne_raw_payload = event_payload (result_event c)\<rparr>)"
    using assms
    by (simp add: normalize_opencode_event_def result_event_def part_event_def has_type_def event_payload_def
        normalize_part_updated_def py_or_text result_content_def)
  ultimately show ?thesis by (simp add: call_events_def handed_over_def started_def finished_def)
qed

section \<open>One call\<close>

lemma read_fields_of_result: "extract_read_fields ''read_fields'' (raw_payload_of (result_event c)) = filter (\<lambda>f. f \<noteq> []) (tc_fields c)"
proof -
  have "concat (map (\<lambda>v. case v of JStr (c # cs) \<Rightarrow> [c # cs] | _ \<Rightarrow> []) (map JStr fs)) = filter (\<lambda>f. f \<noteq> []) fs" for fs
    by (induction fs) (auto split: list.splits)
  then show ?thesis
    by (simp add: extract_read_fields_def raw_metadata_def raw_payload_of_def event_payload_def result_event_def part_event_def
        comp_def)
qed

definition recorded_call :: "mcp_options \<Rightarrow> string \<Rightarrow> tool_call \<Rightarrow> mcp_state \<Rightarrow> mcp_state" where
  "recorded_call mo tid c s =
     s\<lparr>mf_task := (if mf_task s = None then Some tid else mf_task s), mf_processed := tc_id c # mf_processed s,
       mf_aggregates := (case mo_match mo (tc_tool c) of
           Group name \<Rightarrow> dict_set (name, tc_tool c)
             (count_use (map fst (tc_args c)) (filter (\<lambda>f. f \<noteq> []) (tc_fields c))
               (case map_of (mf_aggregates s) (name, tc_tool c) of None \<Rightarrow> no_use | Some u \<Rightarrow> u)) (mf_aggregates s)
         | _ \<Rightarrow> mf_aggregates s)\<rparr>"

lemma call_is_recorded:
  assumes "tc_id c \<noteq> []" and "tc_tool c \<noteq> []" and "mf_pending s = []" and "tc_id c \<notin> set (mf_processed s)"
    and "mo_read_key mo = ''read_fields''"
  shows "mcp_run mo (call_events tid session now c) s = recorded_call mo tid c s"
proof -
  define a where "a = (if mf_task s = None then s\<lparr>mf_task := Some tid\<rparr> else s)"
  have a: "mf_pending a = []" "mf_processed a = mf_processed s" "mf_aggregates a = mf_aggregates s" "\<exists>t. mf_task a = Some t"
    "mf_task a = (if mf_task s = None then Some tid else mf_task s)" "mf_terminal a = mf_terminal s"
    using assms(3) by (auto simp: a_def)
  define b where "b = a\<lparr>mf_pending := [(tc_id c, tc_tool c, tc_args c)]\<rparr>"
  obtain x xs where tid: "tc_id c = x # xs" using assms(1) by (cases "tc_id c") simp_all
  have "mcp_on_event mo (started tid session now c) s = a\<lparr>mf_pending := stash_pending (mo_max_pending mo)
      [(''tool'', JStr (tc_tool c)), (''args'', JObj (tc_args c)), (''tool_use_id'', JStr (tc_id c))] (mf_pending a)\<rparr>"
    unfolding mcp_on_event_def Let_def by (simp add: started_def a_def)
  then have st: "mcp_on_event mo (started tid session now c) s = b"
    using a(1) by (simp add: stash_pending_def tid py_or_self b_def)
  have "mcp_on_event mo (finished tid session now c) b = aggregate_finished mo (raw_payload_of (result_event c))
      [(''tool_use_id'', JStr (tc_id c)), (''result'', JStr (tc_result c)), (''is_error'', JBool False)] b"
    unfolding mcp_on_event_def Let_def using a(4) by (auto simp: finished_def b_def)
  also have "\<dots> = recorded_call mo tid c s"
    using assms(4) read_fields_of_result [of c] assms(3,5) a
    by (simp add: aggregate_finished_def tid b_def dict_pop_def recorded_call_def Let_def split: mcp_match.split)
  finally show ?thesis using st call_events_seen [OF assms(1,2)] by (simp add: mcp_run_def)
qed

section \<open>A stream of calls\<close>

definition calls_of :: "mcp_options \<Rightarrow> string option \<times> string \<Rightarrow> tool_call list \<Rightarrow> tool_call list" where
  "calls_of mo key cs = filter (\<lambda>c. mo_match mo (tc_tool c) = Group (fst key) \<and> tc_tool c = snd key) cs"

text \<open>The reference: what a table of the calls says of a pair of server and tool.\<close>

definition used_as :: "tool_call list \<Rightarrow> field_use option \<Rightarrow> bool" where
  "used_as cs u \<longleftrightarrow> (case u of None \<Rightarrow> cs = []
     | Some u \<Rightarrow> cs \<noteq> [] \<and> fu_count u = length cs \<and> set (fu_inputs u) = \<Union> (set (map (set \<circ> map fst \<circ> tc_args) cs)) \<and>
         set (fu_outputs u) = \<Union> (set (map (set \<circ> tc_fields) cs)) - {[]})"

lemma set_fold_insert: "set (fold List.insert xs ys) = set xs \<union> set ys"
  by (induction xs arbitrary: ys) auto

lemma used_as_snoc:
  assumes "used_as cs u"
  shows "used_as (cs @ [c]) (Some (count_use (map fst (tc_args c)) (filter (\<lambda>f. f \<noteq> []) (tc_fields c))
    (case u of None \<Rightarrow> no_use | Some u \<Rightarrow> u)))"
  using assms by (cases u) (auto simp: used_as_def count_use_def set_fold_insert no_use_def)

lemma recorded_call_used:
  assumes "\<And>key. used_as (calls_of mo key cs) (map_of (mf_aggregates s) key)"
  shows "used_as (calls_of mo key (cs @ [c])) (map_of (mf_aggregates (recorded_call mo tid c s)) key)"
proof (cases "mo_match mo (tc_tool c) = Group (fst key) \<and> tc_tool c = snd key")
  case True
  then show ?thesis
    using used_as_snoc [OF assms [of key], of c] by (cases key) (simp add: calls_of_def recorded_call_def)
next
  case False
  then have "calls_of mo key (cs @ [c]) = calls_of mo key cs" by (simp add: calls_of_def)
  moreover have "map_of (mf_aggregates (recorded_call mo tid c s)) key = map_of (mf_aggregates s) key"
    using False by (cases key) (auto simp: recorded_call_def split: mcp_match.split)
  ultimately show ?thesis using assms by simp
qed

text \<open>C40: The summary is what a table of the calls would say: if the stream of opencode shows tool calls, each
  as its two events, one after the other and under different ids, then for every server and tool the
  recorder has the number of its calls, the names of all the arguments it was given and all the
  fields its results said were read, and nothing for a tool that was not called or has no server.\<close>

theorem stream_calls_are_summarised:
  assumes "distinct (map tc_id cs)" and "list_all (\<lambda>c. tc_id c \<noteq> [] \<and> tc_tool c \<noteq> []) cs"
    and "mo_read_key mo = ''read_fields''"
  shows "used_as (calls_of mo key cs)
    (map_of (mf_aggregates (mcp_run mo (concat (map (call_events tid session now) cs)) new_mcp_state)) key)"
proof -
  let ?s = "\<lambda>cs. mcp_run mo (concat (map (call_events tid session now) cs)) new_mcp_state"
  have "mf_pending (?s cs) = [] \<and> set (mf_processed (?s cs)) = tc_id ` set cs \<and>
      (\<forall>key. used_as (calls_of mo key cs) (map_of (mf_aggregates (?s cs)) key))"
    using assms(1,2)
  proof (induction cs rule: rev_induct)
    case Nil
    show ?case by (simp add: mcp_run_def new_mcp_state_def used_as_def calls_of_def)
  next
    case (snoc c cs)
    have "distinct (map tc_id cs)" "list_all (\<lambda>c. tc_id c \<noteq> [] \<and> tc_tool c \<noteq> []) cs" using snoc.prems by simp_all
    then have s: "mf_pending (?s cs) = []" "set (mf_processed (?s cs)) = tc_id ` set cs"
      "\<And>key. used_as (calls_of mo key cs) (map_of (mf_aggregates (?s cs)) key)" using snoc.IH by blast+
    have "?s (cs @ [c]) = mcp_run mo (call_events tid session now c) (?s cs)" by (simp add: mcp_run_def)
    also have "\<dots> = recorded_call mo tid c (?s cs)"
      by (rule call_is_recorded) (use s snoc.prems assms(3) in auto)
    finally have "?s (cs @ [c]) = recorded_call mo tid c (?s cs)" .
    moreover have "mf_pending (recorded_call mo tid c (?s cs)) = []" using s(1) by (simp add: recorded_call_def)
    moreover have "set (mf_processed (recorded_call mo tid c (?s cs))) = tc_id ` set (cs @ [c])"
      using s(2) by (simp add: recorded_call_def)
    ultimately show ?case using recorded_call_used [of mo cs "?s cs" _ c tid] s(3) by simp
  qed
  then show ?thesis by blast
qed

definition ex_call :: "string \<Rightarrow> string \<Rightarrow> tool_call" where
  "ex_call i arg = \<lparr>tc_id = i, tc_tool = ''quant.run'', tc_args = [(arg, JInt 1)], tc_fields = [''pnl''], tc_result = ''ok''\<rparr>"

lemma stream_calls_witness:
  "used_as [ex_call ''c1'' ''symbol'', ex_call ''c2'' ''from''] (map_of (mf_aggregates (mcp_run default_mcp_options
     (concat (map (call_events ''t1'' None 0) [ex_call ''c1'' ''symbol'', ex_call ''c2'' ''from''])) new_mcp_state))
     (Some ''quant'', ''quant.run''))"
proof -
  have "calls_of default_mcp_options (Some ''quant'', ''quant.run'') [ex_call ''c1'' ''symbol'', ex_call ''c2'' ''from''] =
      [ex_call ''c1'' ''symbol'', ex_call ''c2'' ''from'']"
    by (simp add: calls_of_def ex_call_def default_mcp_options_def default_mcp_name_def name_char_def is_lower_def
        is_digit_def starts_with_def Let_def)
  then show ?thesis
    using stream_calls_are_summarised [of "[ex_call ''c1'' ''symbol'', ex_call ''c2'' ''from'']" default_mcp_options
        "(Some ''quant'', ''quant.run'')" "''t1''" None 0]
    by (simp add: ex_call_def default_mcp_options_def)
qed

end
