(* ===== verification/Backtests.thy ===== *)
theory Backtests
  imports Pending_Calls Conversations Py_Fnmatch
begin

text \<open>
  The interceptor that archives the directories of backtests,
  \<open>src/worker/adapters/opencode/interceptors/backtest.py\<close>: matching the finished calls of a tool,
  resolving the source directory and the label, copying, and the index at the end. Path resolution,
  the test for a directory, the copy (with the \<open>mkdir\<close> before
  it) and the clock are fields of the environment, given anew with each event; the trees copied are recorded in the state.
\<close>

section \<open>State\<close>

record bt_options =
  bo_pattern :: string
  bo_run_dir_key :: string
  bo_label_prefix :: string
  bo_root :: "string option"
  bo_max_pending :: int

text \<open>\<open>resolve\<close> is \<open>Path.resolve\<close>.\<close>

definition new_bt_options ::
    "(string \<Rightarrow> exn + string) \<Rightarrow> string \<Rightarrow> string \<Rightarrow> string \<Rightarrow> string option \<Rightarrow> int \<Rightarrow> exn + bt_options" where
  "new_bt_options resolve pat key label ws limit =
     (let mk = (\<lambda>r. \<lparr>bo_pattern = pat, bo_run_dir_key = key, bo_label_prefix = label, bo_root = r, bo_max_pending = limit\<rparr>) in
      case ws of
        None \<Rightarrow> Inr (mk None)
      | Some r \<Rightarrow> if r = [] then Inr (mk None)
          else (case resolve r of Inl e \<Rightarrow> Inl e | Inr d \<Rightarrow> Inr (mk (Some d))))"

definition default_bt_options :: bt_options where
  "default_bt_options = \<lparr>bo_pattern = ''*.backtest'', bo_run_dir_key = ''run_dir'', bo_label_prefix = ''iter'',
     bo_root = None, bo_max_pending = 512\<rparr>"

record backtest =
  bk_label :: string
  bk_label_source :: string
  bk_tool :: string
  bk_source :: string
  bk_dest_relpath :: string
  bk_copied_at :: timestamp

record bt_state =
  bs_pending :: pending_calls
  bs_copied :: "string list"
  bs_records :: "backtest list"
  bs_counter :: int
  bs_task :: "string option"
  bs_terminal :: "string option"
  bs_trees :: "(string \<times> string) list"

definition new_bt_state :: bt_state where
  "new_bt_state = \<lparr>bs_pending = [], bs_copied = [], bs_records = [], bs_counter = 0, bs_task = None,
     bs_terminal = None, bs_trees = []\<rparr>"

record bt_env =
  be_resolve :: "string \<Rightarrow> exn + string"
  be_is_dir :: "string \<Rightarrow> bool"
  be_copytree :: "string \<Rightarrow> string \<Rightarrow> exn option"
  be_stamp :: string
  be_now :: timestamp

fun is_OSError :: "exn \<Rightarrow> bool" where
  "is_OSError (OSError _) = True"
| "is_OSError (PermissionError _) = True"
| "is_OSError _ = False"

fun is_RuntimeError :: "exn \<Rightarrow> bool" where
  "is_RuntimeError (RuntimeError _) = True"
| "is_RuntimeError _ = False"

section \<open>A finished call\<close>

definition resolve_source :: "bt_env \<Rightarrow> bt_options \<Rightarrow> string \<Rightarrow> exn + string option" where
  "resolve_source env bo raw =
     (case (if starts_with ''/'' raw then Some raw else map_option (\<lambda>r. path_join r raw) (bo_root bo)) of
        None \<Rightarrow> Inr None
      | Some candidate \<Rightarrow>
          (case be_resolve env candidate of
             Inl e \<Rightarrow> if is_OSError e \<or> is_RuntimeError e then Inr None else Inl e
           | Inr resolved \<Rightarrow> Inr (if be_is_dir env resolved then Some resolved else None)))"

definition extract_override_label :: "dict \<Rightarrow> string option" where
  "extract_override_label raw =
     (case raw_metadata raw of
        None \<Rightarrow> None
      | Some meta \<Rightarrow> (case dict_get meta ''backtest_label'' JNull of JStr v \<Rightarrow> Some v | _ \<Rightarrow> None))"

text \<open>The label, where it comes from, and the counter behind it.\<close>

definition resolve_label :: "bt_options \<Rightarrow> dict \<Rightarrow> int \<Rightarrow> string \<times> string \<times> int" where
  "resolve_label bo raw n =
     (let auto_label = (bo_label_prefix bo @ ''-'' @ show_int (n + 1), ''auto'', n + 1) in
      case extract_override_label raw of
        None \<Rightarrow> auto_label
      | Some v \<Rightarrow>
          let candidate = str_lower (str_strip v) in
          if slug_ok candidate then (candidate, ''override'', n) else auto_label)"

definition backtests_dir :: "string \<Rightarrow> string \<Rightarrow> string" where
  "backtests_dir artifacts task = path_join (path_join artifacts task) ''backtests''"

definition copy_run :: "string \<Rightarrow> bt_env \<Rightarrow> bt_options \<Rightarrow> dict \<Rightarrow> string \<Rightarrow> string \<Rightarrow> bt_state \<Rightarrow> exn option \<times> bt_state" where
  "copy_run artifacts env bo raw tool source s =
     (case resolve_label bo raw (bs_counter s) of
        (label, label_source, n) \<Rightarrow>
          let s1 = s\<lparr>bs_counter := n\<rparr>;
              name = be_stamp env @ ''-'' @ label;
              dest = path_join (backtests_dir artifacts (case bs_task s of None \<Rightarrow> [] | Some t \<Rightarrow> t)) name in
          case be_copytree env source dest of
            Some e \<Rightarrow> (if is_OSError e then None else Some e, s1)
          | None \<Rightarrow> (None, s1\<lparr>bs_copied := source # bs_copied s,
              bs_records := bs_records s @ [\<lparr>bk_label = label, bk_label_source = label_source, bk_tool = tool,
                bk_source = source, bk_dest_relpath = ''backtests/'' @ name, bk_copied_at = be_now env\<rparr>],
              bs_trees := bs_trees s @ [(source, dest)]\<rparr>))"

definition handle_finished :: "string \<Rightarrow> bt_env \<Rightarrow> bt_options \<Rightarrow> dict \<Rightarrow> dict \<Rightarrow> bt_state \<Rightarrow> exn option \<times> bt_state" where
  "handle_finished artifacts env bo raw p s =
     (case dict_get p ''tool_use_id'' JNull of
        JStr tid \<Rightarrow>
          (case map_of (bs_pending s) tid of
             None \<Rightarrow> (None, s)
           | Some (tool, args) \<Rightarrow>
               let s1 = s\<lparr>bs_pending := dict_pop tid (bs_pending s)\<rparr> in
               if \<not> fnmatch tool (bo_pattern bo) \<or> py_truthy (dict_get p ''is_error'' JNull) then (None, s1)
               else
                 (case dict_get args (bo_run_dir_key bo) JNull of
                    JStr run_dir \<Rightarrow>
                      if str_strip run_dir = [] then (None, s1)
                      else
                        (case resolve_source env bo (str_strip run_dir) of
                           Inl e \<Rightarrow> (Some e, s1)
                         | Inr None \<Rightarrow> (None, s1)
                         | Inr (Some source) \<Rightarrow>
                             if source \<in> set (bs_copied s1) then (None, s1) else copy_run artifacts env bo raw tool source s1)
                  | _ \<Rightarrow> (None, s1)))
      | _ \<Rightarrow> (None, s))"

definition bt_on_event :: "string \<Rightarrow> bt_env \<Rightarrow> bt_options \<Rightarrow> interceptor_event \<Rightarrow> bt_state \<Rightarrow> exn option \<times> bt_state" where
  "bt_on_event artifacts env bo ev s0 =
     (let s = (if bs_task s0 = None then s0\<lparr>bs_task := Some (ie_task_id ev)\<rparr> else s0);
          p = (case ie_normalized_payload ev of None \<Rightarrow> [] | Some d \<Rightarrow> d) in
      case ie_normalized_kind ev of
        None \<Rightarrow> (None, s)
      | Some kind \<Rightarrow>
          if kind = ''tool_call_started'' then (None, s\<lparr>bs_pending := stash_pending (bo_max_pending bo) p (bs_pending s)\<rparr>)
          else if kind = ''tool_call_finished'' then handle_finished artifacts env bo (ie_raw_payload ev) p s
          else (None, s))"

definition bt_on_terminal :: "terminal_signal \<Rightarrow> bt_state \<Rightarrow> bt_state" where
  "bt_on_terminal sg s = s\<lparr>bs_terminal := Some (tg_status sg)\<rparr>"

section \<open>The index\<close>

definition backtest_json :: "backtest \<Rightarrow> json" where
  "backtest_json r = JObj [(''label'', JStr (bk_label r)), (''label_source'', JStr (bk_label_source r)),
     (''tool'', JStr (bk_tool r)), (''source'', JStr (bk_source r)), (''dest_relpath'', JStr (bk_dest_relpath r)),
     (''copied_at'', JFloat (bk_copied_at r))]"

text \<open>The artifact and the file written, a path and its content; the disk fails or not.\<close>

definition bt_flush :: "string \<Rightarrow> bool \<Rightarrow> bool \<Rightarrow> bt_state \<Rightarrow> (interceptor_artifact \<times> string \<times> json) option" where
  "bt_flush artifacts mkdir_fails write_fails s =
     (case (bs_records s, bs_task s) of
        (_ # _, Some tid) \<Rightarrow>
          if mkdir_fails \<or> write_fails then None
          else
            let index = path_join (backtests_dir artifacts tid) ''index.json'';
                terminal = (case bs_terminal s of None \<Rightarrow> JNull | Some t \<Rightarrow> JStr t);
                n = JInt (int (length (bs_records s))) in
            Some (\<lparr>ia_artifact_type = ''custom'', ia_filename = ''backtests/index.json'', ia_local_path = index,
               ia_metadata = [(''subtype'', JStr ''backtests''), (''count'', n),
                 (''backtests'', JList (map (JStr \<circ> bk_dest_relpath) (bs_records s))), (''terminal_status'', terminal)],
               ia_size_bytes = None\<rparr>, index,
               JObj [(''task_id'', JStr tid), (''terminal_status'', terminal), (''count'', n),
                 (''backtests'', JList (map backtest_json (bs_records s)))])
      | _ \<Rightarrow> None)"

section \<open>Copied at most once, and where to\<close>

definition bt_step :: "string \<Rightarrow> bt_options \<Rightarrow> bt_env \<times> interceptor_event \<Rightarrow> bt_state \<Rightarrow> bt_state" where
  "bt_step artifacts bo x s = snd (bt_on_event artifacts (fst x) bo (snd x) s)"

definition bt_run :: "string \<Rightarrow> bt_options \<Rightarrow> (bt_env \<times> interceptor_event) list \<Rightarrow> bt_state \<Rightarrow> bt_state" where
  "bt_run artifacts bo xs s = fold (bt_step artifacts bo) xs s"

definition record_fits :: "string \<Rightarrow> bt_options \<Rightarrow> string \<Rightarrow> backtest \<Rightarrow> string \<times> string \<Rightarrow> bool" where
  "record_fits artifacts bo task r t \<longleftrightarrow> fnmatch (bk_tool r) (bo_pattern bo) \<and> bk_source r = fst t \<and>
     (\<exists>stamp. bk_dest_relpath r = ''backtests/'' @ stamp @ ''-'' @ bk_label r \<and>
        snd t = path_join (backtests_dir artifacts task) (stamp @ ''-'' @ bk_label r)) \<and>
     (bk_label_source r = ''auto'' \<and> (\<exists>n. bk_label r = bo_label_prefix bo @ ''-'' @ show_int n) \<or>
      bk_label_source r = ''override'' \<and> slug_ok (bk_label r))"

definition bt_ok :: "string \<Rightarrow> bt_options \<Rightarrow> bt_state \<Rightarrow> bool" where
  "bt_ok artifacts bo s \<longleftrightarrow> int (length (bs_pending s)) \<le> max 1 (bo_max_pending bo) \<and>
     distinct (map fst (bs_trees s)) \<and> set (bs_copied s) = fst ` set (bs_trees s) \<and>
     list_all2 (record_fits artifacts bo (case bs_task s of None \<Rightarrow> [] | Some t \<Rightarrow> t)) (bs_records s) (bs_trees s) \<and>
     (bs_task s = None \<longrightarrow> bs_trees s = [])"

lemma resolve_label_cases:
  "resolve_label bo raw n = (label, src, m) \<Longrightarrow>
   src = ''auto'' \<and> label = bo_label_prefix bo @ ''-'' @ show_int m \<and> m = n + 1 \<or> src = ''override'' \<and> slug_ok label \<and> m = n"
  by (auto simp: resolve_label_def Let_def split: option.splits if_splits)

lemma copy_run_ok:
  assumes ok: "bt_ok artifacts bo s" and new: "source \<notin> set (bs_copied s)" and tool: "fnmatch tool (bo_pattern bo)"
    and task: "bs_task s = Some t"
  shows "bt_ok artifacts bo (snd (copy_run artifacts env bo raw tool source s))"
proof -
  obtain label src n where l: "resolve_label bo raw (bs_counter s) = (label, src, n)" by (metis prod.exhaust)
  have lab: "src = ''auto'' \<and> (\<exists>k. label = bo_label_prefix bo @ ''-'' @ show_int k) \<or> src = ''override'' \<and> slug_ok label"
    using resolve_label_cases [OF l] by blast
  show ?thesis
    using ok new task tool lab
    by (auto simp: copy_run_def l Let_def bt_ok_def record_fits_def list_all2_appendI split: option.split)
qed

lemma bt_ok_pending:
  "bt_ok artifacts bo s \<Longrightarrow> int (length ps) \<le> max 1 (bo_max_pending bo) \<Longrightarrow> bt_ok artifacts bo (s\<lparr>bs_pending := ps\<rparr>)"
  by (simp add: bt_ok_def)

lemma handle_finished_ok:
  assumes "bt_ok artifacts bo s" and "bs_task s = Some t"
  shows "bt_ok artifacts bo (snd (handle_finished artifacts env bo raw p s))"
proof -
  have pop: "bt_ok artifacts bo (s\<lparr>bs_pending := dict_pop tid (bs_pending s)\<rparr>)" for tid
    using assms(1) length_dict_pop [of tid "bs_pending s"] by (intro bt_ok_pending) (auto simp: bt_ok_def)
  show ?thesis
    using assms(1) pop copy_run_ok [OF pop] assms(2)
    by (auto simp: handle_finished_def Let_def split: json.split option.split sum.split)
qed

lemma bt_step_ok:
  assumes "bt_ok artifacts bo s"
  shows "bt_ok artifacts bo (bt_step artifacts bo x s)"
proof -
  define a where "a = (if bs_task s = None then s\<lparr>bs_task := Some (ie_task_id (snd x))\<rparr> else s)"
  have a: "bt_ok artifacts bo a" "\<exists>t. bs_task a = Some t" using assms by (auto simp: a_def bt_ok_def)
  have st: "bt_ok artifacts bo (a\<lparr>bs_pending := stash_pending (bo_max_pending bo) p (bs_pending a)\<rparr>)" for p
    using a(1) by (intro bt_ok_pending stash_pending_bounded) (auto simp: bt_ok_def)
  show ?thesis
    unfolding bt_step_def bt_on_event_def Let_def a_def [symmetric]
    using a st handle_finished_ok [OF a(1)] by (auto split: option.split)
qed

lemma new_bt_ok: "bt_ok artifacts bo new_bt_state"
  by (simp add: bt_ok_def new_bt_state_def)

text \<open>A finished call is popped, so the same event finds none the second time.\<close>

lemma handle_finished_fields:
  "bs_task (snd (handle_finished artifacts env bo raw p s)) = bs_task s"
  "length (bs_pending (snd (handle_finished artifacts env bo raw p s))) \<le> length (bs_pending s)"
  by (auto simp: handle_finished_def copy_run_def Let_def length_dict_pop
      split: json.split option.split sum.split prod.split)

lemma handle_finished_twice:
  "snd (handle_finished artifacts env bo raw p (snd (handle_finished artifacts env bo raw p s))) =
   snd (handle_finished artifacts env bo raw p s)"
proof (cases "dict_get p ''tool_use_id'' JNull")
  case (JStr tid)
  have "map_of (bs_pending (snd (handle_finished artifacts env bo raw p s))) tid = None"
    by (auto simp: handle_finished_def copy_run_def Let_def JStr split: json.split option.split sum.split prod.split)
  then show ?thesis by (subst (1) handle_finished_def) (simp add: JStr)
qed (simp_all add: handle_finished_def)

lemma bt_step_cases:
  obtains a f where "\<And>t. bt_step artifacts bo x t = f (a t)" and "\<And>t. a (f (a t)) = f (a t)"
    and "\<And>t. bs_pending (a t) = bs_pending t" and "\<And>t. length (bs_pending (f t)) \<le> Suc (length (bs_pending t))"
    and "\<And>t. int (length (bs_pending t)) + 1 < bo_max_pending bo \<Longrightarrow> f (f t) = f t"
proof -
  define ev where "ev = snd x"
  define a where "a t = (if bs_task t = None then t\<lparr>bs_task := Some (ie_task_id ev)\<rparr> else t)" for t :: bt_state
  define p where "p = (case ie_normalized_payload ev of None \<Rightarrow> [] | Some d \<Rightarrow> d)"
  define f where "f t = (case ie_normalized_kind ev of None \<Rightarrow> t
    | Some kind \<Rightarrow>
        if kind = ''tool_call_started'' then t\<lparr>bs_pending := stash_pending (bo_max_pending bo) p (bs_pending t)\<rparr>
        else if kind = ''tool_call_finished'' then snd (handle_finished artifacts (fst x) bo (ie_raw_payload ev) p t)
        else t)" for t
  show thesis
  proof (rule that [of f a])
    show "bt_step artifacts bo x t = f (a t)" for t
      unfolding bt_step_def bt_on_event_def Let_def ev_def [symmetric] a_def [symmetric] p_def [symmetric] f_def
      by (simp split: option.split)
    have "bs_task (f t) = bs_task t" for t by (simp add: f_def handle_finished_fields split: option.split)
    then show "a (f (a t)) = f (a t)" for t by (simp add: a_def)
    show "bs_pending (a t) = bs_pending t" for t by (simp add: a_def)
    show "length (bs_pending (f t)) \<le> Suc (length (bs_pending t))" for t
      by (simp add: f_def stash_pending_load le_SucI handle_finished_fields split: option.split)
    show "f (f t) = f t" if "int (length (bs_pending t)) + 1 < bo_max_pending bo" for t
      using that by (simp add: f_def handle_finished_twice stash_pending_again split: option.split)
  qed
qed

lemma bt_step_load: "length (bs_pending (bt_step artifacts bo x s)) \<le> Suc (length (bs_pending s))"
  by (rule bt_step_cases [of artifacts bo x]) metis

lemma bt_step_twice:
  "int (length (bs_pending s)) + 1 < bo_max_pending bo \<Longrightarrow>
   bt_step artifacts bo x (bt_step artifacts bo x s) = bt_step artifacts bo x s"
  by (rule bt_step_cases [of artifacts bo x]) metis

interpretation bt: idempotent_recorder "bt_step artifacts bo" new_bt_state "bt_ok artifacts bo"
  "\<lambda>s. length (bs_pending s)" "nat (bo_max_pending bo - 1)" for artifacts bo
  by unfold_locales (simp_all add: new_bt_ok bt_step_ok bt_step_load bt_step_twice, simp add: new_bt_state_def)

text \<open>With room for the events, delivering each of them twice archives the same runs.\<close>

lemma repeated_events_archive_the_same:
  "int (length xs) < bo_max_pending bo \<Longrightarrow>
   bt_run artifacts bo (concat (map (\<lambda>x. [x, x]) xs)) new_bt_state = bt_run artifacts bo xs new_bt_state"
  unfolding bt_run_def by (rule bt.duplicates) linarith


section \<open>The source is not confined\<close>

text \<open>An absolute \<open>run_dir\<close> does not have to lie below the workspace.\<close>

lemma absolute_source_is_anywhere:
  "starts_with ''/'' raw \<Longrightarrow> be_resolve env raw = Inr d \<Longrightarrow> be_is_dir env d \<Longrightarrow>
   resolve_source env bo raw = Inr (Some d)"
  by (simp add: resolve_source_def)

end
