(* ===== verification/Log_Context.thy ===== *)
theory Log_Context
  imports Contract
begin

text \<open>
  The correlation of log records, \<open>src/worker/observability/logging.py\<close>: the three context variables,
  the filter that copies them into each record and the configuration of the root logger. A context
  variable belongs to an asyncio task, and a new task starts with a copy of its parent's context. The
  steps are those of the worker: slots spawned by the queue's loop, a driver that sets the ids of its
  task and session and clears them at its end, and the tasks it spawns.
\<close>

section \<open>Context and records\<close>

record correlation =
  cr_task :: "string option"
  cr_session :: "string option"
  cr_decision :: "string option"

definition no_correlation :: correlation where
  "no_correlation = \<lparr>cr_task = None, cr_session = None, cr_decision = None\<rparr>"

definition or_else :: "'a option \<Rightarrow> 'a option \<Rightarrow> 'a option" where
  "or_else a b = (case a of None \<Rightarrow> b | Some x \<Rightarrow> Some x)"

definition set_correlation :: "string option \<Rightarrow> string option \<Rightarrow> string option \<Rightarrow> correlation \<Rightarrow> correlation" where
  "set_correlation t s d c = \<lparr>cr_task = or_else t (cr_task c), cr_session = or_else s (cr_session c),
     cr_decision = or_else d (cr_decision c)\<rparr>"

definition clear_correlation :: "correlation \<Rightarrow> correlation" where
  "clear_correlation c = no_correlation"

record log_record =
  lr_task_id :: string
  lr_session_id :: string
  lr_decision_id :: string

definition or_empty :: "string option \<Rightarrow> string" where
  "or_empty a = (case a of None \<Rightarrow> [] | Some x \<Rightarrow> x)"

definition correlation_filter :: "correlation \<Rightarrow> log_record" where
  "correlation_filter c = \<lparr>lr_task_id = or_empty (cr_task c), lr_session_id = or_empty (cr_session c),
     lr_decision_id = or_empty (cr_decision c)\<rparr>"

section \<open>The tasks of the worker\<close>

text \<open>An asyncio task serves a task of the worker or none (the queue's loop, the requests). The sessions
  created so far are kept with the task they belong to, the records with the asyncio task that
  emitted them.\<close>

record log_state =
  ls_owner :: "string option list"
  ls_context :: "correlation list"
  ls_sessions :: "(string \<times> string) list"
  ls_records :: "(string option \<times> log_record) list"

definition log_start :: log_state where
  "log_start = \<lparr>ls_owner = [None], ls_context = [no_correlation], ls_sessions = [], ls_records = []\<rparr>"

inductive log_step :: "log_state \<Rightarrow> log_state \<Rightarrow> bool" where
  spawn_slot: "i < length (ls_owner s) \<Longrightarrow> ls_owner s ! i = None \<Longrightarrow>
    log_step s (s\<lparr>ls_owner := ls_owner s @ [Some tid], ls_context := ls_context s @ [ls_context s ! i]\<rparr>)"
| spawn_child: "i < length (ls_owner s) \<Longrightarrow>
    log_step s (s\<lparr>ls_owner := ls_owner s @ [ls_owner s ! i], ls_context := ls_context s @ [ls_context s ! i]\<rparr>)"
| driver_starts: "i < length (ls_owner s) \<Longrightarrow> ls_owner s ! i = Some tid \<Longrightarrow>
    log_step s (s\<lparr>ls_context := (ls_context s)[i := set_correlation (Some tid) None None (ls_context s ! i)]\<rparr>)"
| session_created: "i < length (ls_owner s) \<Longrightarrow> ls_owner s ! i = Some tid \<Longrightarrow>
    log_step s (s\<lparr>ls_context := (ls_context s)[i := set_correlation None (Some sid) None (ls_context s ! i)],
      ls_sessions := (tid, sid) # ls_sessions s\<rparr>)"
| driver_ends: "i < length (ls_owner s) \<Longrightarrow>
    log_step s (s\<lparr>ls_context := (ls_context s)[i := clear_correlation (ls_context s ! i)]\<rparr>)"
| logs: "i < length (ls_owner s) \<Longrightarrow>
    log_step s (s\<lparr>ls_records := ls_records s @ [(ls_owner s ! i, correlation_filter (ls_context s ! i))]\<rparr>)"

inductive log_reachable :: "log_state \<Rightarrow> bool" where
  start: "log_reachable log_start"
| onward: "log_reachable s \<Longrightarrow> log_step s t \<Longrightarrow> log_reachable t"

text \<open>A context names the task it serves or none, and a session of that task or none.\<close>

definition context_ok :: "(string \<times> string) list \<Rightarrow> string option \<Rightarrow> correlation \<Rightarrow> bool" where
  "context_ok sess own c \<longleftrightarrow> cr_decision c = None \<and>
     (case own of None \<Rightarrow> cr_task c = None \<and> cr_session c = None
      | Some t \<Rightarrow> cr_task c \<in> {None, Some t} \<and>
          (case cr_session c of None \<Rightarrow> True | Some s \<Rightarrow> (t, s) \<in> set sess))"

definition attributed :: "(string \<times> string) list \<Rightarrow> string option \<times> log_record \<Rightarrow> bool" where
  "attributed sess r \<longleftrightarrow>
     (lr_task_id (snd r) = [] \<or> fst r = Some (lr_task_id (snd r))) \<and>
     (lr_session_id (snd r) = [] \<or> (\<exists>t. fst r = Some t \<and> (t, lr_session_id (snd r)) \<in> set sess)) \<and>
     lr_decision_id (snd r) = []"

definition log_ok :: "log_state \<Rightarrow> bool" where
  "log_ok s \<longleftrightarrow> list_all2 (context_ok (ls_sessions s)) (ls_owner s) (ls_context s) \<and>
     list_all (attributed (ls_sessions s)) (ls_records s)"

lemma context_ok_more: "context_ok sess own c \<Longrightarrow> context_ok (x # sess) own c"
  by (auto simp: context_ok_def split: option.splits)

lemma attributed_more: "attributed sess r \<Longrightarrow> attributed (x # sess) r"
  by (auto simp: attributed_def)

lemma context_ok_inherited: "context_ok sess None c \<Longrightarrow> context_ok sess own c"
  by (auto simp: context_ok_def split: option.splits)

lemma attributed_record: "context_ok sess own c \<Longrightarrow> attributed sess (own, correlation_filter c)"
  by (auto simp: context_ok_def attributed_def correlation_filter_def or_empty_def split: option.splits)

lemma log_ok_step:
  assumes "log_step s t" and "log_ok s"
  shows "log_ok t"
  using assms
proof (cases rule: log_step.cases)
  case (spawn_slot i tid)
  then have "context_ok (ls_sessions s) None (ls_context s ! i)"
    using assms(2) by (auto simp: log_ok_def list_all2_conv_all_nth)
  then show ?thesis
    using spawn_slot assms(2) context_ok_inherited by (auto simp: log_ok_def intro: list_all2_appendI)
next
  case (spawn_child i)
  then show ?thesis
    using assms(2) by (auto simp: log_ok_def list_all2_lengthD intro!: list_all2_appendI dest: list_all2_nthD)
next
  case (driver_starts i tid)
  then have "context_ok (ls_sessions s) (Some tid) (ls_context s ! i)"
    using assms(2) by (auto simp: log_ok_def list_all2_conv_all_nth)
  then have "context_ok (ls_sessions s) (Some tid) (set_correlation (Some tid) None None (ls_context s ! i))"
    by (auto simp: context_ok_def set_correlation_def or_else_def)
  then show ?thesis
    using driver_starts assms(2) by (auto simp: log_ok_def list_all2_conv_all_nth nth_list_update)
next
  case (session_created i tid sid)
  then have "context_ok (ls_sessions s) (Some tid) (ls_context s ! i)"
    using assms(2) by (auto simp: log_ok_def list_all2_conv_all_nth)
  then have "context_ok ((tid, sid) # ls_sessions s) (Some tid) (set_correlation None (Some sid) None (ls_context s ! i))"
    by (auto simp: context_ok_def set_correlation_def or_else_def)
  then show ?thesis
    using session_created assms(2) context_ok_more attributed_more
    by (auto simp: log_ok_def list_all2_conv_all_nth nth_list_update list_all_iff)
next
  case (driver_ends i)
  have "context_ok (ls_sessions s) own (clear_correlation c)" for own c
    by (simp add: context_ok_def clear_correlation_def no_correlation_def split: option.split)
  then show ?thesis
    using driver_ends assms(2) by (auto simp: log_ok_def list_all2_conv_all_nth nth_list_update)
next
  case (logs i)
  then have "context_ok (ls_sessions s) (ls_owner s ! i) (ls_context s ! i)"
    using assms(2) by (auto simp: log_ok_def list_all2_conv_all_nth)
  then show ?thesis using logs assms(2) attributed_record by (auto simp: log_ok_def)
qed

lemma log_ok_reachable: "log_reachable s \<Longrightarrow> log_ok s"
proof (induction rule: log_reachable.induct)
  case start
  show ?case by (simp add: log_ok_def log_start_def context_ok_def no_correlation_def)
qed (rule log_ok_step)


definition ex_log :: log_state where
  "ex_log = \<lparr>ls_owner = [None, Some ''a'', Some ''b''],
     ls_context = [no_correlation, \<lparr>cr_task = Some ''a'', cr_session = None, cr_decision = None\<rparr>, no_correlation],
     ls_sessions = [], ls_records = [(Some ''a'', \<lparr>lr_task_id = ''a'', lr_session_id = [], lr_decision_id = []\<rparr>),
       (Some ''b'', \<lparr>lr_task_id = [], lr_session_id = [], lr_decision_id = []\<rparr>)]\<rparr>"


section \<open>The root logger\<close>

text \<open>A handler with its formatter and the number of its correlation filters.\<close>

record log_handler =
  lh_formatter :: "string option"
  lh_filters :: nat

definition TEXT_FORMAT :: string where
  "TEXT_FORMAT = ''%(asctime)s %(levelname)s [task=%(task_id)s session=%(session_id)s decision=%(decision_id)s] %(name)s: %(message)s''"

definition FALLBACK_FORMAT :: string where
  "FALLBACK_FORMAT = ''%(asctime)s %(levelname)s [%(task_id)s][%(session_id)s] %(name)s: %(message)s''"

definition log_formatter :: "bool \<Rightarrow> bool \<Rightarrow> string" where
  "log_formatter json_logs installed =
     (if json_logs then if installed then ''json'' else FALLBACK_FORMAT else TEXT_FORMAT)"

text \<open>\<open>getattr(logging, level.upper(), logging.INFO)\<close>, for the attributes that are numbers.\<close>

definition log_level :: "string \<Rightarrow> nat" where
  "log_level level =
     (case map_of [(''CRITICAL'', 50), (''FATAL'', 50), (''ERROR'', 40), (''WARNING'', 30), (''WARN'', 30), (''INFO'', 20),
        (''DEBUG'', 10), (''NOTSET'', 0)] (str_upper level) of None \<Rightarrow> 20 | Some n \<Rightarrow> n)"

definition configure_logging :: "string \<Rightarrow> bool \<Rightarrow> bool \<Rightarrow> log_handler list \<Rightarrow> nat \<times> log_handler list" where
  "configure_logging level json_logs installed handlers =
     (let f = log_formatter json_logs installed;
          hs = map (\<lambda>h. h\<lparr>lh_formatter := Some f, lh_filters := Suc (lh_filters h)\<rparr>) handlers in
      (log_level level, if hs = [] then [\<lparr>lh_formatter = Some f, lh_filters = 1\<rparr>] else hs))"

text \<open>After it there is a handler, and every handler fills in the fields its format needs.\<close>

lemma configured_handlers:
  "snd (configure_logging level json_logs installed handlers) \<noteq> [] \<and>
   list_all (\<lambda>h. 0 < lh_filters h \<and> lh_formatter h = Some (log_formatter json_logs installed))
     (snd (configure_logging level json_logs installed handlers))"
  by (simp add: configure_logging_def Let_def list_all_iff)

end
