(* ===== verification/Interceptor_Views.thy ===== *)
theory Interceptor_Views
  imports Interceptors
begin

text \<open>
  What an interceptor of the runner keeps to itself: a view of the state that the others leave alone.
  An interceptor hears every call of the runner until it is disabled, and one that does not raise is
  never disabled, whatever the others do.
\<close>

section \<open>What an interceptor keeps to itself\<close>

fun hook_of :: "hook_call \<Rightarrow> 'w interceptor \<Rightarrow> ('w, exn, unit) comp" where
  "hook_of (Hook_event ev) ic = ic_on_event ic ev"
| "hook_of (Hook_terminal sg) ic = ic_on_terminal ic sg"
| "hook_of Hook_flush ic = bindE (ic_flush ic) (\<lambda>_. retE ())"

lemma hook_of_fun:
  "hook_of (Hook_event ev) = (\<lambda>ic. ic_on_event ic ev)" "hook_of (Hook_terminal sg) = (\<lambda>ic. ic_on_terminal ic sg)"
  by (simp_all add: fun_eq_iff)

fun chain :: "('c \<Rightarrow> 'a \<Rightarrow> 'a \<Rightarrow> bool) \<Rightarrow> 'c list \<Rightarrow> 'a \<Rightarrow> 'a \<Rightarrow> bool" where
  "chain step [] a b \<longleftrightarrow> a = b"
| "chain step (c # cs) a b \<longleftrightarrow> (\<exists>x. step c a x \<and> chain step cs x b)"

lemma chain_append: "chain step (cs @ ds) a b \<longleftrightarrow> (\<exists>x. chain step cs a x \<and> chain step ds x b)"
  by (induction cs arbitrary: a) auto

definition among :: "'w interceptor \<Rightarrow> ('w interceptor \<Rightarrow> bool) \<Rightarrow> 'w interceptor list \<Rightarrow> bool" where
  "among me friend ics \<longleftrightarrow> distinct (map ic_name ics) \<and> (\<forall>ic \<in> set ics. ic = me \<or> friend ic)"

lemma among_Cons: "among me friend (ic # ics) \<Longrightarrow> among me friend ics \<and> (ic = me \<longrightarrow> me \<notin> set ics) \<and> (ic = me \<or> friend ic)"
  by (auto simp: among_def)

lemma among_filter: "among me friend ics \<Longrightarrow> among me friend (filter P ics)"
  by (auto simp: among_def distinct_map_filter)

lemma safe_call_fields:
  assumes "safe_call name hook (r, w) = (Inr x, (r', w'))"
  shows "w' = snd (hook w) \<and> rn_interceptors r' = rn_interceptors r \<and>
    (\<forall>n. is_disabled n r \<longrightarrow> is_disabled n r') \<and> (\<forall>n. n \<noteq> name \<longrightarrow> is_disabled n r' = is_disabled n r) \<and>
    (\<not> isl (fst (hook w)) \<longrightarrow> r' = r \<and> x = Some (projr (fst (hook w))))"
  using assms by (auto simp: safe_call_def is_disabled_record split: prod.splits sum.splits if_splits)

lemma run_hooks_quiet:
  assumes "hooks_ok (rn_interceptors (fst rw))" and "Hook_flush \<notin> set cs"
  shows "\<exists>rw'. forE cs run_hook rw = (Inr (), rw') \<and> rn_interceptors (fst rw') = rn_interceptors (fst rw)"
  using assms
proof (induction cs arbitrary: rw)
  case Nil
  then show ?case by (simp add: retE_def)
next
  case (Cons c cs)
  have "\<exists>rw1. run_hook c rw = (Inr (), rw1) \<and> rn_interceptors (fst rw1) = rn_interceptors (fst rw)"
  proof (cases c)
    case (Hook_event ev)
    then show ?thesis
      using call_each_quiet [of "active_interceptors (fst rw)" "\<lambda>ic. ic_on_event ic ev" rw] Cons.prems(1)
      by (auto simp: dispatch_event_def run_getE hooks_ok_def active_interceptors_def)
  next
    case (Hook_terminal sg)
    then show ?thesis
      using call_each_quiet [of "active_interceptors (fst rw)" "\<lambda>ic. ic_on_terminal ic sg" rw] Cons.prems(1)
      by (auto simp: dispatch_terminal_def run_getE hooks_ok_def active_interceptors_def)
  qed (use Cons.prems(2) in simp)
  then obtain rw1 where 1: "run_hook c rw = (Inr (), rw1)" "rn_interceptors (fst rw1) = rn_interceptors (fst rw)" by blast
  then show ?case using Cons.IH [of rw1] Cons.prems by (simp add: thenE_def bindE_def)
qed

text \<open>A view no one else touches. Which hooks raise, and whether they do, is open.\<close>

locale recorder_view =
  fixes me :: "'w interceptor" and friend :: "'w interceptor \<Rightarrow> bool" and view :: "'w \<Rightarrow> 'a"
    and step :: "hook_call \<Rightarrow> 'a \<Rightarrow> 'a \<Rightarrow> bool"
  assumes friend_keeps: "friend ic \<Longrightarrow> view (snd (hook_of c ic w)) = view w"
    and friend_name: "friend ic \<Longrightarrow> ic_name ic \<noteq> ic_name me"
    and me_steps: "step c (view w) (view (snd (hook_of c me w)))"
begin

lemma call_each_view:
  assumes "among me friend ics" and "call_each (hook_of c) ics (r, w) = (Inr (), (r', w'))"
  shows "(if me \<in> set ics then step c (view w) (view w') else view w' = view w \<and> (is_disabled (ic_name me) r' = is_disabled (ic_name me) r)) \<and>
    (is_disabled (ic_name me) r \<longrightarrow> is_disabled (ic_name me) r') \<and> rn_interceptors r' = rn_interceptors r \<and>
    ((\<forall>v. \<not> isl (fst (hook_of c me v))) \<longrightarrow> (is_disabled (ic_name me) r' = is_disabled (ic_name me) r))"
  using assms
proof (induction ics arbitrary: r w)
  case Nil
  then show ?case by (simp add: retE_def)
next
  case (Cons ic ics)
  obtain x r1 w1 where s: "safe_call (ic_name ic) (hook_of c ic) (r, w) = (Inr x, (r1, w1))"
    and k: "call_each (hook_of c) ics (r1, w1) = (Inr (), (r', w'))"
    using Cons.prems(2) by (auto simp: bindE_def split: prod.splits sum.splits)
  note f = safe_call_fields [OF s] and a = among_Cons [OF Cons.prems(1)]
  note ih = Cons.IH [OF conjunct1 [OF a] k]
  show ?case
  proof (cases "ic = me")
    case True
    then have "me \<notin> set ics" using a by blast
    then show ?thesis using ih f me_steps [of c w] True by auto
  next
    case False
    then have "friend ic" "ic_name ic \<noteq> ic_name me" using a friend_name by blast+
    then show ?thesis using ih f friend_keeps [of ic c w] False by auto
  qed
qed

lemma flush_each_view:
  assumes "among me friend ics" and "flush_each ics (r, w) = (Inr arts, (r', w'))"
  shows "(if me \<in> set ics \<and> \<not> is_disabled (ic_name me) r
     then \<exists>u. view u = view w \<and> view w' = view (snd (ic_flush me u)) \<and>
       (\<forall>art. fst (ic_flush me u) = Inr (Some art) \<longrightarrow> art \<in> set arts)
     else view w' = view w) \<and>
    (is_disabled (ic_name me) r \<longrightarrow> is_disabled (ic_name me) r') \<and> rn_interceptors r' = rn_interceptors r"
  using assms
proof (induction ics arbitrary: r w arts)
  case Nil
  then show ?case by (simp add: retE_def)
next
  case (Cons ic ics)
  note a = among_Cons [OF Cons.prems(1)]
  show ?case
  proof (cases "is_disabled (ic_name ic) r")
    case True
    then have "flush_each ics (r, w) = (Inr arts, (r', w'))" using Cons.prems(2) by (simp add: bindE_def getE_def)
    from Cons.IH [OF conjunct1 [OF a] this] show ?thesis using True a by auto
  next
    case False
    then obtain x r1 w1 later where s: "safe_call (ic_name ic) (ic_flush ic) (r, w) = (Inr x, (r1, w1))"
      and k: "flush_each ics (r1, w1) = (Inr later, (r', w'))"
      and arts: "arts = (case x of Some (Some art) \<Rightarrow> art # later | _ \<Rightarrow> later)"
      using Cons.prems(2) by (auto simp: bindE_def getE_def retE_def split: prod.splits sum.splits)
    note f = safe_call_fields [OF s] and ih = Cons.IH [OF conjunct1 [OF a] k]
    show ?thesis
    proof (cases "ic = me")
      case True
      have "art \<in> set arts" if "fst (ic_flush me w) = Inr (Some art)" for art
        using f that True arts by simp
      moreover have "view w' = view (snd (ic_flush me w))" using ih f a True by simp
      ultimately show ?thesis using ih f a True False by auto
    next
      case other: False
      then have fr: "friend ic" "ic_name me \<noteq> ic_name ic" using a friend_name by metis+
      have eq: "view w1 = view w" using f friend_keeps [OF fr(1), of Hook_flush w]
        by (simp add: bindE_def retE_def split: prod.splits sum.splits)
      have sub: "set later \<subseteq> set arts" by (auto simp: arts split: option.split)
      have dis: "is_disabled (ic_name me) r1 = is_disabled (ic_name me) r" using f fr(2) by blast
      show ?thesis
      proof (cases "me \<in> set ics \<and> \<not> is_disabled (ic_name me) r")
        case True
        with ih eq dis obtain u where "view u = view w" "view w' = view (snd (ic_flush me u))"
          "\<forall>art. fst (ic_flush me u) = Inr (Some art) \<longrightarrow> art \<in> set later" by auto
        with sub have "\<exists>u. view u = view w \<and> view w' = view (snd (ic_flush me u)) \<and>
          (\<forall>art. fst (ic_flush me u) = Inr (Some art) \<longrightarrow> art \<in> set arts)" by blast
        then show ?thesis using ih dis f other True by simp
      next
        case False
        then have "\<not> (me \<in> set (ic # ics) \<and> \<not> is_disabled (ic_name me) r)" using other by simp
        then show ?thesis unfolding if_not_P [OF \<open>\<not> (me \<in> set (ic # ics) \<and> \<not> is_disabled (ic_name me) r)\<close>]
          using ih eq dis f False by simp
      qed
    qed
  qed
qed

lemma run_hook_view:
  assumes "among me friend (rn_interceptors r)" and "me \<in> set (rn_interceptors r)" and "run_hook c (r, w) = (Inr (), (r', w'))"
  shows "(if is_disabled (ic_name me) r then view w' = view w else step c (view w) (view w')) \<and>
    (is_disabled (ic_name me) r \<longrightarrow> is_disabled (ic_name me) r') \<and> rn_interceptors r' = rn_interceptors r \<and>
    (c \<noteq> Hook_flush \<longrightarrow> (\<forall>v. \<not> isl (fst (hook_of c me v))) \<longrightarrow> is_disabled (ic_name me) r' = is_disabled (ic_name me) r)"
proof (cases "c = Hook_flush")
  case True
  then obtain arts where "flush_each (rn_interceptors r) (r, w) = (Inr arts, (r', w'))"
    using assms(3) by (auto simp: collect_artifacts_def bindE_def getE_def retE_def split: prod.splits sum.splits)
  from flush_each_view [OF assms(1) this] show ?thesis
  proof (cases "is_disabled (ic_name me) r")
    case False
    with flush_each_view [OF assms(1) \<open>flush_each (rn_interceptors r) (r, w) = (Inr arts, (r', w'))\<close>] assms(2)
    obtain u where "view u = view w" "view w' = view (snd (ic_flush me u))" "rn_interceptors r' = rn_interceptors r" by auto
    moreover have "snd (hook_of Hook_flush me u) = snd (ic_flush me u)"
      by (simp add: bindE_def retE_def split: prod.splits sum.splits)
    ultimately show ?thesis using me_steps [of Hook_flush u] True False by simp
  qed (use True in auto)
next
  case False
  have "call_each (hook_of c) (active_interceptors r) (r, w) = (Inr (), (r', w'))"
    using assms(3) False by (cases c) (simp_all add: dispatch_event_def dispatch_terminal_def bindE_def getE_def hook_of_fun)
  moreover have "me \<in> set (active_interceptors r) \<longleftrightarrow> \<not> is_disabled (ic_name me) r"
    using assms(2) by (auto simp: active_interceptors_def)
  ultimately show ?thesis
    using call_each_view [of "active_interceptors r" c r w r' w'] among_filter [OF assms(1)]
    by (auto simp: active_interceptors_def)
qed

text \<open>It hears the calls up to one at which it is disabled, or all.\<close>

lemma hears_until_disabled:
  assumes "among me friend (rn_interceptors r)" and "me \<in> set (rn_interceptors r)" and "forE cs run_hook (r, w) = (Inr (), (r', w'))"
  shows "\<exists>k \<le> length cs. chain step (take k cs) (view w) (view w') \<and> (k < length cs \<longrightarrow> is_disabled (ic_name me) r') \<and>
    rn_interceptors r' = rn_interceptors r \<and> (is_disabled (ic_name me) r \<longrightarrow> is_disabled (ic_name me) r' \<and> k = 0) \<and>
    (Hook_flush \<notin> set cs \<longrightarrow> (\<forall>c \<in> set cs. \<forall>v. \<not> isl (fst (hook_of c me v))) \<longrightarrow>
       is_disabled (ic_name me) r' = is_disabled (ic_name me) r)"
  using assms
proof (induction cs arbitrary: r w)
  case Nil
  then show ?case by (simp add: retE_def)
next
  case (Cons c cs)
  obtain r1 w1 where 1: "run_hook c (r, w) = (Inr (), (r1, w1))" and 2: "forE cs run_hook (r1, w1) = (Inr (), (r', w'))"
    using Cons.prems(3) by (auto simp: thenE_def bindE_def split: prod.splits sum.splits)
  note h = run_hook_view [OF Cons.prems(1,2) 1]
  obtain k where k: "k \<le> length cs" "chain step (take k cs) (view w1) (view w')" "k < length cs \<longrightarrow> is_disabled (ic_name me) r'"
    "rn_interceptors r' = rn_interceptors r1" "is_disabled (ic_name me) r1 \<longrightarrow> is_disabled (ic_name me) r' \<and> k = 0"
    "Hook_flush \<notin> set cs \<longrightarrow> (\<forall>c \<in> set cs. \<forall>v. \<not> isl (fst (hook_of c me v))) \<longrightarrow>
       is_disabled (ic_name me) r' = is_disabled (ic_name me) r1"
    using Cons.IH [OF _ _ 2] Cons.prems(1,2) h by auto
  show ?case
  proof (cases "is_disabled (ic_name me) r")
    case True
    then show ?thesis using k h by (intro exI [of _ 0]) auto
  next
    case False
    then have "step c (view w) (view w1)" using h by simp
    then show ?thesis using k h False by (intro exI [of _ "Suc k"]) auto
  qed
qed

end

end
