(* ===== verification/Recorded_Session.thy ===== *)
theory Recorded_Session
  imports Interceptor_Views Conversations Mcp_Fields Backtests
begin

text \<open>
  The three recorders in the runner of the driver. Each is an interceptor over one state that holds
  the memories of all three and the files they have written; its hooks are the operations of
  \<open>Conversations\<close>, \<open>Backtests\<close> and \<open>Mcp_Fields\<close>. The clock and the disk of the backtests are read anew
  in each hook. None of the hooks awaits anything, a summarising callback at the flush apart, so each
  runs to its end before the next starts.
\<close>

section \<open>The recorders as interceptors\<close>

datatype file_content = Json_file json | Jsonl_file "string list"

record recorders =
  rc_conv :: conv_state
  rc_conv_files :: "(string \<times> file_content) list"
  rc_bt :: bt_state
  rc_bt_files :: "(string \<times> file_content) list"
  rc_mcp :: mcp_state
  rc_mcp_files :: "(string \<times> file_content) list"
  rc_tick :: nat

definition new_recorders :: recorders where
  "new_recorders = \<lparr>rc_conv = new_conversation, rc_conv_files = [], rc_bt = new_bt_state, rc_bt_files = [],
     rc_mcp = new_mcp_state, rc_mcp_files = [], rc_tick = 0\<rparr>"

text \<open>The options of the recorders, and what the clock and the disk answer at each hook.\<close>

record recorder_env =
  rv_conv :: conv_options
  rv_conv_env :: conv_env
  rv_bt :: bt_options
  rv_mcp :: mcp_options
  rv_disk :: disk
  rv_artifacts :: string
  rv_now :: "nat \<Rightarrow> timestamp"
  rv_bt_env :: "nat \<Rightarrow> bt_env"
  rv_mkdir_fails :: "nat \<Rightarrow> bool"
  rv_write_fails :: "nat \<Rightarrow> bool"

definition tick :: "recorders \<Rightarrow> recorders" where
  "tick s = s\<lparr>rc_tick := Suc (rc_tick s)\<rparr>"

definition conv_recorder :: "recorder_env \<Rightarrow> recorders interceptor" where
  "conv_recorder v = \<lparr>ic_name = ''conversations'',
     ic_on_event = (\<lambda>ev s. (Inr (), tick (s\<lparr>rc_conv :=
       conv_on_event (rv_conv_env v) (rv_conv v) (rv_now v (rc_tick s)) ev (rc_conv s)\<rparr>))),
     ic_on_terminal = (\<lambda>sg s. (Inr (), tick (s\<lparr>rc_conv :=
       conv_on_terminal (rv_conv v) (rv_now v (rc_tick s)) sg (rc_conv s)\<rparr>))),
     ic_flush = (\<lambda>s. case conv_flush (rv_conv_env v) (rv_conv v) (rv_now v (rc_tick s)) (rc_conv s) of
         (Inl e, t) \<Rightarrow> (Inl e, tick (s\<lparr>rc_conv := t\<rparr>))
       | (Inr None, t) \<Rightarrow> (Inr None, tick (s\<lparr>rc_conv := t\<rparr>))
       | (Inr (Some (art, target, ls)), t) \<Rightarrow>
           (Inr (Some art), tick (s\<lparr>rc_conv := t, rc_conv_files := rc_conv_files s @ [(target, Jsonl_file ls)]\<rparr>)))\<rparr>"

definition bt_recorder :: "recorder_env \<Rightarrow> recorders interceptor" where
  "bt_recorder v = \<lparr>ic_name = ''backtest'',
     ic_on_event = (\<lambda>ev s. case bt_on_event (rv_artifacts v) (rv_bt_env v (rc_tick s)) (rv_bt v) ev (rc_bt s) of
       (err, t) \<Rightarrow> (case err of None \<Rightarrow> Inr () | Some e \<Rightarrow> Inl e, tick (s\<lparr>rc_bt := t\<rparr>))),
     ic_on_terminal = (\<lambda>sg s. (Inr (), tick (s\<lparr>rc_bt := bt_on_terminal sg (rc_bt s)\<rparr>))),
     ic_flush = (\<lambda>s. case bt_flush (rv_artifacts v) (rv_mkdir_fails v (rc_tick s)) (rv_write_fails v (rc_tick s)) (rc_bt s) of
         None \<Rightarrow> (Inr None, tick s)
       | Some (art, target, doc) \<Rightarrow>
           (Inr (Some art), tick (s\<lparr>rc_bt_files := rc_bt_files s @ [(target, Json_file doc)]\<rparr>)))\<rparr>"

definition mcp_recorder :: "recorder_env \<Rightarrow> recorders interceptor" where
  "mcp_recorder v = \<lparr>ic_name = ''mcp-fields'',
     ic_on_event = (\<lambda>ev s. (Inr (), tick (s\<lparr>rc_mcp := mcp_on_event (rv_mcp v) ev (rc_mcp s)\<rparr>))),
     ic_on_terminal = (\<lambda>sg s. (Inr (), tick (s\<lparr>rc_mcp := mcp_on_terminal sg (rc_mcp s)\<rparr>))),
     ic_flush = (\<lambda>s. case mcp_flush (rv_disk v) (rc_mcp s) of
         Inl e \<Rightarrow> (Inl e, tick s)
       | Inr None \<Rightarrow> (Inr None, tick s)
       | Inr (Some (art, target, doc)) \<Rightarrow>
           (Inr (Some art), tick (s\<lparr>rc_mcp_files := rc_mcp_files s @ [(target, Json_file doc)]\<rparr>)))\<rparr>"

text \<open>A session: its events, the terminal signal, the flush.\<close>

definition recorded_session ::
    "interceptor_event list \<Rightarrow> terminal_signal \<Rightarrow> (recorders, interceptor_artifact list) rio" where
  "recorded_session evs sg = thenE (forE (map Hook_event evs @ [Hook_terminal sg]) run_hook) collect_artifacts"

section \<open>Their views\<close>

lemma recorder_names [simp]:
  "ic_name (conv_recorder v) = ''conversations''" "ic_name (bt_recorder v) = ''backtest''"
  "ic_name (mcp_recorder v) = ''mcp-fields''"
  by (simp_all add: conv_recorder_def bt_recorder_def mcp_recorder_def)

lemma tick_fields [simp]:
  "rc_conv (tick s) = rc_conv s" "rc_conv_files (tick s) = rc_conv_files s" "rc_bt (tick s) = rc_bt s"
  "rc_bt_files (tick s) = rc_bt_files s" "rc_mcp (tick s) = rc_mcp s" "rc_mcp_files (tick s) = rc_mcp_files s"
  by (simp_all add: tick_def)

lemma flush_hook_state: "snd (hook_of Hook_flush ic s) = snd (ic_flush ic s)"
  by (simp add: bindE_def retE_def split: prod.splits sum.splits)

lemma conv_keeps:
  "rc_bt (snd (hook_of c (conv_recorder v) s)) = rc_bt s \<and> rc_bt_files (snd (hook_of c (conv_recorder v) s)) = rc_bt_files s \<and>
   rc_mcp (snd (hook_of c (conv_recorder v) s)) = rc_mcp s \<and> rc_mcp_files (snd (hook_of c (conv_recorder v) s)) = rc_mcp_files s"
  by (cases c) (simp_all del: hook_of.simps(3) add: flush_hook_state conv_recorder_def split: prod.split sum.split option.split)

lemma bt_keeps:
  "rc_conv (snd (hook_of c (bt_recorder v) s)) = rc_conv s \<and> rc_conv_files (snd (hook_of c (bt_recorder v) s)) = rc_conv_files s \<and>
   rc_mcp (snd (hook_of c (bt_recorder v) s)) = rc_mcp s \<and> rc_mcp_files (snd (hook_of c (bt_recorder v) s)) = rc_mcp_files s"
  by (cases c) (simp_all del: hook_of.simps(3) add: flush_hook_state bt_recorder_def split: prod.split option.split)

lemma mcp_keeps:
  "rc_conv (snd (hook_of c (mcp_recorder v) s)) = rc_conv s \<and> rc_conv_files (snd (hook_of c (mcp_recorder v) s)) = rc_conv_files s \<and>
   rc_bt (snd (hook_of c (mcp_recorder v) s)) = rc_bt s \<and> rc_bt_files (snd (hook_of c (mcp_recorder v) s)) = rc_bt_files s"
  by (cases c) (simp_all del: hook_of.simps(3) add: flush_hook_state mcp_recorder_def split: sum.split option.split)

fun conv_hears :: "recorder_env \<Rightarrow> hook_call \<Rightarrow> conv_state \<times> (string \<times> file_content) list \<Rightarrow>
    conv_state \<times> (string \<times> file_content) list \<Rightarrow> bool" where
  "conv_hears v (Hook_event ev) a b \<longleftrightarrow>
     (\<exists>n. b = (conv_on_event (rv_conv_env v) (rv_conv v) (rv_now v n) ev (fst a), snd a))"
| "conv_hears v (Hook_terminal sg) a b \<longleftrightarrow> (\<exists>n. b = (conv_on_terminal (rv_conv v) (rv_now v n) sg (fst a), snd a))"
| "conv_hears v Hook_flush a b \<longleftrightarrow>
     (\<exists>n. fst b = snd (conv_flush (rv_conv_env v) (rv_conv v) (rv_now v n) (fst a)) \<and>
        snd b = snd a @ (case fst (conv_flush (rv_conv_env v) (rv_conv v) (rv_now v n) (fst a)) of
          Inr (Some (art, target, ls)) \<Rightarrow> [(target, Jsonl_file ls)] | _ \<Rightarrow> []))"

fun bt_hears :: "recorder_env \<Rightarrow> hook_call \<Rightarrow> bt_state \<Rightarrow> bt_state \<Rightarrow> bool" where
  "bt_hears v (Hook_event ev) a b \<longleftrightarrow> (\<exists>n. b = bt_step (rv_artifacts v) (rv_bt v) (rv_bt_env v n, ev) a)"
| "bt_hears v (Hook_terminal sg) a b \<longleftrightarrow> b = bt_on_terminal sg a"
| "bt_hears v Hook_flush a b \<longleftrightarrow> b = a"

fun mcp_hears :: "recorder_env \<Rightarrow> hook_call \<Rightarrow> mcp_state \<times> (string \<times> file_content) list \<Rightarrow>
    mcp_state \<times> (string \<times> file_content) list \<Rightarrow> bool" where
  "mcp_hears v (Hook_event ev) a b \<longleftrightarrow> b = (mcp_on_event (rv_mcp v) ev (fst a), snd a)"
| "mcp_hears v (Hook_terminal sg) a b \<longleftrightarrow> b = (mcp_on_terminal sg (fst a), snd a)"
| "mcp_hears v Hook_flush a b \<longleftrightarrow>
     b = (fst a, snd a @ (case mcp_flush (rv_disk v) (fst a) of
       Inr (Some (art, target, doc)) \<Rightarrow> [(target, Json_file doc)] | _ \<Rightarrow> []))"

interpretation conv_view: recorder_view "conv_recorder v" "\<lambda>ic. ic = bt_recorder v \<or> ic = mcp_recorder v"
  "\<lambda>s. (rc_conv s, rc_conv_files s)" "conv_hears v" for v
proof
  show "conv_hears v c (rc_conv w, rc_conv_files w)
      (rc_conv (snd (hook_of c (conv_recorder v) w)), rc_conv_files (snd (hook_of c (conv_recorder v) w)))" for c w
  proof (cases c)
    case Hook_flush
    obtain res t where "conv_flush (rv_conv_env v) (rv_conv v) (rv_now v (rc_tick w)) (rc_conv w) = (res, t)" by force
    then show ?thesis unfolding Hook_flush conv_hears.simps flush_hook_state
      by (intro exI [of _ "rc_tick w"]) (simp add: conv_recorder_def split: sum.split option.split)
  qed (auto simp: conv_recorder_def)
qed (use bt_keeps mcp_keeps in auto)

interpretation bt_view: recorder_view "bt_recorder v" "\<lambda>ic. ic = conv_recorder v \<or> ic = mcp_recorder v"
  "rc_bt" "bt_hears v" for v
proof
  show "bt_hears v c (rc_bt w) (rc_bt (snd (hook_of c (bt_recorder v) w)))" for c w
  proof (cases c)
    case (Hook_event ev)
    show ?thesis unfolding Hook_event bt_hears.simps
      by (intro exI [of _ "rc_tick w"]) (simp add: bt_recorder_def bt_step_def split: prod.split)
  next
    case Hook_flush
    then show ?thesis by (simp del: hook_of.simps(3) add: flush_hook_state bt_recorder_def split: option.split prod.split)
  qed (simp add: bt_recorder_def)
qed (use conv_keeps mcp_keeps in auto)

interpretation mcp_view: recorder_view "mcp_recorder v" "\<lambda>ic. ic = conv_recorder v \<or> ic = bt_recorder v"
  "\<lambda>s. (rc_mcp s, rc_mcp_files s)" "mcp_hears v" for v
proof
  show "mcp_hears v c (rc_mcp w, rc_mcp_files w)
      (rc_mcp (snd (hook_of c (mcp_recorder v) w)), rc_mcp_files (snd (hook_of c (mcp_recorder v) w)))" for c w
    by (cases c) (auto simp del: hook_of.simps(3) simp: flush_hook_state mcp_recorder_def split: sum.split option.split)
qed (use conv_keeps bt_keeps in auto)

section \<open>What they have recorded at the end\<close>

lemma conv_events_chain:
  "chain (conv_hears v) (map Hook_event evs) a b \<Longrightarrow>
   \<exists>ns. length ns = length evs \<and>
     b = (conv_run (rv_conv_env v) (rv_conv v) (map2 Conv_event (map (rv_now v) ns) evs) (fst a), snd a)"
proof (induction evs arbitrary: a)
  case Nil
  then show ?case by (simp add: conv_run_def)
next
  case (Cons ev evs)
  then obtain n ns where "length ns = length evs"
    "b = (conv_run (rv_conv_env v) (rv_conv v) (map2 Conv_event (map (rv_now v) ns) evs)
        (conv_on_event (rv_conv_env v) (rv_conv v) (rv_now v n) ev (fst a)), snd a)"
    by fastforce
  then show ?case by (intro exI [of _ "n # ns"]) (simp add: conv_run_def)
qed

lemma conv_session_chain:
  assumes "chain (conv_hears v) (map Hook_event evs @ [Hook_terminal sg]) a b"
  shows "\<exists>ns m. length ns = length evs \<and>
    b = (conv_run (rv_conv_env v) (rv_conv v) (map2 Conv_event (map (rv_now v) ns) evs @ [Conv_terminal (rv_now v m) sg]) (fst a), snd a)"
proof -
  obtain x where x: "chain (conv_hears v) (map Hook_event evs) a x" "chain (conv_hears v) [Hook_terminal sg] x b"
    using assms unfolding chain_append by blast
  obtain ns where n: "length ns = length evs"
    "x = (conv_run (rv_conv_env v) (rv_conv v) (map2 Conv_event (map (rv_now v) ns) evs) (fst a), snd a)"
    using conv_events_chain [OF x(1)] by blast
  then show ?thesis using x(2) by (auto simp: conv_run_def)
qed

lemma mcp_session_chain:
  "chain (mcp_hears v) (map Hook_event evs @ [Hook_terminal sg]) a b \<Longrightarrow>
   b = (mcp_on_terminal sg (mcp_run (rv_mcp v) evs (fst a)), snd a)"
  by (induction evs arbitrary: a) (auto simp: mcp_run_def)

lemma bt_session_chain:
  assumes "chain (bt_hears v) (take k (map Hook_event evs @ [Hook_terminal sg])) a b"
  shows "\<exists>ns n. n \<le> length evs \<and> length ns = n \<and> (k \<le> length evs \<longrightarrow> n = k) \<and>
    (let t = bt_run (rv_artifacts v) (rv_bt v) (zip (map (rv_bt_env v) ns) (take n evs)) a in
     b = (if k \<le> length evs then t else bt_on_terminal sg t) \<and> (length evs < k \<longrightarrow> n = length evs))"
  using assms
proof (induction evs arbitrary: a k)
  case Nil
  then show ?case by (cases k) (auto simp: bt_run_def Let_def)
next
  case (Cons ev evs)
  show ?case
  proof (cases k)
    case 0
    then show ?thesis using Cons.prems by (intro exI [of _ "[]"] exI [of _ 0]) (simp add: bt_run_def)
  next
    case (Suc j)
    then obtain m where e: "chain (bt_hears v) (take j (map Hook_event evs @ [Hook_terminal sg]))
        (bt_step (rv_artifacts v) (rv_bt v) (rv_bt_env v m, ev) a) b"
      using Cons.prems by auto
    then obtain ns n where "n \<le> length evs" "length ns = n" "j \<le> length evs \<longrightarrow> n = j"
      "b = (if j \<le> length evs then bt_run (rv_artifacts v) (rv_bt v) (zip (map (rv_bt_env v) ns) (take n evs)) (bt_step (rv_artifacts v) (rv_bt v) (rv_bt_env v m, ev) a)
        else bt_on_terminal sg (bt_run (rv_artifacts v) (rv_bt v) (zip (map (rv_bt_env v) ns) (take n evs)) (bt_step (rv_artifacts v) (rv_bt v) (rv_bt_env v m, ev) a)))"
      "length evs < j \<longrightarrow> n = length evs"
      using Cons.IH [OF e] by (auto simp: Let_def)
    then show ?thesis using Suc by (intro exI [of _ "m # ns"] exI [of _ "Suc n"]) (simp add: bt_run_def Let_def)
  qed
qed

text \<open>What the recorders call raises no \<open>BaseException\<close> of another kind: the session is not cancelled in them.\<close>

definition ordinary_errors :: "recorder_env \<Rightarrow> bool" where
  "ordinary_errors v \<longleftrightarrow> (\<forall>n p e. be_resolve (rv_bt_env v n) p = Inl e \<longrightarrow> is_Exception e) \<and>
     (\<forall>n p q e. be_copytree (rv_bt_env v n) p q = Some e \<longrightarrow> is_Exception e) \<and>
     (\<forall>f ms e. co_summarize (rv_conv v) = Some f \<longrightarrow> f ms = Inl e \<longrightarrow> is_Exception e)"

lemma conv_flush_ordinary:
  "ordinary_errors v \<Longrightarrow> conv_flush env (rv_conv v) now s = (Inl e, t) \<Longrightarrow> is_Exception e"
  unfolding ordinary_errors_def conv_flush_def resolve_slug_def Let_def
  by (fastforce split: list.splits option.splits sum.splits prod.splits json.splits if_splits)

lemma bt_event_ordinary:
  assumes "ordinary_errors v" and "bt_on_event artifacts (rv_bt_env v n) bo ev s = (Some e, t)"
  shows "is_Exception e"
proof -
  have src: "resolve_source (rv_bt_env v n) bo raw = Inl e \<Longrightarrow> is_Exception e" for raw e
    using assms(1) by (auto simp: resolve_source_def ordinary_errors_def split: option.splits sum.splits if_splits)
  have cp: "copy_run artifacts (rv_bt_env v n) bo raw tool source s = (Some e, t) \<Longrightarrow> is_Exception e" for raw tool source s t e
    using assms(1) by (auto simp: copy_run_def Let_def ordinary_errors_def split: prod.splits option.splits if_splits)
  have "handle_finished artifacts (rv_bt_env v n) bo raw p s = (Some e, t) \<Longrightarrow> is_Exception e" for raw p s t
    using src cp by (auto simp: handle_finished_def Let_def split: json.splits option.splits sum.splits if_splits)
  then show ?thesis
    using assms(2) by (auto simp: bt_on_event_def Let_def split: option.splits if_splits)
qed

lemma mcp_flush_ordinary: "mcp_flush dk s = Inl e \<Longrightarrow> is_Exception e"
  by (auto simp: mcp_flush_def sorted_uses_def Let_def split: list.splits option.splits if_splits)

lemma recorders_hooks_ok:
  assumes "ordinary_errors v" and "set ics \<subseteq> {conv_recorder v, bt_recorder v, mcp_recorder v}"
  shows "hooks_ok ics"
proof -
  have "raises is_Exception (ic_on_event ic ev) \<and> raises is_Exception (ic_on_terminal ic sg) \<and> raises is_Exception (ic_flush ic)"
    if "ic \<in> {conv_recorder v, bt_recorder v, mcp_recorder v}" for ic ev sg
    using that
    by (auto intro!: raisesI simp: conv_recorder_def bt_recorder_def mcp_recorder_def
        intro: bt_event_ordinary [OF assms(1)] conv_flush_ordinary [OF assms(1)] mcp_flush_ordinary
        split: prod.splits option.splits sum.splits)
  then show ?thesis using assms(2) by (auto simp: hooks_ok_def)
qed

lemma recorders_names_ok:
  assumes "set ics \<subseteq> {conv_recorder v, bt_recorder v, mcp_recorder v}" and "distinct (map ic_name ics)"
    and "set seen \<inter> ic_name ` set ics = {}"
  shows "check_names seen ics = None"
  using assms
proof (induction ics arbitrary: seen)
  case (Cons ic ics)
  have "valid_name ''conversations''" "valid_name ''backtest''" "valid_name ''mcp-fields''"
    by (simp_all add: valid_name_def name_body_ok_def name_char_def is_lower_def is_digit_def)
  then have "valid_name (ic_name ic)" using Cons.prems(1) by auto
  moreover have "check_names (ic_name ic # seen) ics = None" using Cons.prems by (intro Cons.IH) auto
  ultimately show ?case using Cons.prems(3) by simp
qed simp

lemma recorders_among:
  assumes "set ics \<subseteq> {conv_recorder v, bt_recorder v, mcp_recorder v}" and "distinct (map ic_name ics)"
  shows "among (conv_recorder v) (\<lambda>ic. ic = bt_recorder v \<or> ic = mcp_recorder v) ics"
    and "among (bt_recorder v) (\<lambda>ic. ic = conv_recorder v \<or> ic = mcp_recorder v) ics"
    and "among (mcp_recorder v) (\<lambda>ic. ic = conv_recorder v \<or> ic = bt_recorder v) ics"
  using assms by (auto simp: among_def)

lemma quiet_recorder_hooks:
  "c \<noteq> Hook_flush \<Longrightarrow> \<not> isl (fst (hook_of c (conv_recorder v) s))"
  "c \<noteq> Hook_flush \<Longrightarrow> \<not> isl (fst (hook_of c (mcp_recorder v) s))"
  by (cases c; simp add: conv_recorder_def mcp_recorder_def)+

text \<open>The terminal signal has emptied the buffer, so the flush changes the conversation no more.\<close>

lemma conv_flush_after_terminal:
  "snd (conv_flush env co now (conv_run env co (calls @ [Conv_terminal t sg]) s)) = conv_run env co (calls @ [Conv_terminal t sg]) s"
proof -
  have "cv_buffer (conv_run env co (calls @ [Conv_terminal t sg]) s) = []"
    by (simp add: conv_run_def conv_on_terminal_def flush_assistant_buffer_def append_message_def)
  then show ?thesis
    by (simp add: conv_flush_def flush_assistant_buffer_def Let_def split: list.split option.split sum.split prod.split)
qed

text \<open>The two halves of a session.\<close>

lemma recorded_session_runs:
  assumes "ordinary_errors v" and ics: "set ics \<subseteq> {conv_recorder v, bt_recorder v, mcp_recorder v}" "distinct (map ic_name ics)"
  shows "\<exists>r0 r1 s1 arts r s. new_runner ics budget = Inr r0 \<and> rn_interceptors r0 = ics \<and> rn_disabled r0 = [] \<and>
    forE (map Hook_event evs @ [Hook_terminal sg]) run_hook (r0, s0) = (Inr (), (r1, s1)) \<and> rn_interceptors r1 = ics \<and>
    flush_each ics (r1, s1) = (Inr arts, (r, s)) \<and> recorded_session evs sg (r0, s0) = (Inr arts, (r, s))"
proof -
  define r0 :: "recorders runner" where "r0 = \<lparr>rn_interceptors = ics, rn_budget = budget, rn_counts = map (\<lambda>ic. (ic_name ic, 0)) ics, rn_disabled = []\<rparr>"
  have new: "new_runner ics budget = Inr r0" using recorders_names_ok [OF ics, of "[]"] by (simp add: new_runner_def r0_def)
  have hooks: "hooks_ok ics" by (rule recorders_hooks_ok [OF assms(1) ics(1)])
  obtain r1 s1 where 1: "forE (map Hook_event evs @ [Hook_terminal sg]) run_hook (r0, s0) = (Inr (), (r1, s1))" "rn_interceptors r1 = ics"
    using run_hooks_quiet [of "(r0, s0)" "map Hook_event evs @ [Hook_terminal sg]"] hooks by (auto simp: r0_def)
  obtain arts r s where 2: "flush_each ics (r1, s1) = (Inr arts, (r, s))"
    using flush_each_quiet [of ics "(r1, s1)"] hooks by (auto simp: hooks_ok_def)
  have "recorded_session evs sg (r0, s0) = (Inr arts, (r, s))"
    using 1 2 by (simp add: recorded_session_def collect_artifacts_def thenE_def bindE_def getE_def)
  then show ?thesis using new 1 2 by (auto simp: r0_def)
qed

lemma quiet_view_hears_all:
  assumes view: "recorder_view me friend view step" and among: "among me friend (rn_interceptors r0)" "me \<in> set (rn_interceptors r0)"
    and run: "forE cs run_hook (r0, s0) = (Inr (), (r1, s1))" and start: "\<not> is_disabled (ic_name me) r0"
    and quiet: "Hook_flush \<notin> set cs" "\<And>c s. c \<noteq> Hook_flush \<Longrightarrow> \<not> isl (fst (hook_of c me s))"
  shows "chain step cs (view s0) (view s1) \<and> \<not> is_disabled (ic_name me) r1"
proof -
  have "\<forall>c \<in> set cs. \<forall>s. \<not> isl (fst (hook_of c me s))" by (metis quiet)
  then show ?thesis using recorder_view.hears_until_disabled [OF view among run] start quiet(1) by auto
qed

lemma conv_recorder_undisturbed:
  assumes ics: "set ics \<subseteq> {conv_recorder v, bt_recorder v, mcp_recorder v}" "distinct (map ic_name ics)" and me: "conv_recorder v \<in> set ics"
    and new: "rn_interceptors r0 = ics" "rn_disabled r0 = []"
    and run: "forE (map Hook_event evs @ [Hook_terminal sg]) run_hook (r0, new_recorders) = (Inr (), (r1, s1))"
    and fl: "flush_each ics (r1, s1) = (Inr arts, (r, s))"
  shows "\<exists>ns m. length ns = length evs \<and>
      rc_conv s = conv_run (rv_conv_env v) (rv_conv v) (map2 Conv_event (map (rv_now v) ns) evs @ [Conv_terminal (rv_now v m) sg]) new_conversation"
proof -
  let ?cs = "map Hook_event evs @ [Hook_terminal sg]"
  have on: "\<not> is_disabled n r0" for n by (simp add: is_disabled_def new(2))
  have nofl: "Hook_flush \<notin> set ?cs" by auto
  have "chain (conv_hears v) ?cs (rc_conv new_recorders, rc_conv_files new_recorders) (rc_conv s1, rc_conv_files s1) \<and>
      \<not> is_disabled (ic_name (conv_recorder v)) r1"
    by (rule quiet_view_hears_all [OF conv_view.recorder_view_axioms _ _ run on nofl quiet_recorder_hooks(1)])
      (use new(1) me recorders_among(1) [OF ics] in simp_all)
  then obtain ns m where n: "length ns = length evs"
      "rc_conv s1 = conv_run (rv_conv_env v) (rv_conv v) (map2 Conv_event (map (rv_now v) ns) evs @ [Conv_terminal (rv_now v m) sg]) new_conversation"
    and act: "\<not> is_disabled (ic_name (conv_recorder v)) r1"
    using conv_session_chain [of v evs sg] by (fastforce simp: new_recorders_def)
  then obtain u where u: "(rc_conv u, rc_conv_files u) = (rc_conv s1, rc_conv_files s1)"
      "(rc_conv s, rc_conv_files s) = (rc_conv (snd (ic_flush (conv_recorder v) u)), rc_conv_files (snd (ic_flush (conv_recorder v) u)))"
    using conv_view.flush_each_view [OF recorders_among(1) [OF ics] fl] me by auto
  have "conv_hears v Hook_flush (rc_conv u, rc_conv_files u) (rc_conv s, rc_conv_files s)"
    using conv_view.me_steps [of v Hook_flush u] u(2) by (simp only: flush_hook_state)
  then have "rc_conv s = rc_conv s1" using u(1) n(2) conv_flush_after_terminal by auto
  then show ?thesis using n by auto
qed

lemma mcp_recorder_undisturbed:
  assumes ics: "set ics \<subseteq> {conv_recorder v, bt_recorder v, mcp_recorder v}" "distinct (map ic_name ics)" and me: "mcp_recorder v \<in> set ics"
    and new: "rn_interceptors r0 = ics" "rn_disabled r0 = []"
    and run: "forE (map Hook_event evs @ [Hook_terminal sg]) run_hook (r0, new_recorders) = (Inr (), (r1, s1))"
    and fl: "flush_each ics (r1, s1) = (Inr arts, (r, s))"
  shows "rc_mcp s = mcp_on_terminal sg (mcp_run (rv_mcp v) evs new_mcp_state) \<and>
      (\<forall>art target doc. mcp_flush (rv_disk v) (rc_mcp s) = Inr (Some (art, target, doc)) \<longrightarrow>
          art \<in> set arts \<and> rc_mcp_files s = [(target, Json_file doc)])"
proof -
  let ?cs = "map Hook_event evs @ [Hook_terminal sg]"
  have on: "\<not> is_disabled n r0" for n by (simp add: is_disabled_def new(2))
  have nofl: "Hook_flush \<notin> set ?cs" by auto
  have "chain (mcp_hears v) ?cs (rc_mcp new_recorders, rc_mcp_files new_recorders) (rc_mcp s1, rc_mcp_files s1) \<and>
      \<not> is_disabled (ic_name (mcp_recorder v)) r1"
    by (rule quiet_view_hears_all [OF mcp_view.recorder_view_axioms _ _ run on nofl quiet_recorder_hooks(2)])
      (use new(1) me recorders_among(3) [OF ics] in simp_all)
  then have n: "rc_mcp s1 = mcp_on_terminal sg (mcp_run (rv_mcp v) evs new_mcp_state)" "rc_mcp_files s1 = []"
    and act: "\<not> is_disabled (ic_name (mcp_recorder v)) r1"
    using mcp_session_chain [of v evs sg] by (fastforce simp: new_recorders_def)+
  then obtain u where u: "(rc_mcp u, rc_mcp_files u) = (rc_mcp s1, rc_mcp_files s1)"
      "(rc_mcp s, rc_mcp_files s) = (rc_mcp (snd (ic_flush (mcp_recorder v) u)), rc_mcp_files (snd (ic_flush (mcp_recorder v) u)))"
      "\<forall>art. fst (ic_flush (mcp_recorder v) u) = Inr (Some art) \<longrightarrow> art \<in> set arts"
    using mcp_view.flush_each_view [OF recorders_among(3) [OF ics] fl] me by auto
  have same: "rc_mcp s = rc_mcp u" using u(2) by (simp add: mcp_recorder_def split: sum.splits option.splits prod.splits)
  have "art \<in> set arts \<and> rc_mcp_files s = [(target, Json_file doc)]"
    if "mcp_flush (rv_disk v) (rc_mcp s) = Inr (Some (art, target, doc))" for art target doc
    using that u same n(2) by (simp add: mcp_recorder_def)
  then show ?thesis using same u(1) n(1) by simp
qed

lemma bt_recorder_undisturbed:
  assumes ics: "set ics \<subseteq> {conv_recorder v, bt_recorder v, mcp_recorder v}" "distinct (map ic_name ics)" and me: "bt_recorder v \<in> set ics"
    and new: "rn_interceptors r0 = ics" "rn_disabled r0 = []"
    and run: "forE (map Hook_event evs @ [Hook_terminal sg]) run_hook (r0, new_recorders) = (Inr (), (r1, s1))"
    and fl: "flush_each ics (r1, s1) = (Inr arts, (r, s))"
  shows "\<exists>ns n. length ns = n \<and> n \<le> length evs \<and>
      (let t = bt_run (rv_artifacts v) (rv_bt v) (zip (map (rv_bt_env v) ns) (take n evs)) new_bt_state in
       rc_bt s = bt_on_terminal sg t \<and> n = length evs \<or> rc_bt s = t \<and> is_disabled ''backtest'' r)"
proof -
  let ?cs = "map Hook_event evs @ [Hook_terminal sg]"
  have on: "\<not> is_disabled n r0" for n by (simp add: is_disabled_def new(2))
  have nofl: "Hook_flush \<notin> set ?cs" by auto
  obtain k where k: "k \<le> length ?cs" "chain (bt_hears v) (take k ?cs) new_bt_state (rc_bt s1)"
    "k < length ?cs \<longrightarrow> is_disabled ''backtest'' r1"
    using bt_view.hears_until_disabled [of v r0 ?cs new_recorders r1 s1] recorders_among(2) [OF ics] new(1) me run
    by (auto simp: new_recorders_def)
  obtain ns n where n: "n \<le> length evs" "length ns = n" "length evs < k \<longrightarrow> n = length evs"
    "rc_bt s1 = (if k \<le> length evs then bt_run (rv_artifacts v) (rv_bt v) (zip (map (rv_bt_env v) ns) (take n evs)) new_bt_state
       else bt_on_terminal sg (bt_run (rv_artifacts v) (rv_bt v) (zip (map (rv_bt_env v) ns) (take n evs)) new_bt_state))"
    using bt_session_chain [OF k(2)] by (auto simp: Let_def)
  have same: "rc_bt s = rc_bt s1" and dis: "is_disabled ''backtest'' r1 \<longrightarrow> is_disabled ''backtest'' r"
  proof -
    note f = bt_view.flush_each_view [OF recorders_among(2) [OF ics] fl]
    show "is_disabled ''backtest'' r1 \<longrightarrow> is_disabled ''backtest'' r" using f by simp
    have "rc_bt (snd (ic_flush (bt_recorder v) u)) = rc_bt u" for u
      by (simp add: bt_recorder_def split: option.split prod.split)
    then show "rc_bt s = rc_bt s1" using f me by (auto split: if_splits)
  qed
  then show ?thesis using n k by (intro exI [of _ ns] exI [of _ n]) (auto simp: Let_def)
qed

text \<open>C25: Each recorder of a session is undisturbed by the others. Whichever of the three run, in whatever order,
  and whatever the disk does to the archiver of backtests, the session ends and returns its artifacts;
  the conversation recorded is that of all the events and the terminal signal; the field summary counts all the
  events, and if it can be written its artifact is returned and its file is the only one the recorder writes;
  the archiver has seen all of them too, or those up to the one at which it used up its error budget.\<close>

theorem recorders_do_not_disturb_each_other:
  assumes "ordinary_errors v" and "set ics \<subseteq> {conv_recorder v, bt_recorder v, mcp_recorder v}" and "distinct (map ic_name ics)"
  shows "\<exists>r0 arts r s. new_runner ics budget = Inr r0 \<and> recorded_session evs sg (r0, new_recorders) = (Inr arts, (r, s)) \<and>
    (conv_recorder v \<in> set ics \<longrightarrow> (\<exists>ns m. length ns = length evs \<and>
       rc_conv s = conv_run (rv_conv_env v) (rv_conv v) (map2 Conv_event (map (rv_now v) ns) evs @ [Conv_terminal (rv_now v m) sg]) new_conversation)) \<and>
    (mcp_recorder v \<in> set ics \<longrightarrow> rc_mcp s = mcp_on_terminal sg (mcp_run (rv_mcp v) evs new_mcp_state) \<and>
       (\<forall>art target doc. mcp_flush (rv_disk v) (rc_mcp s) = Inr (Some (art, target, doc)) \<longrightarrow>
          art \<in> set arts \<and> rc_mcp_files s = [(target, Json_file doc)])) \<and>
    (bt_recorder v \<in> set ics \<longrightarrow> (\<exists>ns n. length ns = n \<and> n \<le> length evs \<and>
       (let t = bt_run (rv_artifacts v) (rv_bt v) (zip (map (rv_bt_env v) ns) (take n evs)) new_bt_state in
        rc_bt s = bt_on_terminal sg t \<and> n = length evs \<or> rc_bt s = t \<and> is_disabled ''backtest'' r)))"
proof -
  let ?cs = "map Hook_event evs @ [Hook_terminal sg]"
  note ics = assms(2,3)
  obtain r0 r1 s1 arts r s where new: "new_runner ics budget = Inr r0" "rn_interceptors r0 = ics" "rn_disabled r0 = []"
    and run: "forE ?cs run_hook (r0, new_recorders) = (Inr (), (r1, s1))" "rn_interceptors r1 = ics"
    and fl: "flush_each ics (r1, s1) = (Inr arts, (r, s))" and all: "recorded_session evs sg (r0, new_recorders) = (Inr arts, (r, s))"
    using recorded_session_runs [OF assms] by blast
  note parts = new(2,3) run(1) fl
  show ?thesis
    using new(1) all conv_recorder_undisturbed [OF ics _ parts] mcp_recorder_undisturbed [OF ics _ parts]
      bt_recorder_undisturbed [OF ics _ parts]
    by (intro exI [of _ r0] exI [of _ arts] exI [of _ r] exI [of _ s]) blast
qed

section \<open>Witness\<close>

text \<open>The archiver of backtests raises at every finished call, and has a budget of one.\<close>

definition ex_recorder_env :: recorder_env where
  "ex_recorder_env = \<lparr>rv_conv = default_conv_options, rv_conv_env = ex_conv_env, rv_bt = default_bt_options\<lparr>bo_pattern := ''*''\<rparr>,
     rv_mcp = default_mcp_options, rv_disk = \<lparr>dk_artifacts_dir = ''a'', dk_mkdir_fails = None, dk_write_fails = None\<rparr>,
     rv_artifacts = ''a'', rv_now = real,
     rv_bt_env = (\<lambda>_. \<lparr>be_resolve = (\<lambda>_. Inl (ValueError ''embedded null byte'')), be_is_dir = (\<lambda>_. True),
       be_copytree = (\<lambda>_ _. None), be_stamp = [], be_now = 0\<rparr>),
     rv_mkdir_fails = (\<lambda>_. False), rv_write_fails = (\<lambda>_. False)\<rparr>"

lemma recorders_do_not_disturb_each_other_witness:
  "\<exists>r0 arts r s. new_runner [conv_recorder ex_recorder_env, bt_recorder ex_recorder_env, mcp_recorder ex_recorder_env] 1 = Inr r0 \<and>
     recorded_session [ex_tool_event ''tool_call_started'' ''c1'', ex_tool_event ''tool_call_finished'' ''c1'']
       \<lparr>tg_task_id = ''t1'', tg_session_id = None, tg_status = ''succeeded'', tg_reason = None, tg_ended_at = 0\<rparr>
       (r0, new_recorders) = (Inr arts, (r, s)) \<and>
     total_count (mf_aggregates (rc_mcp s)) = 1 \<and> mf_terminal (rc_mcp s) = Some ''succeeded''"
proof -
  let ?v = ex_recorder_env
  let ?evs = "[ex_tool_event ''tool_call_started'' ''c1'', ex_tool_event ''tool_call_finished'' ''c1'']"
  let ?sg = "\<lparr>tg_task_id = ''t1'', tg_session_id = None, tg_status = ''succeeded'', tg_reason = None, tg_ended_at = 0\<rparr>"
  have ok: "ordinary_errors ?v"
    by (simp add: ordinary_errors_def ex_recorder_env_def default_conv_options_def)
  have mcp_options: "rv_mcp ?v = default_mcp_options" by (simp add: ex_recorder_env_def)
  obtain r0 arts r s where run: "new_runner [conv_recorder ?v, bt_recorder ?v, mcp_recorder ?v] 1 = Inr r0"
      "recorded_session ?evs ?sg (r0, new_recorders) = (Inr arts, (r, s))"
    and mcp: "rc_mcp s = mcp_on_terminal ?sg (mcp_run default_mcp_options ?evs new_mcp_state)"
    using recorders_do_not_disturb_each_other [OF ok, of "[conv_recorder ?v, bt_recorder ?v, mcp_recorder ?v]" 1 ?evs ?sg]
    by (auto simp: mcp_options)
  have "total_count (mf_aggregates (mcp_run default_mcp_options ?evs new_mcp_state)) = 1" by code_simp
  then have "total_count (mf_aggregates (rc_mcp s)) = 1" "mf_terminal (rc_mcp s) = Some ''succeeded''"
    by (simp_all add: mcp mcp_on_terminal_def)
  then show ?thesis using run by blast
qed

end
