(* ===== verification/Db_Schema.thy ===== *)
theory Db_Schema
  imports Contract
begin

text \<open>
  The schema of the database, \<open>src/worker/storage/db.py\<close>: the statements of \<open>_DDL\<close>, the migration of the column
  \<open>artifacts.metadata\<close> and the part of \<open>init_db\<close> that runs both on a file that may be of an older version. A file
  is its tables, each with the names of its columns and its rows, and the names of its indexes. The types and
  constraints of the columns are those of the row records of the repository.
\<close>

section \<open>A file and its statements\<close>

datatype sql = Sql_null | Sql_text string | Sql_int int | Sql_real real

type_synonym table = "string list \<times> sql list list"

record sqlite_file =
  sf_tables :: "(string \<times> table) list"
  sf_indexes :: "string list"

datatype ddl =
    Create_table string "string list"
  | Create_index string string "string list"
  | Create_unique_index string string string

definition column_values :: "string \<Rightarrow> table \<Rightarrow> sql list" where
  "column_values c t = map (\<lambda>row. case map_of (zip (fst t) row) c of None \<Rightarrow> Sql_null | Some v \<Rightarrow> v) (snd t)"

text \<open>\<open>CREATE ... IF NOT EXISTS\<close>: what exists is left as it is. The unique index is the one of the file, with
  \<open>WHERE c IS NOT NULL\<close>.\<close>

fun exec_ddl :: "ddl \<Rightarrow> sqlite_file \<Rightarrow> exn + sqlite_file" where
  "exec_ddl (Create_table n cs) f =
     (if map_of (sf_tables f) n \<noteq> None then Inr f else Inr (f\<lparr>sf_tables := sf_tables f @ [(n, cs, [])]\<rparr>))"
| "exec_ddl (Create_index i n cs) f =
     (if i \<in> set (sf_indexes f) then Inr f
      else case map_of (sf_tables f) n of
        None \<Rightarrow> Inl (OperationalError (''no such table: '' @ n))
      | Some t \<Rightarrow> if list_all (\<lambda>c. c \<in> set (fst t)) cs then Inr (f\<lparr>sf_indexes := sf_indexes f @ [i]\<rparr>)
          else Inl (OperationalError ''no such column''))"
| "exec_ddl (Create_unique_index i n c) f =
     (if i \<in> set (sf_indexes f) then Inr f
      else case map_of (sf_tables f) n of
        None \<Rightarrow> Inl (OperationalError (''no such table: '' @ n))
      | Some t \<Rightarrow>
          if c \<notin> set (fst t) then Inl (OperationalError ''no such column'')
          else if distinct (filter (\<lambda>v. v \<noteq> Sql_null) (column_values c t)) then Inr (f\<lparr>sf_indexes := sf_indexes f @ [i]\<rparr>)
          else Inl (IntegrityError ''UNIQUE constraint failed''))"

fun exec_script :: "ddl list \<Rightarrow> sqlite_file \<Rightarrow> exn + sqlite_file" where
  "exec_script [] f = Inr f"
| "exec_script (d # ds) f = (case exec_ddl d f of Inl e \<Rightarrow> Inl e | Inr g \<Rightarrow> exec_script ds g)"

section \<open>The schema\<close>

definition TASKS_COLUMNS :: "string list" where
  "TASKS_COLUMNS = [''id'', ''status'', ''mode'', ''request_json'', ''container_id'', ''opencode_session_id'',
     ''created_at'', ''updated_at'', ''completed_at'']"

definition EVENTS_COLUMNS :: "string list" where
  "EVENTS_COLUMNS = [''id'', ''event_id'', ''task_id'', ''kind'', ''payload_json'', ''ts'']"

definition DECISIONS_COLUMNS :: "string list" where
  "DECISIONS_COLUMNS = [''id'', ''task_id'', ''kind'', ''status'', ''request_json'', ''response_json'',
     ''idempotency_key'', ''created_at'', ''resolved_at'']"

definition ARTIFACTS_COLUMNS :: "string list" where
  "ARTIFACTS_COLUMNS = [''id'', ''task_id'', ''type'', ''filename'', ''file_path'', ''size'', ''created_at'', ''expires_at'', ''metadata'']"

definition DDL :: "ddl list" where
  "DDL =
     [Create_table ''tasks'' TASKS_COLUMNS,
      Create_table ''task_events'' EVENTS_COLUMNS,
      Create_index ''idx_task_events_cursor'' ''task_events'' [''task_id'', ''event_id''],
      Create_table ''decisions'' DECISIONS_COLUMNS,
      Create_index ''idx_decisions_task'' ''decisions'' [''task_id''],
      Create_unique_index ''idx_decisions_idempotency'' ''decisions'' ''idempotency_key'',
      Create_table ''artifacts'' ARTIFACTS_COLUMNS,
      Create_index ''idx_artifacts_task'' ''artifacts'' [''task_id'']]"

text \<open>\<open>ALTER TABLE ADD COLUMN\<close> fills the rows that exist with the default.\<close>

definition migrate_artifacts_metadata :: "sqlite_file \<Rightarrow> sqlite_file" where
  "migrate_artifacts_metadata f =
     (case map_of (sf_tables f) ''artifacts'' of
        None \<Rightarrow> f
      | Some (cs, rows) \<Rightarrow>
          if ''metadata'' \<in> set cs then f
          else f\<lparr>sf_tables := dict_set ''artifacts'' (cs @ [''metadata''], map (\<lambda>r. r @ [Sql_text ''{}'']) rows) (sf_tables f)\<rparr>)"

definition init_schema :: "sqlite_file \<Rightarrow> exn + sqlite_file" where
  "init_schema f = (case exec_script DDL f of Inl e \<Rightarrow> Inl e | Inr g \<Rightarrow> Inr (migrate_artifacts_metadata g))"

section \<open>Starting twice\<close>

fun ddl_done :: "ddl \<Rightarrow> sqlite_file \<Rightarrow> bool" where
  "ddl_done (Create_table n cs) f \<longleftrightarrow> map_of (sf_tables f) n \<noteq> None"
| "ddl_done (Create_index i n cs) f \<longleftrightarrow> i \<in> set (sf_indexes f)"
| "ddl_done (Create_unique_index i n c) f \<longleftrightarrow> i \<in> set (sf_indexes f)"

lemma exec_done: "ddl_done d f \<Longrightarrow> exec_ddl d f = Inr f"
  by (cases d) simp_all

lemma script_done: "list_all (\<lambda>d. ddl_done d f) ds \<Longrightarrow> exec_script ds f = Inr f"
  by (induction ds) (simp_all add: exec_done)

lemma exec_makes_done: "exec_ddl d f = Inr g \<Longrightarrow> ddl_done d g"
  by (cases d) (auto simp: map_add_def split: if_splits option.splits)

lemma exec_keeps_done: "exec_ddl d f = Inr g \<Longrightarrow> ddl_done c f \<Longrightarrow> ddl_done c g"
  by (cases d; cases c) (auto simp: map_add_def split: if_splits option.splits)

lemma script_keeps_done: "exec_script ds f = Inr g \<Longrightarrow> ddl_done c f \<Longrightarrow> ddl_done c g"
  by (induction ds arbitrary: f) (auto split: sum.splits dest: exec_keeps_done)

lemma script_makes_done: "exec_script ds f = Inr g \<Longrightarrow> list_all (\<lambda>d. ddl_done d g) ds"
  by (induction ds arbitrary: f) (auto split: sum.splits dest: exec_makes_done script_keeps_done)

lemma migrate_keeps_done: "ddl_done d f \<Longrightarrow> ddl_done d (migrate_artifacts_metadata f)"
  by (cases d) (auto simp: migrate_artifacts_metadata_def map_of_dict_set split: option.split)

lemma migrate_twice: "migrate_artifacts_metadata (migrate_artifacts_metadata f) = migrate_artifacts_metadata f"
  by (auto simp: migrate_artifacts_metadata_def map_of_dict_set split: option.split)

text \<open>A start on a file that has been started on changes nothing.\<close>

lemma init_schema_twice:
  assumes "init_schema f = Inr g"
  shows "init_schema g = Inr g"
proof -
  obtain h where h: "exec_script DDL f = Inr h" "g = migrate_artifacts_metadata h"
    using assms by (auto simp: init_schema_def split: sum.splits)
  have "list_all (\<lambda>d. ddl_done d g) DDL"
    using script_makes_done [OF h(1)] migrate_keeps_done by (auto simp: list_all_iff h(2))
  then show ?thesis using h(2) by (simp add: init_schema_def script_done migrate_twice)
qed

section \<open>Upgrading\<close>

definition SCHEMA :: "(string \<times> string list) list" where
  "SCHEMA = [(''tasks'', TASKS_COLUMNS), (''task_events'', EVENTS_COLUMNS), (''decisions'', DECISIONS_COLUMNS),
     (''artifacts'', ARTIFACTS_COLUMNS)]"

text \<open>What an older version may have left: some of the tables, the artifacts perhaps without metadata, and no
  idempotency key twice.\<close>

definition upgradable :: "sqlite_file \<Rightarrow> bool" where
  "upgradable f \<longleftrightarrow>
     list_all (\<lambda>(n, cs). case map_of (sf_tables f) n of None \<Rightarrow> True
       | Some t \<Rightarrow> fst t = cs \<or> n = ''artifacts'' \<and> fst t = butlast cs) SCHEMA \<and>
     (case map_of (sf_tables f) ''decisions'' of None \<Rightarrow> True
       | Some t \<Rightarrow> distinct (filter (\<lambda>v. v \<noteq> Sql_null) (column_values ''idempotency_key'' t)))"

text \<open>The table it is afterwards.\<close>

definition upgraded :: "string \<Rightarrow> table option \<Rightarrow> table option" where
  "upgraded n t =
     (case t of
        None \<Rightarrow> map_option (\<lambda>cs. (cs, [])) (map_of SCHEMA n)
      | Some (cs, rows) \<Rightarrow>
          if n = ''artifacts'' \<and> ''metadata'' \<notin> set cs
          then Some (cs @ [''metadata''], map (\<lambda>r. r @ [Sql_text ''{}'']) rows) else Some (cs, rows))"

text \<open>The tables while the script runs: those of the file and the new ones of \<open>ns\<close>.\<close>

definition with_tables :: "string list \<Rightarrow> sqlite_file \<Rightarrow> sqlite_file \<Rightarrow> bool" where
  "with_tables ns f g \<longleftrightarrow> (\<forall>n. map_of (sf_tables g) n =
     (case map_of (sf_tables f) n of Some t \<Rightarrow> Some t
      | None \<Rightarrow> if n \<in> set ns then map_option (\<lambda>cs. (cs, [])) (map_of SCHEMA n) else None))"

lemma with_tables_create:
  assumes "with_tables ns f g" and "map_of SCHEMA n = Some cs"
  shows "\<exists>h. exec_ddl (Create_table n cs) g = Inr h \<and> with_tables (n # ns) f h"
  using assms by (auto simp: with_tables_def map_add_def split: option.splits if_splits)

lemma with_tables_index:
  assumes "with_tables ns f g" and "n \<in> set ns" and "map_of SCHEMA n = Some cs" and "upgradable f"
    and "list_all (\<lambda>c. c \<in> set (butlast cs)) js"
  shows "\<exists>h. exec_ddl (Create_index i n js) g = Inr h \<and> with_tables ns f h"
proof -
  have "\<exists>t. map_of (sf_tables g) n = Some t \<and> set (butlast cs) \<subseteq> set (fst t)"
  proof (cases "map_of (sf_tables f) n")
    case None
    then have "map_of (sf_tables g) n = Some (cs, [])" using assms(1-3) by (simp add: with_tables_def)
    then show ?thesis by (auto dest: in_set_butlastD)
  next
    case (Some t)
    then have "map_of (sf_tables g) n = Some t" using assms(1) by (simp add: with_tables_def)
    moreover have "fst t = cs \<or> fst t = butlast cs"
      using assms(3,4) Some map_of_SomeD [OF assms(3)] by (fastforce simp: upgradable_def list_all_iff)
    ultimately show ?thesis by (auto dest: in_set_butlastD)
  qed
  then obtain t where "map_of (sf_tables g) n = Some t" "list_all (\<lambda>c. c \<in> set (fst t)) js"
    using assms(5) unfolding list_all_iff by (meson subsetD)
  then show ?thesis using assms(1) by (simp add: with_tables_def)
qed

lemma with_tables_unique:
  assumes "with_tables ns f g" and "''decisions'' \<in> set ns" and "upgradable f"
  shows "\<exists>h. exec_ddl (Create_unique_index i ''decisions'' ''idempotency_key'') g = Inr h \<and> with_tables ns f h"
proof -
  have sch: "map_of SCHEMA ''decisions'' = Some DECISIONS_COLUMNS" "(''decisions'', DECISIONS_COLUMNS) \<in> set SCHEMA"
    by (simp_all add: SCHEMA_def)
  have "\<exists>t. map_of (sf_tables g) ''decisions'' = Some t \<and> fst t = DECISIONS_COLUMNS \<and>
      distinct (filter (\<lambda>v. v \<noteq> Sql_null) (column_values ''idempotency_key'' t))"
  proof (cases "map_of (sf_tables f) ''decisions''")
    case None
    then have "map_of (sf_tables g) ''decisions'' = Some (DECISIONS_COLUMNS, [])"
      using assms(1,2) sch(1) by (simp add: with_tables_def)
    then show ?thesis by (simp add: column_values_def)
  next
    case (Some t)
    then have "map_of (sf_tables g) ''decisions'' = Some t" using assms(1) by (simp add: with_tables_def)
    moreover have "fst t = DECISIONS_COLUMNS" using assms(3) sch(2) Some by (fastforce simp: upgradable_def list_all_iff)
    ultimately show ?thesis using assms(3) Some by (simp add: upgradable_def)
  qed
  then obtain t where "map_of (sf_tables g) ''decisions'' = Some t" "''idempotency_key'' \<in> set (fst t)"
      "distinct (filter (\<lambda>v. v \<noteq> Sql_null) (column_values ''idempotency_key'' t))"
    by (auto simp: DECISIONS_COLUMNS_def)
  then show ?thesis using assms(1) by (simp add: with_tables_def)
qed

lemma schema_script:
  assumes "upgradable f"
  shows "\<exists>g. exec_script DDL f = Inr g \<and> with_tables [''artifacts'', ''decisions'', ''task_events'', ''tasks''] f g"
proof -
  have cols: "map_of SCHEMA ''tasks'' = Some TASKS_COLUMNS" "map_of SCHEMA ''task_events'' = Some EVENTS_COLUMNS"
    "map_of SCHEMA ''decisions'' = Some DECISIONS_COLUMNS" "map_of SCHEMA ''artifacts'' = Some ARTIFACTS_COLUMNS"
    by (simp_all add: SCHEMA_def)
  have key: "list_all (\<lambda>c. c \<in> set (butlast EVENTS_COLUMNS)) [''task_id'', ''event_id'']"
    "list_all (\<lambda>c. c \<in> set (butlast DECISIONS_COLUMNS)) [''task_id'']"
    "list_all (\<lambda>c. c \<in> set (butlast ARTIFACTS_COLUMNS)) [''task_id'']"
    by (simp_all add: EVENTS_COLUMNS_def DECISIONS_COLUMNS_def ARTIFACTS_COLUMNS_def)
  have "with_tables [] f f" by (simp add: with_tables_def split: option.split)
  then obtain f1 where 1: "exec_ddl (Create_table ''tasks'' TASKS_COLUMNS) f = Inr f1" "with_tables [''tasks''] f f1"
    using with_tables_create [OF _ cols(1)] by blast
  obtain f2 where 2: "exec_ddl (Create_table ''task_events'' EVENTS_COLUMNS) f1 = Inr f2" "with_tables [''task_events'', ''tasks''] f f2"
    using with_tables_create [OF 1(2) cols(2)] by blast
  obtain f3 where 3: "exec_ddl (Create_index ''idx_task_events_cursor'' ''task_events'' [''task_id'', ''event_id'']) f2 = Inr f3"
      "with_tables [''task_events'', ''tasks''] f f3"
    using with_tables_index [OF 2(2) _ cols(2) assms key(1)] by (fastforce simp del: exec_ddl.simps)
  obtain f4 where 4: "exec_ddl (Create_table ''decisions'' DECISIONS_COLUMNS) f3 = Inr f4"
      "with_tables [''decisions'', ''task_events'', ''tasks''] f f4"
    using with_tables_create [OF 3(2) cols(3)] by blast
  obtain f5 where 5: "exec_ddl (Create_index ''idx_decisions_task'' ''decisions'' [''task_id'']) f4 = Inr f5"
      "with_tables [''decisions'', ''task_events'', ''tasks''] f f5"
    using with_tables_index [OF 4(2) _ cols(3) assms key(2)] by (fastforce simp del: exec_ddl.simps)
  obtain f6 where 6: "exec_ddl (Create_unique_index ''idx_decisions_idempotency'' ''decisions'' ''idempotency_key'') f5 = Inr f6"
      "with_tables [''decisions'', ''task_events'', ''tasks''] f f6"
    using with_tables_unique [OF 5(2) _ assms] by (fastforce simp del: exec_ddl.simps)
  obtain f7 where 7: "exec_ddl (Create_table ''artifacts'' ARTIFACTS_COLUMNS) f6 = Inr f7"
      "with_tables [''artifacts'', ''decisions'', ''task_events'', ''tasks''] f f7"
    using with_tables_create [OF 6(2) cols(4)] by blast
  obtain f8 where 8: "exec_ddl (Create_index ''idx_artifacts_task'' ''artifacts'' [''task_id'']) f7 = Inr f8"
      "with_tables [''artifacts'', ''decisions'', ''task_events'', ''tasks''] f f8"
    using with_tables_index [OF 7(2) _ cols(4) assms key(3)] by (fastforce simp del: exec_ddl.simps)
  show ?thesis
    using 8(2) by (simp only: DDL_def exec_script.simps 1(1) 2(1) 3(1) 4(1) 5(1) 6(1) 7(1) 8(1) sum.case simp_thms ex_simps Inr_inject) blast
qed

text \<open>C8: A start upgrades the file of an older version and loses nothing: on any file with some of the tables, the
  artifacts perhaps without their metadata, it succeeds; every table then has the columns of the code,
  each old row is there with its values, an artifact without metadata gets the empty ones, tables of others are
  untouched; and a further start changes nothing at all.\<close>

theorem schema_upgrade_loses_nothing:
  assumes "upgradable f"
  shows "\<exists>g. init_schema f = Inr g \<and> (\<forall>n. map_of (sf_tables g) n = upgraded n (map_of (sf_tables f) n)) \<and>
    list_all (\<lambda>(n, cs). map_option fst (map_of (sf_tables g) n) = Some cs) SCHEMA \<and> init_schema g = Inr g"
proof -
  obtain h where h: "exec_script DDL f = Inr h" "with_tables [''artifacts'', ''decisions'', ''task_events'', ''tasks''] f h"
    using schema_script [OF assms] by blast
  let ?g = "migrate_artifacts_metadata h"
  have run: "init_schema f = Inr ?g" by (simp add: init_schema_def h(1))
  have tabs: "map_of (sf_tables ?g) n = upgraded n (map_of (sf_tables f) n)" for n
  proof -
    have new: "map_of SCHEMA n = None" if "n \<notin> {''artifacts'', ''decisions'', ''task_events'', ''tasks''}"
      using that by (simp add: SCHEMA_def)
    have meta: "''metadata'' \<in> set ARTIFACTS_COLUMNS" "map_of SCHEMA ''artifacts'' = Some ARTIFACTS_COLUMNS"
      by (simp_all add: ARTIFACTS_COLUMNS_def SCHEMA_def)
    have ht: "map_of (sf_tables h) m = (case map_of (sf_tables f) m of Some t \<Rightarrow> Some t
        | None \<Rightarrow> map_option (\<lambda>cs. (cs, [])) (map_of SCHEMA m))" for m
      using h(2) by (auto simp: with_tables_def SCHEMA_def split: option.split)
    show ?thesis
    proof (cases "n = ''artifacts''")
      case True
      show ?thesis unfolding True migrate_artifacts_metadata_def upgraded_def
        by (cases "map_of (sf_tables f) ''artifacts''")
          (auto simp: ht [of "''artifacts''"] meta map_of_dict_set split: option.split prod.split)
    next
      case False
      then have "map_of (sf_tables ?g) n = map_of (sf_tables h) n"
        by (auto simp: migrate_artifacts_metadata_def map_of_dict_set split: option.split)
      then show ?thesis using False by (auto simp: ht upgraded_def split: option.split)
    qed
  qed
  have "map_option fst (map_of (sf_tables ?g) n) = Some cs" if "(n, cs) \<in> set SCHEMA" for n cs
  proof -
    have "map_of SCHEMA n = Some cs" using that by (auto simp: SCHEMA_def)
    moreover have "case map_of (sf_tables f) n of None \<Rightarrow> True | Some t \<Rightarrow> fst t = cs \<or> n = ''artifacts'' \<and> fst t = butlast cs"
      using assms that by (auto simp: upgradable_def list_all_iff)
    moreover have "cs = butlast cs @ [''metadata''] \<and> ''metadata'' \<in> set cs \<and> ''metadata'' \<notin> set (butlast cs)" if "n = ''artifacts''"
      using \<open>(n, cs) \<in> set SCHEMA\<close> that by (auto simp: SCHEMA_def ARTIFACTS_COLUMNS_def)
    ultimately show ?thesis by (auto simp: tabs upgraded_def split: option.splits)
  qed
  then show ?thesis using run tabs init_schema_twice [OF run] by (auto simp: list_all_iff)
qed

text \<open>A file from before the metadata, with one artifact.\<close>

definition ex_old_file :: sqlite_file where
  "ex_old_file = \<lparr>sf_tables = [(''artifacts'', butlast ARTIFACTS_COLUMNS,
       [[Sql_text ''a1'', Sql_text ''t1'', Sql_text ''custom'', Sql_text ''f'', Sql_null, Sql_null, Sql_real 1, Sql_null]])],
     sf_indexes = []\<rparr>"

lemma schema_upgrade_loses_nothing_witness:
  "\<exists>g. init_schema ex_old_file = Inr g \<and> init_schema g = Inr g \<and>
     map_of (sf_tables g) ''artifacts'' = Some (ARTIFACTS_COLUMNS,
       [[Sql_text ''a1'', Sql_text ''t1'', Sql_text ''custom'', Sql_text ''f'', Sql_null, Sql_null, Sql_real 1, Sql_null, Sql_text ''{}'']])"
proof -
  have "upgradable ex_old_file" by (simp add: upgradable_def SCHEMA_def ex_old_file_def)
  from schema_upgrade_loses_nothing [OF this] show ?thesis
    by (auto simp: upgraded_def ex_old_file_def ARTIFACTS_COLUMNS_def)
qed

end
