(* ===== verification/Error_Contract.thy ===== *)
theory Error_Contract
  imports Event_Stream
begin

text \<open>
  The error contract of \<open>src/worker/contract/error.py\<close>: the kinds of error and the body
  \<open>WorkerError\<close>, with its defaults and what \<open>model_dump\<close> makes of it; and the bodies the API really
  answers with, of which none is one.
\<close>

section \<open>Kinds\<close>

datatype error_kind =
    E_invalid_request | E_unauthorized | E_not_found | E_quota_exceeded
  | E_workspace_prepare_failed | E_sandbox_start_failed | E_opencode_start_failed | E_opencode_failed
  | E_broker_denied | E_hitl_timeout | E_task_cancelled | E_resource_exhausted | E_artifact_too_large
  | E_internal_error

fun error_kind_value :: "error_kind \<Rightarrow> string" where
  "error_kind_value E_invalid_request = ''invalid_request''"
| "error_kind_value E_unauthorized = ''unauthorized''"
| "error_kind_value E_not_found = ''not_found''"
| "error_kind_value E_quota_exceeded = ''quota_exceeded''"
| "error_kind_value E_workspace_prepare_failed = ''workspace_prepare_failed''"
| "error_kind_value E_sandbox_start_failed = ''sandbox_start_failed''"
| "error_kind_value E_opencode_start_failed = ''opencode_start_failed''"
| "error_kind_value E_opencode_failed = ''opencode_failed''"
| "error_kind_value E_broker_denied = ''broker_denied''"
| "error_kind_value E_hitl_timeout = ''hitl_timeout''"
| "error_kind_value E_task_cancelled = ''task_cancelled''"
| "error_kind_value E_resource_exhausted = ''resource_exhausted''"
| "error_kind_value E_artifact_too_large = ''artifact_too_large''"
| "error_kind_value E_internal_error = ''internal_error''"

definition all_error_kinds :: "error_kind list" where
  "all_error_kinds =
     [E_invalid_request, E_unauthorized, E_not_found, E_quota_exceeded, E_workspace_prepare_failed,
      E_sandbox_start_failed, E_opencode_start_failed, E_opencode_failed, E_broker_denied, E_hitl_timeout,
      E_task_cancelled, E_resource_exhausted, E_artifact_too_large, E_internal_error]"

definition error_kind_of :: "string \<Rightarrow> error_kind option" where
  "error_kind_of = enum_of error_kind_value all_error_kinds"

lemma error_kind_of_value [enum_values, simp]: "error_kind_of (error_kind_value k) = Some k"
  unfolding error_kind_of_def by (rule enum_of_value) (simp_all add: all_error_kinds_def, cases k, simp_all)

section \<open>The body\<close>

record worker_error =
  we_kind :: error_kind
  we_message :: string
  we_retryable :: bool
  we_requires_hitl :: bool
  we_counts_against_quota :: bool
  we_task_id :: "string option"
  we_user_visible_message :: "string option"
  we_detail :: "dict option"

definition new_worker_error :: "error_kind \<Rightarrow> string \<Rightarrow> worker_error" where
  "new_worker_error k m = \<lparr>we_kind = k, we_message = m, we_retryable = False, we_requires_hitl = False,
     we_counts_against_quota = True, we_task_id = None, we_user_visible_message = None, we_detail = None\<rparr>"

definition text_or_null :: "string option \<Rightarrow> json" where
  "text_or_null t = (case t of None \<Rightarrow> JNull | Some s \<Rightarrow> JStr s)"

definition worker_error_dict :: "worker_error \<Rightarrow> dict" where
  "worker_error_dict e =
     [(''kind'', JStr (error_kind_value (we_kind e))), (''message'', JStr (we_message e)),
      (''retryable'', JBool (we_retryable e)), (''requires_hitl'', JBool (we_requires_hitl e)),
      (''counts_against_quota'', JBool (we_counts_against_quota e)), (''task_id'', text_or_null (we_task_id e)),
      (''user_visible_message'', text_or_null (we_user_visible_message e)),
      (''detail'', case we_detail e of None \<Rightarrow> JNull | Some d \<Rightarrow> JObj d)]"

text \<open>The body says which error it is.\<close>

lemma dumped_kind_is_the_kind:
  "Option.bind (map_of (worker_error_dict e) ''kind'') (\<lambda>v. case v of JStr s \<Rightarrow> error_kind_of s | _ \<Rightarrow> None) = Some (we_kind e)"
  by (simp add: worker_error_dict_def)

lemma text_or_null_inj: "text_or_null a = text_or_null b \<Longrightarrow> a = b"
  by (auto simp: text_or_null_def split: option.splits)

lemma error_kind_value_inj: "error_kind_value j = error_kind_value k \<Longrightarrow> j = k"
  by (metis error_kind_of_value option.inject)

lemma worker_error_dict_inj: "worker_error_dict a = worker_error_dict b \<Longrightarrow> a = b"
  by (cases a; cases b)
    (auto simp: worker_error_dict_def dest!: text_or_null_inj error_kind_value_inj split: option.splits)

section \<open>What the API answers\<close>

text \<open>The bodies of the middleware and of FastAPI for an \<open>HTTPException\<close>.\<close>

definition unauthorized_body :: "string \<Rightarrow> dict" where
  "unauthorized_body m = [(''error'', JStr ''unauthorized''), (''message'', JStr m)]"

definition http_exception_body :: "string \<Rightarrow> dict" where
  "http_exception_body m = [(''detail'', JStr m)]"

lemma no_answer_is_a_worker_error:
  "worker_error_dict e \<noteq> unauthorized_body m" "worker_error_dict e \<noteq> http_exception_body m"
  by (simp_all add: worker_error_dict_def unauthorized_body_def http_exception_body_def)

end
