(* ===== verification/Application.thy ===== *)
theory Application
  imports Startup Log_Context Config
begin

text \<open>
  The application of \<open>src/worker/main.py\<close>: what \<open>create_app\<close> builds and \<open>run\<close> hands to uvicorn, and the start
  of the lifespan in full: the settings, the logging, the directories, the database with the recovery
  (\<open>startup\<close>) and the background coroutine of the queue. FastAPI's instance is the record of the arguments it is
  given.
\<close>

section \<open>The application object\<close>

record fastapi_app =
  fa_title :: string
  fa_version :: string
  fa_docs_url :: string
  fa_redoc_url :: string
  fa_openapi_url :: string
  fa_middleware :: "string list"
  fa_routers :: "string list"

definition create_app :: "settings_source \<Rightarrow> settings option \<Rightarrow> (exn + fastapi_app) \<times> settings option" where
  "create_app src cache =
     (case get_settings src cache of
        (Inl e, c) \<Rightarrow> (Inl e, c)
      | (Inr st, c) \<Rightarrow>
          (Inr \<lparr>fa_title = ''VibeTradingOpenCodeWorker'', fa_version = ''0.1.0'', fa_docs_url = ''/docs'',
             fa_redoc_url = ''/redoc'', fa_openapi_url = ''/openapi.json'',
             fa_middleware = [''BearerTokenMiddleware''], fa_routers = [''worker.api.routes'']\<rparr>, c))"

text \<open>What \<open>run\<close> passes on: the level of the root logger and the arguments of \<open>uvicorn.run\<close>.\<close>

record uvicorn_run =
  uv_root_level :: nat
  uv_app :: string
  uv_host :: string
  uv_port :: int
  uv_log_level :: string
  uv_reload :: bool

definition run_server :: "settings_source \<Rightarrow> settings option \<Rightarrow> (exn + uvicorn_run) \<times> settings option" where
  "run_server src cache =
     (case get_settings src cache of
        (Inl e, c) \<Rightarrow> (Inl e, c)
      | (Inr st, c) \<Rightarrow>
          (Inr \<lparr>uv_root_level = log_level (st_log_level st), uv_app = ''worker.main:app'', uv_host = st_host st,
             uv_port = st_port st, uv_log_level = str_lower (st_log_level st), uv_reload = False\<rparr>, c))"

section \<open>The start in full\<close>

text \<open>\<open>Path.parent\<close> on the text of a path without a trailing slash.\<close>

definition path_parent :: "string \<Rightarrow> string" where
  "path_parent p =
     (if CHR ''/'' \<in> set p
      then let d = rev (drop 1 (dropWhile (\<lambda>c. c \<noteq> CHR ''/'') (rev p))) in if d = [] then ''/'' else d
      else ''.'')"

text \<open>\<open>asyncio.Semaphore\<close> refuses a negative value.\<close>

definition start_queue_worker :: "settings \<Rightarrow> exn + slots" where
  "start_queue_worker st =
     (if st_max_concurrent_tasks st < 0 then Inl (ValueError ''Semaphore initial value must be >= 0'')
      else Inr (start_slots (nat (st_max_concurrent_tasks st))))"

text \<open>\<open>mkdir\<close> is \<open>mkdir(parents=True, exist_ok=True)\<close>; the handlers of the root logger are configured before it.\<close>

definition lifespan_start :: "(string \<Rightarrow> unit io) \<Rightarrow> docker_api \<Rightarrow> settings \<Rightarrow> slots io" where
  "lifespan_start mkdir dk st =
     thenE (mkdir (path_parent (st_db_path st))) (
     thenE (mkdir (artifacts_dir st)) (
     thenE (startup dk) (liftE (start_queue_worker st))))"

definition lifespan_logging :: "settings \<Rightarrow> bool \<Rightarrow> log_handler list \<Rightarrow> nat \<times> log_handler list" where
  "lifespan_logging st has_json hs = configure_logging (st_log_level st) False has_json hs"

section \<open>What starts\<close>

lemma parent_of_the_default: "path_parent (st_db_path (default_settings token)) = ''data''"
  by (simp add: path_parent_def default_settings_def)

text \<open>The parent of a directory entry.\<close>

lemma parent_of_an_entry:
  assumes "CHR ''/'' \<notin> set name" and "d \<noteq> []"
  shows "path_parent (d @ ''/'' @ name) = d"
proof -
  have "dropWhile (\<lambda>c. c \<noteq> CHR ''/'') (rev name @ CHR ''/'' # rev d) = CHR ''/'' # rev d"
    using assms(1) by (subst dropWhile_append2) auto
  then show ?thesis using assms(2) by (simp add: path_parent_def Let_def)
qed

text \<open>The application needs the settings, and uvicorn gets those the application was built with.\<close>

lemma app_needs_settings: "fst (create_app src None) = Inl e \<longleftrightarrow> load_settings src = Inl e"
  by (auto simp: create_app_def get_settings_def split: sum.splits)

lemma run_after_create:
  assumes "create_app src None = (Inr app, c)"
  shows "\<exists>st. load_settings src = Inr st \<and> c = Some st \<and>
    (\<exists>u. run_server src2 c = (Inr u, c) \<and> uv_host u = st_host st \<and> uv_port u = st_port st)"
  using assms by (auto simp: create_app_def run_server_def get_settings_def split: sum.splits)

text \<open>A negative limit stops the start after the database has been opened, and nothing closes it; with a limit
  of zero the worker starts, and no task ever runs.\<close>

lemma negative_limit_leaves_the_database_open:
  assumes "st_max_concurrent_tasks st < 0"
    and "mkdir (path_parent (st_db_path st)) w = (Inr (), w)" and "mkdir (artifacts_dir st) w = (Inr (), w)"
    and "startup dk w = (Inr (), w1)"
  shows "\<exists>m. lifespan_start mkdir dk st w = (Inl (ValueError m), w1)"
  using assms by (simp add: lifespan_start_def thenE_def bindE_def liftE_def start_queue_worker_def)

lemma no_slot_no_task:
  assumes "st_max_concurrent_tasks st = 0" and "start_queue_worker st = Inr s0" and "slot_step\<^sup>*\<^sup>* s0 s"
  shows "sl_active s = []"
proof -
  have "s0 = start_slots 0" using assms(1,2) by (simp add: start_queue_worker_def)
  then show ?thesis using slot_steps_balance [of 0 s] assms(3) by simp
qed

end
