(* ===== verification/Spec2Isabelle.thy ===== *)
theory Spec2Isabelle
  imports Api Orchestrator Startup Event_Lock Driver_Session Workspace Broker_Proxy Opencode_Client Sdk_Client End_To_End
    Conversations Scrub_Twice Tool_Stream Backtests Log_Context
    Recorded_Session Db_Schema Error_Contract Application
begin

text \<open>
  A verification development for the OpenCode worker, the service under \<open>src/worker\<close> that accepts
  programming tasks over HTTP, runs each in a sandbox container and reports its progress as a
  numbered log of events; for the egress broker of \<open>src/broker\<close> its containers go through; and for
  the client library of \<open>src/worker_sdk\<close>.

  \<^bold>\<open>The program.\<close> A request (\<open>api/routes.py\<close>, behind the bearer check of \<open>api/middleware.py\<close>)
  stores a task (\<open>storage/repo.py\<close>, \<open>storage/db.py\<close>) and queues its id
  (\<open>orchestrator/queue.py\<close>). A slot of the queue runs \<open>orchestrator.run_task\<close>: workspace, network,
  egress policy (\<open>broker/policy.py\<close>), container (\<open>sandbox/manager.py\<close>), health probe, the driver of
  the opencode session, completion, and always the clean-up. Each step writes a status and an
  event; inserting an event wakes the streams of the task (\<open>orchestrator/event_bus.py\<close>), which
  replay and follow the log. The driver (\<open>adapters/opencode/driver.py\<close>) talks to the opencode
  server in the container (\<open>adapters/opencode/client.py\<close>), follows its event stream
  (\<open>adapters/opencode/event_stream.py\<close>), puts permissions and plans to a human, and passes each
  event to the interceptors (\<open>adapters/opencode/interceptors/\<close>). At start the process recovers the tasks a crash left behind
  (\<open>orchestrator/recovery.py\<close>, \<open>main.py\<close>); a background loop collects expired artifacts
  (\<open>orchestrator/artifact_gc.py\<close>). A program that uses the worker does it through the SDK
  (\<open>worker_sdk/client.py\<close>), which retries requests and reconnects event streams.

  \<^bold>\<open>The model.\<close> \<open>Worker_Prelude\<close> has the monad of a function that changes a state and may raise
  (\<open>('s, 'e, 'a) comp\<close>, with \<open>tryE\<close> and \<open>finallyE\<close> for Python's statements) and three predicates on
  computations with their rules: \<open>keeps\<close> (an invariant survives, failing or not), \<open>preserves\<close> (a
  part of the state is untouched) and \<open>raises\<close> (which exceptions can come out). \<open>Py_Strings\<close>,
  \<open>Py_Fnmatch\<close> and \<open>Py_Json\<close> model what the code uses of Python's library, on ASCII text.
  \<open>World\<close> is the state: the four tables as lists of rows, the connection, the clock, the locks,
  the buses, the metrics, the queue, the egress policies and the files. Awaiting is the point
  where other coroutines run: \<open>Event_Lock\<close>, the slots of \<open>Task_Queue\<close> and the streams of
  \<open>Sse_Server\<close> state those interleavings as step relations or as explicit environments; elsewhere
  a function runs as written. An SQLite failure is an oracle, \<open>w_faults\<close>, consulted by each
  statement.

  \<^bold>\<open>Theories and code.\<close>
  \<^item> \<open>Contract\<close>: the models of \<open>contract/*.py\<close>; \<open>Metrics\<close>: \<open>observability/metrics.py\<close>;
    \<open>Log_Context\<close>: \<open>observability/logging.py\<close>; \<open>Event_Bus\<close>: \<open>orchestrator/event_bus.py\<close>; \<open>Config\<close>: \<open>config.py\<close>, where each
    setting comes from and the object that is kept; \<open>Error_Contract\<close>: \<open>contract/error.py\<close>.
  \<^item> \<open>Db_Schema\<close>: the schema script and the migration of \<open>storage/db.py\<close> on the file of any version; the
    other theories have the tables in their new form.
  \<^item> \<open>Repo\<close>: every function of \<open>storage/repo.py\<close>, under its own name. \<open>Repo_Laws\<close> shows that each
    keeps the well-formedness of the tables (\<open>db_ok\<close>: keys unique, columns decodable, events
    numbered from one without gap) and raises only ordinary exceptions; \<open>Event_Log\<close> states the
    log as the locale \<open>event_log\<close>, an append with an ordered read after a cursor, interpreted on
    \<open>insert_event\<close> and \<open>get_events_after\<close>; \<open>Repo_Props\<close> has the properties.
  \<^item> \<open>Event_Lock\<close>: concurrent \<open>insert_event\<close>s under \<open>_event_locks\<close>, as a step relation with its
    invariant, and the run in which \<open>discard_task_locks\<close> breaks it.
  \<^item> \<open>Task_Queue\<close>: \<open>queue.py\<close> for an arbitrary executor; \<open>Orchestrator\<close>: \<open>orchestrator.py\<close> with
    Docker, the workspace, the driver, the port and the password as fields of \<open>orch_env\<close>;
    \<open>Sandbox\<close>: \<open>sandbox/manager.py\<close>; \<open>Broker_Policy\<close>: \<open>broker/policy.py\<close>, whose whitelist is the
    locale \<open>egress_policy\<close>.
  \<^item> \<open>Startup\<close>: \<open>recovery.py\<close> and the lifespan of \<open>main.py\<close>; \<open>Application\<close>: its start in full, the
    application object and the arguments of uvicorn; \<open>Artifact_Gc\<close>: \<open>artifact_gc.py\<close> over a
    file system whose path resolution and refusals are parameters.
  \<^item> \<open>Workspace\<close>: \<open>workspace/handler.py\<close>, with tarfile, the download, git and the disk as fields of
    \<open>ws_env\<close>; \<open>Broker_Proxy\<close>: \<open>broker/proxy.py\<close> over \<open>Py_Ip\<close> and \<open>Py_Url\<close>, the parts of \<open>ipaddress\<close>
    and \<open>urllib.parse\<close> it uses.
  \<^item> \<open>Event_Stream\<close>: \<open>event_stream.py\<close>; \<open>Interceptors\<close>: \<open>interceptors/base.py\<close>, \<open>types.py\<close>,
    \<open>runner.py\<close> and the factories; \<open>Opencode_Client\<close>: \<open>adapters/opencode/client.py\<close>; \<open>Driver\<close>:
    \<open>driver.py\<close> over a client, what runs while it waits and what runs in spawned handlers being
    fields of \<open>driver_env\<close>. \<open>Driver_Props\<close> treats a permission from the request to its answer,
    \<open>Driver_Session\<close> the session as a whole.
  \<^item> The built-in interceptors, each as its own state with its event handler and its final file:
    \<open>Conversations\<close> (\<open>conversations.py\<close>) over \<open>Scrubbing\<close>, its regular expressions as matchers, with
    \<open>Scrub_Twice\<close>, that scrubbing is idempotent;
    \<open>Mcp_Fields\<close> (\<open>mcp_fields.py\<close>) and \<open>Backtests\<close> (\<open>backtest.py\<close>) over \<open>Pending_Calls\<close>.
    \<open>Tool_Stream\<close> composes \<open>Event_Stream\<close>, the driver's hand-over and \<open>Mcp_Fields\<close>. What
    \<open>base.py\<close> asks of every recorder, idempotence above all, is the locale of \<open>Recorder\<close>. An interceptor is
    over any state; \<open>Interceptor_Views\<close> is the locale of what one keeps to itself (\<open>recorder_view\<close>), and
    \<open>Recorded_Session\<close> puts the three recorders into one runner and interprets it for each.
  \<^item> \<open>Sdk_Base\<close>: \<open>errors.py\<close>, \<open>models.py\<close>, \<open>auth.py\<close>, \<open>compat.py\<close>, \<open>retry.py\<close>; \<open>Sdk_Sse\<close>: \<open>sse.py\<close>;
    \<open>Sdk_Client\<close>: \<open>client.py\<close>, all of \<open>worker_sdk/\<close>. \<open>End_To_End\<close> composes \<open>Sse_Server\<close> and \<open>Sdk_Sse\<close>.
  \<^item> \<open>Sse_Server\<close>: the event stream of \<open>routes.py\<close>; \<open>Api\<close>: the other handlers and the middleware.

  \<^bold>\<open>What is shown.\<close> The claims are in the theories of their components. In short: the log of a task
  is gapless and every connected client reads it in order, once, to the first terminal event;
  each task ends in exactly one recorded terminal state whatever its executor raises; no task
  stays orphaned after a restart; a container is always hardened and its egress is its whitelist;
  the collector and the download never leave the artifacts directory; no protected path is
  reachable without the token. The SDK reads back exactly the log the worker stores, across lost
  connections; its requests are sent as often as its policy says; its downloads are all or nothing.
  A workspace archive writes only inside the workspace; the proxy contacts only what the white list
  admits. A permission is settled as a specification of the four choices and the time-out says, and
  a failing interceptor disturbs no one: each recorder ends a session as it would alone. A recorded conversation is bounded, holds no key and lies in
  the directory of its task; scrubbing is idempotent; a tool call is counted and a backtest archived at
  most once, and the summary of the tools is that of the calls in the stream. The queue refines a
  first-come, first-served line; log records name no other task than their own; a start upgrades an old
  database and loses nothing. Where the code does not do what its comments say, the claim states
  what it does: deletion that does not cascade, an abort that a running task overwrites, a
  decision resolved through another task, a lock discarded while in use, a database that is never
  closed, a collector that starves, a session error that ends as success, a permission answered
  after the end, a version check lost after a failed probe, an open policy endpoint, a git subpath
  outside the workspace.

  \<^bold>\<open>Bounds.\<close> No definition uses fuel. The health probe recurses on its number of attempts, the
  stream on the list of its wake-ups, the retry and reconnection loops of the SDK on the attempts
  left, with a termination proof, every other loop on its data.

  \<^bold>\<open>Not modelled.\<close> What is logged, FastAPI's routing and parsing, pydantic's validation (a request is a
  validated record whose \<open>task_id\<close> is a string), and the libraries for Docker, HTTP, tar archives and
  SSE, which are parameters; \<open>run_broker\<close>, which only passes the application to uvicorn, and the wrappers of the SSE
  library in \<open>sse.py\<close>. For the runner an interceptor is its name and three
  arbitrary computations, so its properties hold for any. The recorders in the runner have a state of
  their own (\<open>recorders\<close>), which the driver's world does not contain: they share nothing with it but
  the events they are given and the artifacts they return. \<open>run_task\<close> takes the driver and
  the workspace as arbitrary computations of \<open>orch_env\<close>, so what is proved of it holds for any of
  them. Of asyncio's cancellation only the points the claims name are modelled. Texts are ASCII.
\<close>

end
